theory Spec2Isabelle
  imports Main "HOL-Library.Word"
begin

unbundle bit_operations_syntax

section \<open>The C2 type lattice of \<^verbatim>\<open>src/hotspot/share/opto/type.cpp\<close>\<close>

text \<open>
  The development embeds the parts of \<^verbatim>\<open>type.cpp\<close> that build, intern and meet
  lattice elements.  Every \<^verbatim>\<open>Type\<close> object is canonical (hash-consed), so a pointer
  comparison \<^verbatim>\<open>this == t\<close> between two canonical objects is modelled by equality of
  their structural content; the intern table itself is modelled with explicit addresses
  in the section on \<^verbatim>\<open>Type::hashcons\<close>.

  Failures are values: \<^verbatim>\<open>typerr\<close> and \<^verbatim>\<open>ShouldNotReachHere\<close> abort the VM in
  every build, a failed \<^verbatim>\<open>assert\<close> aborts a debug build.
\<close>

datatype error =
    TypeError                \<comment> \<open>\<^verbatim>\<open>Type::typerr\<close>: prints and calls \<^verbatim>\<open>ShouldNotReachHere()\<close>\<close>
  | ShouldNotReachHere       \<comment> \<open>a direct \<^verbatim>\<open>ShouldNotReachHere()\<close>\<close>
  | AssertFailed string      \<comment> \<open>a failed \<^verbatim>\<open>assert(cond, msg)\<close>, carrying \<^verbatim>\<open>msg\<close>\<close>

section \<open>Interface sets: \<^verbatim>\<open>TypeInterfaces\<close>\<close>

text \<open>
  A \<^verbatim>\<open>ciKlass*\<close> handle is identified by its address, read as \<^verbatim>\<open>intptr_t\<close> the way
  \<^verbatim>\<open>TypeInterfaces::compare\<close> reads it.
\<close>

type_synonym ciKlass = int

definition compare :: "ciKlass \<Rightarrow> ciKlass \<Rightarrow> int" where
  "compare k1 k2 = (if k1 < k2 then - 1 else if k1 > k2 then 1 else 0)"

text \<open>
  \<^verbatim>\<open>TypeInterfaces::make(GrowableArray*)\<close> copies the handles, the constructor sorts them
  with \<^verbatim>\<open>compare\<close>, and the object is interned.  The structural content of the result is
  the sorted array.
\<close>

definition TypeInterfaces_make :: "ciKlass list \<Rightarrow> ciKlass list" where
  "TypeInterfaces_make interfaces = sort interfaces"

text \<open>
  The two inner \<^verbatim>\<open>while\<close> loops of \<^verbatim>\<open>union_with\<close> are the same loop with the roles of
  the two arrays exchanged: advance the cursor \<open>i\<close> of \<open>xs\<close> while its element is below
  \<open>ys[j]\<close> (or \<open>ys\<close> is exhausted), pushing every element passed.
\<close>

function push_while_less ::
  "ciKlass list \<Rightarrow> ciKlass list \<Rightarrow> nat \<Rightarrow> nat \<Rightarrow> ciKlass list \<Rightarrow> nat \<times> ciKlass list" where
  "push_while_less xs ys i j result_list =
     (if i < length xs \<and> (j \<ge> length ys \<or> compare (xs ! i) (ys ! j) < 0)
      then push_while_less xs ys (i + 1) j (result_list @ [xs ! i])
      else (i, result_list))"
  by pat_completeness auto
termination
  by (relation "measure (\<lambda>(xs, ys, i, j, r). length xs - i)") auto

declare push_while_less.simps [simp del]

text \<open>The inner loops of \<^verbatim>\<open>intersection_with\<close>: the same scan without the push.\<close>

function skip_while_less :: "ciKlass list \<Rightarrow> ciKlass list \<Rightarrow> nat \<Rightarrow> nat \<Rightarrow> nat" where
  "skip_while_less xs ys i j =
     (if i < length xs \<and> (j \<ge> length ys \<or> compare (xs ! i) (ys ! j) < 0)
      then skip_while_less xs ys (i + 1) j
      else i)"
  by pat_completeness auto
termination
  by (relation "measure (\<lambda>(xs, ys, i, j). length xs - i)") auto

declare skip_while_less.simps [simp del]

lemma push_while_less_fst:
  "fst (push_while_less xs ys i j r) = skip_while_less xs ys i j"
proof (induction xs ys i j r rule: push_while_less.induct)
  case (1 xs ys i j r)
  show ?case
  proof (cases "i < length xs \<and> (j \<ge> length ys \<or> compare (xs ! i) (ys ! j) < 0)")
    case True
    have "fst (push_while_less xs ys i j r) =
          fst (push_while_less xs ys (i + 1) j (r @ [xs ! i]))"
      by (subst push_while_less.simps) (simp only: True if_True simp_thms)
    also have "\<dots> = skip_while_less xs ys (i + 1) j"
      using "1" True by simp
    finally have step: "fst (push_while_less xs ys i j r) = skip_while_less xs ys (i + 1) j" .
    have "skip_while_less xs ys i j = skip_while_less xs ys (i + 1) j"
      by (subst skip_while_less.simps) (simp only: True if_True simp_thms)
    with step show ?thesis by simp
  next
    case False
    have "push_while_less xs ys i j r = (i, r)"
      by (subst push_while_less.simps) (simp only: False if_False simp_thms)
    moreover have "skip_while_less xs ys i j = i"
      by (subst skip_while_less.simps) (simp only: False if_False simp_thms)
    ultimately show ?thesis by simp
  qed
qed

lemma skip_while_less_ge: "i \<le> skip_while_less xs ys i j"
proof (induction xs ys i j rule: skip_while_less.induct)
  case (1 xs ys i j)
  show ?case
  proof (cases "i < length xs \<and> (j \<ge> length ys \<or> compare (xs ! i) (ys ! j) < 0)")
    case True
    with "1" have a: "i + 1 \<le> skip_while_less xs ys (i + 1) j" by simp
    have b: "skip_while_less xs ys i j = skip_while_less xs ys (i + 1) j"
      by (subst skip_while_less.simps) (simp only: True if_True simp_thms)
    from a b show ?thesis by linarith
  next
    case False
    have "skip_while_less xs ys i j = i"
      by (subst skip_while_less.simps) (simp only: False if_False simp_thms)
    then show ?thesis by simp
  qed
qed

lemma skip_while_less_le: "skip_while_less xs ys i j \<le> max i (length xs)"
proof (induction xs ys i j rule: skip_while_less.induct)
  case (1 xs ys i j)
  show ?case
  proof (cases "i < length xs \<and> (j \<ge> length ys \<or> compare (xs ! i) (ys ! j) < 0)")
    case True
    with "1" have a: "skip_while_less xs ys (i + 1) j \<le> max (i + 1) (length xs)" by simp
    have b: "skip_while_less xs ys i j = skip_while_less xs ys (i + 1) j"
      by (subst skip_while_less.simps) (simp only: True if_True simp_thms)
    from a b True show ?thesis by simp
  next
    case False
    have "skip_while_less xs ys i j = i"
      by (subst skip_while_less.simps) (simp only: False if_False simp_thms)
    then show ?thesis by simp
  qed
qed

lemma skip_while_less_stop:
  "skip_while_less xs ys i j = i' \<Longrightarrow>
   \<not> (i' < length xs \<and> (j \<ge> length ys \<or> compare (xs ! i') (ys ! j) < 0))"
proof (induction xs ys i j rule: skip_while_less.induct)
  case (1 xs ys i j)
  show ?case
  proof (cases "i < length xs \<and> (j \<ge> length ys \<or> compare (xs ! i) (ys ! j) < 0)")
    case True
    have "skip_while_less xs ys i j = skip_while_less xs ys (i + 1) j"
      by (subst skip_while_less.simps) (simp only: True if_True simp_thms)
    with "1.prems" have "skip_while_less xs ys (i + 1) j = i'" by simp
    with "1.IH" True show ?thesis by blast
  next
    case False
    have "skip_while_less xs ys i j = i"
      by (subst skip_while_less.simps) (simp only: False if_False simp_thms)
    with "1.prems" have "i' = i" by simp
    with False show ?thesis by simp
  qed
qed

text \<open>
  Between two visits of the outer loop head some cursor has moved: when neither inner
  loop advances, both cursors are in range and the elements compare equal, which is the
  case the final \<^verbatim>\<open>if\<close> consumes.
\<close>

lemma outer_loop_progress:
  assumes "i < length a \<or> j < length b"
    and "i1 = skip_while_less a b i j"
    and "j1 = skip_while_less b a j i1"
    and "\<not> (i1 < length a \<and> j1 < length b \<and> a ! i1 = b ! j1)"
  shows "i \<le> i1 \<and> j \<le> j1 \<and> (i < i1 \<or> j < j1)"
proof -
  have ge: "i \<le> i1" "j \<le> j1"
    using assms(2,3) skip_while_less_ge by auto
  have s1: "\<not> (i1 < length a \<and> (j \<ge> length b \<or> compare (a ! i1) (b ! j) < 0))"
    using skip_while_less_stop [OF assms(2) [symmetric]] .
  have s2: "\<not> (j1 < length b \<and> (i1 \<ge> length a \<or> compare (b ! j1) (a ! i1) < 0))"
    using skip_while_less_stop [OF assms(3) [symmetric]] .
  show ?thesis
  proof (rule ccontr)
    assume "\<not> ?thesis"
    with ge have eq: "i1 = i" "j1 = j" by auto
    from s1 s2 assms(1,4) show False
      unfolding eq compare_def by (auto split: if_splits)
  qed
qed

function union_loop ::
  "ciKlass list \<Rightarrow> ciKlass list \<Rightarrow> nat \<Rightarrow> nat \<Rightarrow> ciKlass list \<Rightarrow> ciKlass list" where
  "union_loop a b i j result_list =
     (if i < length a \<or> j < length b then
        (let s1 = push_while_less a b i j result_list;
             s2 = push_while_less b a j (fst s1) (snd s1)
         in if fst s1 < length a \<and> fst s2 < length b \<and> a ! fst s1 = b ! fst s2
            then union_loop a b (fst s1 + 1) (fst s2 + 1) (snd s2 @ [a ! fst s1])
            else union_loop a b (fst s1) (fst s2) (snd s2))
      else result_list)"
  by pat_completeness auto
termination
proof (relation "measure (\<lambda>(a, b, i, j, r). (length a - i) + (length b - j))", goal_cases)
  case 1
  show ?case by simp
next
  case (2 a b i j r s1 s2)
  have "i \<le> fst s1" "j \<le> fst s2"
    using 2 by (simp_all add: push_while_less_fst skip_while_less_ge)
  with 2 show ?case by auto
next
  case (3 a b i j r s1 s2)
  have "i \<le> fst s1 \<and> j \<le> fst s2 \<and> (i < fst s1 \<or> j < fst s2)"
    by (rule outer_loop_progress [where a = a and b = b])
       (use 3 in \<open>simp_all add: push_while_less_fst\<close>)
  moreover have "fst s1 \<le> max i (length a)" "fst s2 \<le> max j (length b)"
    using 3 by (simp_all only: push_while_less_fst skip_while_less_le)
  ultimately show ?case
    by (auto simp: split_beta)
qed

declare union_loop.simps [simp del]

definition union_with :: "ciKlass list \<Rightarrow> ciKlass list \<Rightarrow> ciKlass list" where
  "union_with this other = TypeInterfaces_make (union_loop this other 0 0 [])"

function intersection_loop ::
  "ciKlass list \<Rightarrow> ciKlass list \<Rightarrow> nat \<Rightarrow> nat \<Rightarrow> ciKlass list \<Rightarrow> ciKlass list" where
  "intersection_loop a b i j result_list =
     (if i < length a \<or> j < length b then
        (let i1 = skip_while_less a b i j;
             j1 = skip_while_less b a j i1
         in if i1 < length a \<and> j1 < length b \<and> a ! i1 = b ! j1
            then intersection_loop a b (i1 + 1) (j1 + 1) (result_list @ [a ! i1])
            else intersection_loop a b i1 j1 result_list)
      else result_list)"
  by pat_completeness auto
termination
proof (relation "measure (\<lambda>(a, b, i, j, r). (length a - i) + (length b - j))", goal_cases)
  case 1
  show ?case by simp
next
  case (2 a b i j r i1 j1)
  have "i \<le> i1" "j \<le> j1"
    using 2 by (simp_all add: skip_while_less_ge)
  with 2 show ?case by auto
next
  case (3 a b i j r i1 j1)
  have "i \<le> i1 \<and> j \<le> j1 \<and> (i < i1 \<or> j < j1)"
    by (rule outer_loop_progress [where a = a and b = b]) (use 3 in simp_all)
  moreover have "i1 \<le> max i (length a)" "j1 \<le> max j (length b)"
    using 3 by (simp_all only: skip_while_less_le)
  ultimately show ?case
    by auto
qed

declare intersection_loop.simps [simp del]

definition intersection_with :: "ciKlass list \<Rightarrow> ciKlass list \<Rightarrow> ciKlass list" where
  "intersection_with this other = TypeInterfaces_make (intersection_loop this other 0 0 [])"

section \<open>Lattice elements\<close>

subsection \<open>Enumerations and tables\<close>

text \<open>
  \<^verbatim>\<open>enum TYPES\<close>, in the order of the rows of \<^verbatim>\<open>Type::_type_info\<close>; the enumerator
  \<^verbatim>\<open>Int\<close> is written \<open>Int'\<close>.
\<close>

datatype TYPES =
    Bad | Control | Top | Int' | Long | Half | NarrowOop | NarrowKlass | Tuple | Array
  | Interfaces | VectorMask | VectorA | VectorS | VectorD | VectorX | VectorY | VectorZ
  | AnyPtr | RawPtr | OopPtr | InstPtr | AryPtr | MetadataPtr | KlassPtr | InstKlassPtr
  | AryKlassPtr | Function | Abio | Return_Address | Memory
  | HalfFloatTop | HalfFloatCon | HalfFloatBot | FloatTop | FloatCon | FloatBot
  | DoubleTop | DoubleCon | DoubleBot | Bottom

text \<open>The first column of \<^verbatim>\<open>_type_info\<close>: \<^verbatim>\<open>dual_type\<close>.\<close>

fun dual_type :: "TYPES \<Rightarrow> TYPES" where
  "dual_type Control = Control"
| "dual_type Top = Bottom"
| "dual_type Half = Half"
| "dual_type Abio = Abio"
| "dual_type Return_Address = Return_Address"
| "dual_type Memory = Memory"
| "dual_type HalfFloatTop = HalfFloatBot"
| "dual_type HalfFloatCon = HalfFloatCon"
| "dual_type HalfFloatBot = HalfFloatTop"
| "dual_type FloatTop = FloatBot"
| "dual_type FloatCon = FloatCon"
| "dual_type FloatBot = FloatTop"
| "dual_type DoubleTop = DoubleBot"
| "dual_type DoubleCon = DoubleCon"
| "dual_type DoubleBot = DoubleTop"
| "dual_type Bottom = Top"
| "dual_type _ = Bad"

text \<open>\<^verbatim>\<open>enum PTR\<close> with the tables \<^verbatim>\<open>ptr_meet\<close> and \<^verbatim>\<open>ptr_dual\<close>.\<close>

datatype PTR = TopPTR | AnyNull | Constant | Null | NotNull | BotPTR

fun PTR_index :: "PTR \<Rightarrow> nat" where
  "PTR_index TopPTR = 0"
| "PTR_index AnyNull = 1"
| "PTR_index Constant = 2"
| "PTR_index Null = 3"
| "PTR_index NotNull = 4"
| "PTR_index BotPTR = 5"

definition ptr_meet :: "PTR list list" where
  "ptr_meet =
    [ \<comment> \<open>TopPTR, AnyNull, Constant, Null, NotNull, BotPTR\<close>
      [TopPTR,   AnyNull,  Constant, Null,   NotNull, BotPTR],
      [AnyNull,  AnyNull,  Constant, BotPTR, NotNull, BotPTR],
      [Constant, Constant, Constant, BotPTR, NotNull, BotPTR],
      [Null,     BotPTR,   BotPTR,   Null,   BotPTR,  BotPTR],
      [NotNull,  NotNull,  NotNull,  BotPTR, NotNull, BotPTR],
      [BotPTR,   BotPTR,   BotPTR,   BotPTR, BotPTR,  BotPTR] ]"

definition ptr_dual :: "PTR list" where
  "ptr_dual = [BotPTR, NotNull, Constant, Null, AnyNull, TopPTR]"

text \<open>
  The declarations of \<^verbatim>\<open>type.hpp\<close> that \<^verbatim>\<open>type.cpp\<close> uses by name.  The centerline
  tests compare enumerators: \<^verbatim>\<open>ptr <= AnyNull\<close> and \<^verbatim>\<open>ptr >= NotNull\<close>.
\<close>

definition above_centerline :: "PTR \<Rightarrow> bool" where
  "above_centerline p \<longleftrightarrow> PTR_index p \<le> PTR_index AnyNull"

definition below_centerline :: "PTR \<Rightarrow> bool" where
  "below_centerline p \<longleftrightarrow> PTR_index p \<ge> PTR_index NotNull"

definition OffsetTop :: int where "OffsetTop = - 2000000000"
definition OffsetBot :: int where "OffsetBot = - 2000000001"

definition InlineDepthBottom :: int where "InlineDepthBottom = 2147483647"
definition InlineDepthTop :: int where "InlineDepthTop = - InlineDepthBottom"

definition InstanceTop :: int where "InstanceTop = - 1"
definition InstanceBot :: int where "InstanceBot = 0"

definition WidenMin :: int where "WidenMin = 0"

subsection \<open>Bounded integers: the fields of \<^verbatim>\<open>TypeInt\<close>\<close>

text \<open>
  \<^verbatim>\<open>TypeIntPrototype<jint, juint>\<close> carries a signed range, an unsigned range and the
  known bits; \<open>jint\<close> and \<open>juint\<close> are both 32-bit words, read signed or unsigned.
\<close>

type_synonym jint = "32 word"
type_synonym juint = "32 word"

record RangeInt =
  range_lo :: "32 word"
  range_hi :: "32 word"

record KnownBits =
  zeros :: juint
  ones :: juint

record TypeIntPrototype =
  srange :: RangeInt    \<comment> \<open>\<^verbatim>\<open>RangeInt<jint>\<close>, compared signed\<close>
  urange :: RangeInt    \<comment> \<open>\<^verbatim>\<open>RangeInt<juint>\<close>, compared unsigned\<close>
  bits :: KnownBits

record TypeInteger =
  lo :: jint
  hi :: jint
  ulo :: juint
  uhi :: juint
  known_bits :: KnownBits
  widen :: int
  is_dual :: bool

subsection \<open>The objects\<close>

text \<open>
  One constructor per class of the modelled part of the hierarchy.  \<^verbatim>\<open>Type\<close> objects of
  the base class carry only \<^verbatim>\<open>_base\<close>; \<^verbatim>\<open>TypeF\<close>, \<^verbatim>\<open>TypeD\<close> and \<^verbatim>\<open>TypeH\<close> carry the
  bit pattern of their constant (the code compares \<^verbatim>\<open>jint_cast(_f)\<close>,
  \<^verbatim>\<open>jlong_cast(_d)\<close> and the \<^verbatim>\<open>short\<close> itself).  A null \<^verbatim>\<open>ciKlass*\<close>, \<^verbatim>\<open>ciObject*\<close> or
  \<^verbatim>\<open>address\<close> is the handle 0; a null \<^verbatim>\<open>_speculative\<close> is \<open>None\<close>.

  \<^verbatim>\<open>TypeRawPtr(ptr, bits)\<close> calls \<^verbatim>\<open>TypePtr(RawPtr, ptr, 0)\<close>: offset 0, no speculative
  part, inline depth \<^verbatim>\<open>InlineDepthBottom\<close>.  \<^verbatim>\<open>TypeOopPtr::make\<close> fixes the class to
  \<^verbatim>\<open>Object\<close>, the interfaces to the empty set, exactness to false and the constant to
  null, and \<^verbatim>\<open>TypeOopPtr::xdual\<close> keeps them, so an \<^verbatim>\<open>OopPtr\<close> object varies in the five
  arguments of \<^verbatim>\<open>make\<close> only.

  The classes left out (\<^verbatim>\<open>TypeLong\<close>, tuples, arrays, vectors, array, metadata, klass
  and narrow pointers, functions) never occur as a constructor; \<^verbatim>\<open>TypeLong\<close> repeats
  \<^verbatim>\<open>TypeInt\<close> at 64 bits.
\<close>

type_synonym ciObject = int

datatype ty =
    Type TYPES
  | TypeF "32 word"
  | TypeD "64 word"
  | TypeH "16 word"
  | TypeInt TypeInteger
  | TypePtr PTR int "ty option" int
      \<comment> \<open>\<^verbatim>\<open>_ptr, _offset, _speculative, _inline_depth\<close>\<close>
  | TypeRawPtr PTR "64 word"
      \<comment> \<open>\<^verbatim>\<open>_ptr, _bits\<close>\<close>
  | TypeOopPtr PTR int int "ty option" int
      \<comment> \<open>\<^verbatim>\<open>_ptr, _offset, _instance_id, _speculative, _inline_depth\<close>\<close>
  | TypeInstPtr PTR ciKlass "ciKlass list" bool ciObject int int "ty option" int
      \<comment> \<open>\<^verbatim>\<open>_ptr, _klass, _interfaces, _klass_is_exact, _const_oop, _offset, _instance_id,
          _speculative, _inline_depth\<close>\<close>

fun base :: "ty \<Rightarrow> TYPES" where
  "base (Type b) = b"
| "base (TypeF _) = FloatCon"
| "base (TypeD _) = DoubleCon"
| "base (TypeH _) = HalfFloatCon"
| "base (TypeInt _) = Int'"
| "base (TypePtr _ _ _ _) = AnyPtr"
| "base (TypeRawPtr _ _) = RawPtr"
| "base (TypeOopPtr _ _ _ _ _) = OopPtr"
| "base (TypeInstPtr _ _ _ _ _ _ _ _ _) = InstPtr"

text \<open>Field accessors; each is read only on objects of a class that has the field.\<close>

fun getf :: "ty \<Rightarrow> 32 word" where
  "getf (TypeF f) = f"
| "getf _ = 0"

fun getd :: "ty \<Rightarrow> 64 word" where
  "getd (TypeD d) = d"
| "getd _ = 0"

fun geth :: "ty \<Rightarrow> 16 word" where
  "geth (TypeH h) = h"
| "geth _ = 0"

fun ptr :: "ty \<Rightarrow> PTR" where
  "ptr (TypePtr p _ _ _) = p"
| "ptr (TypeRawPtr p _) = p"
| "ptr (TypeOopPtr p _ _ _ _) = p"
| "ptr (TypeInstPtr p _ _ _ _ _ _ _ _) = p"
| "ptr _ = BotPTR"

fun offset :: "ty \<Rightarrow> int" where
  "offset (TypePtr _ off _ _) = off"
| "offset (TypeRawPtr _ _) = 0"
| "offset (TypeOopPtr _ off _ _ _) = off"
| "offset (TypeInstPtr _ _ _ _ _ off _ _ _) = off"
| "offset _ = 0"

fun speculative :: "ty \<Rightarrow> ty option" where
  "speculative (TypePtr _ _ s _) = s"
| "speculative (TypeOopPtr _ _ _ s _) = s"
| "speculative (TypeInstPtr _ _ _ _ _ _ _ s _) = s"
| "speculative _ = None"

fun inline_depth :: "ty \<Rightarrow> int" where
  "inline_depth (TypePtr _ _ _ d) = d"
| "inline_depth (TypeOopPtr _ _ _ _ d) = d"
| "inline_depth (TypeInstPtr _ _ _ _ _ _ _ _ d) = d"
| "inline_depth _ = InlineDepthBottom"

fun instance_id :: "ty \<Rightarrow> int" where
  "instance_id (TypeOopPtr _ _ i _ _) = i"
| "instance_id (TypeInstPtr _ _ _ _ _ _ i _ _) = i"
| "instance_id _ = InstanceBot"

fun bits_of :: "ty \<Rightarrow> 64 word" where
  "bits_of (TypeRawPtr _ b) = b"
| "bits_of _ = 0"

fun interfaces :: "ty \<Rightarrow> ciKlass list" where
  "interfaces (TypeInstPtr _ _ ifs _ _ _ _ _ _) = ifs"
| "interfaces _ = []"

fun klass_is_exact :: "ty \<Rightarrow> bool" where
  "klass_is_exact (TypeInstPtr _ _ _ xk _ _ _ _ _) = xk"
| "klass_is_exact _ = False"

fun const_oop :: "ty \<Rightarrow> ciObject" where
  "const_oop (TypeInstPtr _ _ _ _ oop _ _ _ _) = oop"
| "const_oop _ = 0"

text \<open>\<^verbatim>\<open>isa_ptr()\<close>: the base lies between \<^verbatim>\<open>AnyPtr\<close> and \<^verbatim>\<open>AryKlassPtr\<close>.\<close>

definition isa_ptr :: "ty \<Rightarrow> bool" where
  "isa_ptr t \<longleftrightarrow> base t \<in> {AnyPtr, RawPtr, OopPtr, InstPtr, AryPtr, MetadataPtr, KlassPtr,
     InstKlassPtr, AryKlassPtr}"

text \<open>The pre-built objects of \<^verbatim>\<open>Type::Initialize_shared\<close> that the meets return.\<close>

definition BOTTOM :: ty where "BOTTOM = Type Bottom"
definition TOP :: ty where "TOP = Type Top"
definition FLOAT :: ty where "FLOAT = Type FloatBot"
definition DOUBLE :: ty where "DOUBLE = Type DoubleBot"
definition HALF_FLOAT :: ty where "HALF_FLOAT = Type HalfFloatBot"

section \<open>The collaborators of the lattice\<close>

text \<open>
  The class hierarchy (\<^verbatim>\<open>ciKlass\<close>, \<^verbatim>\<open>ciInstanceKlass\<close>, \<^verbatim>\<open>ciEnv\<close>), the integer
  meet \<^verbatim>\<open>TypeIntHelper::int_type_xmeet\<close> and the flag
  \<^verbatim>\<open>UseInlineDepthForSpeculativeTypes\<close> are not part of \<^verbatim>\<open>type.cpp\<close>; the functions
  that use them take them as a parameter.
\<close>

record env =
  ci_is_loaded :: "ciKlass \<Rightarrow> bool"
  ci_is_interface :: "ciKlass \<Rightarrow> bool"
  ci_is_final :: "ciKlass \<Rightarrow> bool"
  ci_is_subtype_of :: "ciKlass \<Rightarrow> ciKlass \<Rightarrow> bool"
  ci_least_common_ancestor :: "ciKlass \<Rightarrow> ciKlass \<Rightarrow> ciKlass"
  ci_transitive_interfaces :: "ciKlass \<Rightarrow> ciKlass list"
  Object_klass :: ciKlass
  int_type_xmeet :: "ty \<Rightarrow> ty \<Rightarrow> error + ty"
  UseInlineDepthForSpeculativeTypes :: bool

definition and_then :: "error + 'a \<Rightarrow> ('a \<Rightarrow> error + 'b) \<Rightarrow> error + 'b" where
  "and_then r f = (case r of Inl e \<Rightarrow> Inl e | Inr x \<Rightarrow> f x)"

section \<open>Factories\<close>

text \<open>
  A factory allocates an object and interns it; the structural content of the canonical
  object is the content of the candidate.  The meets are embedded as the product build
  runs them, where \<^verbatim>\<open>assert\<close> is compiled out.
\<close>

definition TypePtr_make :: "PTR \<Rightarrow> int \<Rightarrow> ty option \<Rightarrow> int \<Rightarrow> ty" where
  "TypePtr_make p off spec depth = TypePtr p off spec depth"

definition TypeRawPtr_make :: "PTR \<Rightarrow> ty" where
  "TypeRawPtr_make p = TypeRawPtr p 0"

definition TypeOopPtr_make :: "PTR \<Rightarrow> int \<Rightarrow> int \<Rightarrow> ty option \<Rightarrow> int \<Rightarrow> ty" where
  "TypeOopPtr_make p off iid spec depth = TypeOopPtr p off iid spec depth"

definition TypeInstPtr_make ::
  "env \<Rightarrow> PTR \<Rightarrow> ciKlass \<Rightarrow> ciKlass list \<Rightarrow> bool \<Rightarrow> ciObject \<Rightarrow> int \<Rightarrow> int \<Rightarrow> ty option \<Rightarrow> int
     \<Rightarrow> ty" where
  "TypeInstPtr_make e p k ifs xk oop off iid spec depth =
     (let xk' =
        (if p = Constant then True
         else if ci_is_loaded e k then
           (let xk1 = (if \<not> xk \<and> ci_is_final e k then True else xk)
            in if xk1 \<and> ci_is_interface e k then False else xk1)
         else xk)
      in TypeInstPtr p k ifs xk' oop off iid spec depth)"

text \<open>
  \<^verbatim>\<open>TypePtr::interfaces(k, true, true, false, ignore_interfaces)\<close> on an instance
  klass, as the two-argument \<^verbatim>\<open>TypeInstPtr::make(ptr, klass)\<close> of \<^verbatim>\<open>type.hpp\<close> calls it:
  the klass to use and its interface set.
\<close>

definition TypePtr_interfaces :: "env \<Rightarrow> ciKlass \<Rightarrow> ciKlass \<times> ciKlass list" where
  "TypePtr_interfaces e k =
     (if ci_is_loaded e k then
        (if ci_is_interface e k then (Object_klass e, TypeInterfaces_make [])
         else (k, TypeInterfaces_make (ci_transitive_interfaces e k)))
      else (k, TypeInterfaces_make []))"

definition TypeInstPtr_make_klass :: "env \<Rightarrow> PTR \<Rightarrow> ciKlass \<Rightarrow> ty" where
  "TypeInstPtr_make_klass e p k =
     (let (k', ifs) = TypePtr_interfaces e k
      in TypeInstPtr_make e p k' ifs False 0 0 InstanceBot None InlineDepthBottom)"

definition NULL_PTR :: ty where "NULL_PTR = TypePtr_make Null 0 None InlineDepthBottom"
definition TypePtr_NOTNULL :: ty where
  "TypePtr_NOTNULL = TypePtr_make NotNull OffsetBot None InlineDepthBottom"
definition TypePtr_BOTTOM :: ty where
  "TypePtr_BOTTOM = TypePtr_make BotPTR OffsetBot None InlineDepthBottom"
definition TypeRawPtr_BOTTOM :: ty where "TypeRawPtr_BOTTOM = TypeRawPtr_make BotPTR"
definition TypeRawPtr_NOTNULL :: ty where "TypeRawPtr_NOTNULL = TypeRawPtr_make NotNull"
definition TypeInstPtr_NOTNULL :: "env \<Rightarrow> ty" where
  "TypeInstPtr_NOTNULL e = TypeInstPtr_make_klass e NotNull (Object_klass e)"
definition TypeInstPtr_BOTTOM :: "env \<Rightarrow> ty" where
  "TypeInstPtr_BOTTOM e = TypeInstPtr_make_klass e BotPTR (Object_klass e)"

section \<open>The pointer frame: \<^verbatim>\<open>TypePtr\<close> and \<^verbatim>\<open>TypeOopPtr\<close> helpers\<close>

text \<open>\<^verbatim>\<open>meet_ptr\<close> and \<^verbatim>\<open>dual_ptr\<close> of \<^verbatim>\<open>type.hpp\<close> index the two tables.\<close>

definition meet_ptr :: "ty \<Rightarrow> PTR \<Rightarrow> PTR" where
  "meet_ptr this in_ptr = ptr_meet ! PTR_index in_ptr ! PTR_index (ptr this)"

definition dual_ptr :: "ty \<Rightarrow> PTR" where
  "dual_ptr this = ptr_dual ! PTR_index (ptr this)"

definition meet_offset :: "ty \<Rightarrow> int \<Rightarrow> int" where
  "meet_offset this off =
     (if offset this = OffsetTop then off
      else if off = OffsetTop then offset this
      else if offset this \<noteq> off then OffsetBot
      else offset this)"

definition dual_offset :: "ty \<Rightarrow> int" where
  "dual_offset this =
     (if offset this = OffsetTop then OffsetBot
      else if offset this = OffsetBot then OffsetTop
      else offset this)"

definition meet_inline_depth :: "ty \<Rightarrow> int \<Rightarrow> int" where
  "meet_inline_depth this depth = max (inline_depth this) depth"

text \<open>
  The inline depth is a C++ \<^verbatim>\<open>int\<close>: the negation \<^verbatim>\<open>-inline_depth()\<close> wraps at
  \<^verbatim>\<open>INT_MIN\<close>, which is its own negative.
\<close>

definition INT_MIN :: int where "INT_MIN = - 2147483648"
definition INT_MAX :: int where "INT_MAX = 2147483647"

definition dual_inline_depth :: "ty \<Rightarrow> int" where
  "dual_inline_depth this =
     (if inline_depth this = INT_MIN then INT_MIN else - inline_depth this)"

definition meet_instance_id :: "ty \<Rightarrow> int \<Rightarrow> int" where
  "meet_instance_id this iid =
     (if instance_id this = InstanceTop then iid
      else if iid = InstanceTop then instance_id this
      else if instance_id this \<noteq> iid then InstanceBot
      else instance_id this)"

definition dual_instance_id :: "ty \<Rightarrow> int" where
  "dual_instance_id this =
     (if instance_id this = InstanceTop then InstanceBot
      else if instance_id this = InstanceBot then InstanceTop
      else instance_id this)"

text \<open>\<^verbatim>\<open>klass()\<close>: the field of an instance pointer, \<^verbatim>\<open>Object\<close> for a plain oop pointer.\<close>

fun klass :: "env \<Rightarrow> ty \<Rightarrow> ciKlass" where
  "klass e (TypeInstPtr _ k _ _ _ _ _ _ _) = k"
| "klass e (TypeOopPtr _ _ _ _ _) = Object_klass e"
| "klass e _ = 0"

definition meet_interfaces :: "ty \<Rightarrow> ty \<Rightarrow> ciKlass list" where
  "meet_interfaces this other =
     (if above_centerline (ptr this) \<and> above_centerline (ptr other)
        then union_with (interfaces this) (interfaces other)
      else if above_centerline (ptr this) \<and> \<not> above_centerline (ptr other)
        then interfaces other
      else if above_centerline (ptr other) \<and> \<not> above_centerline (ptr this)
        then interfaces this
      else intersection_with (interfaces this) (interfaces other))"

text \<open>
  \<^verbatim>\<open>remove_speculative()\<close> is virtual: \<^verbatim>\<open>Type\<close> returns \<^verbatim>\<open>this\<close>, the pointer classes
  rebuild the object without its speculative part.
\<close>

fun remove_speculative :: "env \<Rightarrow> ty \<Rightarrow> ty" where
  "remove_speculative e (TypePtr p off spec depth) =
     (if spec = None then TypePtr p off spec depth
      else TypePtr_make p off None depth)"
| "remove_speculative e (TypeOopPtr p off iid spec depth) =
     (if spec = None then TypeOopPtr p off iid spec depth
      else TypeOopPtr_make p off iid None depth)"
| "remove_speculative e (TypeInstPtr p k ifs xk oop off iid spec depth) =
     (if spec = None then TypeInstPtr p k ifs xk oop off iid spec depth
      else TypeInstPtr_make e p k ifs xk oop off iid None depth)"
| "remove_speculative e t = t"

text \<open>
  \<^verbatim>\<open>cleanup_speculative()\<close> drops a speculative part that will not be used.  It is
  virtual: \<^verbatim>\<open>TypePtr\<close> defines it, \<^verbatim>\<open>TypeRawPtr\<close> inherits it, \<^verbatim>\<open>TypeOopPtr\<close>
  overrides it for itself and the instance pointers.  The predicates
  \<^verbatim>\<open>maybe_null()\<close> (\<^verbatim>\<open>meet_ptr(Null) == ptr()\<close>) and \<^verbatim>\<open>isa_oopptr()\<close> (the base lies
  between \<^verbatim>\<open>OopPtr\<close> and \<^verbatim>\<open>AryPtr\<close>) are declarations of \<^verbatim>\<open>type.hpp\<close> that
  \<^verbatim>\<open>type.cpp\<close> uses by name, as is the default \<^verbatim>\<open>Type::cleanup_speculative\<close>, which
  returns \<^verbatim>\<open>this\<close>.
\<close>

definition maybe_null :: "ty \<Rightarrow> bool" where
  "maybe_null this \<longleftrightarrow> meet_ptr this Null = ptr this"

definition isa_oopptr :: "ty \<Rightarrow> bool" where
  "isa_oopptr t \<longleftrightarrow> base t \<in> {OopPtr, InstPtr, AryPtr}"

definition TypePtr_with_inline_depth :: "env \<Rightarrow> ty \<Rightarrow> int \<Rightarrow> ty" where
  "TypePtr_with_inline_depth e this depth =
     (if \<not> UseInlineDepthForSpeculativeTypes e then this
      else TypePtr_make (ptr this) (offset this) (speculative this) depth)"

definition TypePtr_cleanup_speculative :: "env \<Rightarrow> ty \<Rightarrow> ty" where
  "TypePtr_cleanup_speculative e this =
     (case speculative this of
        None \<Rightarrow> this
      | Some spec \<Rightarrow>
          (let no_spec = remove_speculative e this
           in if no_spec = TypePtr_with_inline_depth e NULL_PTR (inline_depth this)
                then no_spec
              else if above_centerline (ptr spec) then no_spec
              else if spec \<noteq> NULL_PTR \<and> maybe_null spec \<and>
                      (\<not> isa_oopptr spec \<or> \<not> klass_is_exact spec)
                then no_spec
              else this))"

definition TypeOopPtr_cleanup_speculative :: "env \<Rightarrow> ty \<Rightarrow> ty" where
  "TypeOopPtr_cleanup_speculative e this =
     (if klass_is_exact this \<and> \<not> maybe_null this then remove_speculative e this
      else TypePtr_cleanup_speculative e this)"

fun cleanup_speculative :: "env \<Rightarrow> ty \<Rightarrow> ty" where
  "cleanup_speculative e (TypePtr p off spec depth) =
     TypePtr_cleanup_speculative e (TypePtr p off spec depth)"
| "cleanup_speculative e (TypeRawPtr p b) = TypePtr_cleanup_speculative e (TypeRawPtr p b)"
| "cleanup_speculative e (TypeOopPtr p off iid spec depth) =
     TypeOopPtr_cleanup_speculative e (TypeOopPtr p off iid spec depth)"
| "cleanup_speculative e (TypeInstPtr p k ifs xk oop off iid spec depth) =
     TypeOopPtr_cleanup_speculative e (TypeInstPtr p k ifs xk oop off iid spec depth)"
| "cleanup_speculative e t = t"

definition maybe_remove_speculative :: "env \<Rightarrow> ty \<Rightarrow> bool \<Rightarrow> ty" where
  "maybe_remove_speculative e this include_speculative =
     (if \<not> include_speculative then remove_speculative e this else this)"

text \<open>
  \<^verbatim>\<open>xmeet_speculative\<close> calls \<^verbatim>\<open>Type::meet\<close>, which is defined from the functions
  below; the functions take it as their first argument until the recursion is closed
  in \<open>meet_helper\<close>.
\<close>

definition xmeet_speculative ::
  "(ty \<Rightarrow> ty \<Rightarrow> error + ty) \<Rightarrow> ty \<Rightarrow> ty \<Rightarrow> error + ty option" where
  "xmeet_speculative meet this other =
     (let this_has_spec = (speculative this \<noteq> None);
          other_has_spec = (speculative other \<noteq> None)
      in if \<not> this_has_spec \<and> \<not> other_has_spec then Inr None
         else
           (let this_spec = (case speculative this of None \<Rightarrow> this | Some s \<Rightarrow> s);
                other_spec = (case speculative other of None \<Rightarrow> other | Some s \<Rightarrow> s)
            in and_then (meet this_spec other_spec) (\<lambda>r. Inr (Some r))))"

section \<open>Meets of the constant classes\<close>

text \<open>
  Each \<^verbatim>\<open>xmeet\<close> is its \<^verbatim>\<open>switch (t->base())\<close>, case for case.  \<^verbatim>\<open>typerr\<close> does not
  return, so a \<^verbatim>\<open>default: typerr(t);\<close> that is written above another label ends the
  call there.
\<close>

definition TypeF_xmeet :: "ty \<Rightarrow> ty \<Rightarrow> error + ty" where
  "TypeF_xmeet this t =
     (if this = t then Inr this
      else case base t of
        AnyPtr \<Rightarrow> Inr BOTTOM | RawPtr \<Rightarrow> Inr BOTTOM | OopPtr \<Rightarrow> Inr BOTTOM
      | InstPtr \<Rightarrow> Inr BOTTOM | AryPtr \<Rightarrow> Inr BOTTOM | MetadataPtr \<Rightarrow> Inr BOTTOM
      | KlassPtr \<Rightarrow> Inr BOTTOM | InstKlassPtr \<Rightarrow> Inr BOTTOM | AryKlassPtr \<Rightarrow> Inr BOTTOM
      | NarrowOop \<Rightarrow> Inr BOTTOM | NarrowKlass \<Rightarrow> Inr BOTTOM
      | Int' \<Rightarrow> Inr BOTTOM | Long \<Rightarrow> Inr BOTTOM
      | HalfFloatTop \<Rightarrow> Inr BOTTOM | HalfFloatCon \<Rightarrow> Inr BOTTOM | HalfFloatBot \<Rightarrow> Inr BOTTOM
      | DoubleTop \<Rightarrow> Inr BOTTOM | DoubleCon \<Rightarrow> Inr BOTTOM | DoubleBot \<Rightarrow> Inr BOTTOM
      | Bottom \<Rightarrow> Inr BOTTOM
      | FloatBot \<Rightarrow> Inr t
      | FloatCon \<Rightarrow> (if getf this \<noteq> getf t then Inr FLOAT else Inr this)
      | Top \<Rightarrow> Inr this
      | FloatTop \<Rightarrow> Inr this
      | _ \<Rightarrow> Inl TypeError)"

definition TypeD_xmeet :: "ty \<Rightarrow> ty \<Rightarrow> error + ty" where
  "TypeD_xmeet this t =
     (if this = t then Inr this
      else case base t of
        AnyPtr \<Rightarrow> Inr BOTTOM | RawPtr \<Rightarrow> Inr BOTTOM | OopPtr \<Rightarrow> Inr BOTTOM
      | InstPtr \<Rightarrow> Inr BOTTOM | AryPtr \<Rightarrow> Inr BOTTOM | MetadataPtr \<Rightarrow> Inr BOTTOM
      | KlassPtr \<Rightarrow> Inr BOTTOM | InstKlassPtr \<Rightarrow> Inr BOTTOM | AryKlassPtr \<Rightarrow> Inr BOTTOM
      | NarrowOop \<Rightarrow> Inr BOTTOM | NarrowKlass \<Rightarrow> Inr BOTTOM
      | Int' \<Rightarrow> Inr BOTTOM | Long \<Rightarrow> Inr BOTTOM
      | HalfFloatTop \<Rightarrow> Inr BOTTOM | HalfFloatCon \<Rightarrow> Inr BOTTOM | HalfFloatBot \<Rightarrow> Inr BOTTOM
      | FloatTop \<Rightarrow> Inr BOTTOM | FloatCon \<Rightarrow> Inr BOTTOM | FloatBot \<Rightarrow> Inr BOTTOM
      | Bottom \<Rightarrow> Inr BOTTOM
      | DoubleBot \<Rightarrow> Inr t
      | DoubleCon \<Rightarrow> (if getd this \<noteq> getd t then Inr DOUBLE else Inr this)
      | Top \<Rightarrow> Inr this
      | DoubleTop \<Rightarrow> Inr this
      | _ \<Rightarrow> Inl TypeError)"

definition TypeH_xmeet :: "ty \<Rightarrow> ty \<Rightarrow> error + ty" where
  "TypeH_xmeet this t =
     (if this = t then Inr this
      else case base t of
        AnyPtr \<Rightarrow> Inr BOTTOM | RawPtr \<Rightarrow> Inr BOTTOM | OopPtr \<Rightarrow> Inr BOTTOM
      | InstPtr \<Rightarrow> Inr BOTTOM | AryPtr \<Rightarrow> Inr BOTTOM | MetadataPtr \<Rightarrow> Inr BOTTOM
      | KlassPtr \<Rightarrow> Inr BOTTOM | InstKlassPtr \<Rightarrow> Inr BOTTOM | AryKlassPtr \<Rightarrow> Inr BOTTOM
      | NarrowOop \<Rightarrow> Inr BOTTOM | NarrowKlass \<Rightarrow> Inr BOTTOM
      | Int' \<Rightarrow> Inr BOTTOM | Long \<Rightarrow> Inr BOTTOM
      | FloatTop \<Rightarrow> Inr BOTTOM | FloatCon \<Rightarrow> Inr BOTTOM | FloatBot \<Rightarrow> Inr BOTTOM
      | DoubleTop \<Rightarrow> Inr BOTTOM | DoubleCon \<Rightarrow> Inr BOTTOM | DoubleBot \<Rightarrow> Inr BOTTOM
      | Bottom \<Rightarrow> Inr BOTTOM
      | HalfFloatBot \<Rightarrow> Inr t
      | HalfFloatCon \<Rightarrow> (if geth this \<noteq> geth t then Inr HALF_FLOAT else Inr this)
      | Top \<Rightarrow> Inr this
      | HalfFloatTop \<Rightarrow> Inr this
      | _ \<Rightarrow> Inl TypeError)"

section \<open>\<^verbatim>\<open>TypeRawPtr::xmeet\<close>\<close>

definition TypeRawPtr_xmeet :: "ty \<Rightarrow> ty \<Rightarrow> error + ty" where
  "TypeRawPtr_xmeet this t =
     (if this = t then Inr this
      else case base t of
        Bottom \<Rightarrow> Inr t
      | Top \<Rightarrow> Inr this
      | AnyPtr \<Rightarrow>
          \<comment> \<open>\<^verbatim>\<open>break\<close>: the second switch, on \<^verbatim>\<open>tp->ptr()\<close>\<close>
          (case ptr t of
             TopPTR \<Rightarrow> Inr this
           | BotPTR \<Rightarrow> Inr t
           | Null \<Rightarrow> (if ptr this = TopPTR then Inr t else Inr TypeRawPtr_BOTTOM)
           | NotNull \<Rightarrow>
               Inr (TypePtr_make (meet_ptr this NotNull) (meet_offset t 0) (speculative t)
                      (inline_depth t))
           | AnyNull \<Rightarrow>
               (if ptr this = Constant then Inr this
                else Inr (TypeRawPtr_make (meet_ptr this AnyNull)))
           | Constant \<Rightarrow> Inl ShouldNotReachHere)
      | RawPtr \<Rightarrow>
          (let tptr = ptr t; p = meet_ptr this tptr
           in if p = Constant then
                (if tptr = Constant \<and> ptr this \<noteq> Constant then Inr t
                 else if ptr this = Constant \<and> tptr \<noteq> Constant then Inr this
                 else Inr (TypeRawPtr_make NotNull))
              else Inr (TypeRawPtr_make p))
      | OopPtr \<Rightarrow> Inr TypePtr_BOTTOM | InstPtr \<Rightarrow> Inr TypePtr_BOTTOM
      | AryPtr \<Rightarrow> Inr TypePtr_BOTTOM | MetadataPtr \<Rightarrow> Inr TypePtr_BOTTOM
      | KlassPtr \<Rightarrow> Inr TypePtr_BOTTOM | InstKlassPtr \<Rightarrow> Inr TypePtr_BOTTOM
      | AryKlassPtr \<Rightarrow> Inr TypePtr_BOTTOM
      | _ \<Rightarrow> Inl TypeError)"

section \<open>Instance pointers\<close>

text \<open>
  The subtype tests of \<^verbatim>\<open>type.hpp\<close> forward to the \<^verbatim>\<open>_helper_for_instance\<close> templates
  of \<^verbatim>\<open>type.cpp\<close>; \<^verbatim>\<open>is_instance_type(other)\<close> is \<^verbatim>\<open>other->isa_instptr() != nullptr\<close>
  and \<^verbatim>\<open>TypeInterfaces::contains(other)\<close> is \<^verbatim>\<open>intersection_with(other)->eq(other)\<close>.
\<close>

definition TypeInstPtr_is_loaded :: "env \<Rightarrow> ty \<Rightarrow> bool" where
  "TypeInstPtr_is_loaded e this = ci_is_loaded e (klass e this)"

definition is_instance_type :: "ty \<Rightarrow> bool" where
  "is_instance_type other \<longleftrightarrow> base other = InstPtr"

definition TypeInterfaces_contains :: "ciKlass list \<Rightarrow> ciKlass list \<Rightarrow> bool" where
  "TypeInterfaces_contains this other \<longleftrightarrow> intersection_with this other = other"

definition is_same_java_type_as :: "env \<Rightarrow> ty \<Rightarrow> ty \<Rightarrow> bool" where
  "is_same_java_type_as e this_one other =
     (if \<not> TypeInstPtr_is_loaded e this_one \<or> \<not> TypeInstPtr_is_loaded e other then False
      else if \<not> is_instance_type other then False
      else klass e this_one = klass e other \<and> interfaces this_one = interfaces other)"

definition is_meet_subtype_of_helper :: "env \<Rightarrow> ty \<Rightarrow> ty \<Rightarrow> bool \<Rightarrow> bool \<Rightarrow> bool" where
  "is_meet_subtype_of_helper e this_one other this_xk other_xk =
     (if \<not> is_instance_type other then False
      else if klass e other = Object_klass e \<and> interfaces other = [] then True
      else ci_is_subtype_of e (klass e this_one) (klass e other) \<and>
           (\<not> this_xk \<or> TypeInterfaces_contains (interfaces this_one) (interfaces other)))"

definition is_meet_subtype_of :: "env \<Rightarrow> ty \<Rightarrow> ty \<Rightarrow> bool" where
  "is_meet_subtype_of e this other =
     is_meet_subtype_of_helper e this other (klass_is_exact this) (klass_is_exact other)"

datatype MeetResult = QUICK | UNLOADED | SUBTYPE | NOT_SUBTYPE | LCA

text \<open>
  \<^verbatim>\<open>meet_instptr\<close> writes through four reference parameters; the model returns them
  next to the result kind: \<open>(kind, ptr, interfaces, res_klass, res_xk)\<close>.
\<close>

definition meet_instptr ::
  "env \<Rightarrow> PTR \<Rightarrow> ciKlass list \<Rightarrow> ty \<Rightarrow> ty \<Rightarrow> ciKlass \<Rightarrow> bool
     \<Rightarrow> MeetResult \<times> PTR \<times> ciKlass list \<times> ciKlass \<times> bool" where
  "meet_instptr e p ifs this_type other_type res_klass res_xk =
     (let this_klass = klass e this_type;
          other_klass = klass e other_type;
          this_xk = klass_is_exact this_type;
          other_xk = klass_is_exact other_type;
          this_ptr = ptr this_type;
          other_ptr = ptr other_type;
          this_interfaces = interfaces this_type;
          other_interfaces = interfaces other_type
      in if p \<noteq> Constant \<and> this_klass = other_klass \<and> this_xk = other_xk
           then (QUICK, p, ifs, this_klass, this_xk)
         else if \<not> ci_is_loaded e other_klass \<or> \<not> ci_is_loaded e this_klass
           then (UNLOADED, p, ifs, res_klass, res_xk)
         else
           (let (subtype, subtype_exact) =
                  (if is_same_java_type_as e this_type other_type
                     then (Some this_type,
                           if below_centerline p then this_xk \<and> other_xk
                           else this_xk \<or> other_xk)
                   else if \<not> other_xk \<and> is_meet_subtype_of e this_type other_type
                     then (Some this_type, this_xk)
                   else if \<not> this_xk \<and> is_meet_subtype_of e other_type this_type
                     then (Some other_type, other_xk)
                   else (None, False));
                (this_type', other_type', this_xk', other_xk') =
                  (case subtype of
                     None \<Rightarrow> (this_type, other_type, this_xk, other_xk)
                   | Some st \<Rightarrow>
                       if above_centerline p
                         then (st, st, subtype_exact, subtype_exact)
                       else if above_centerline this_ptr \<and> \<not> above_centerline other_ptr
                         then (other_type, other_type, other_xk, other_xk)
                       else if above_centerline other_ptr \<and> \<not> above_centerline this_ptr
                         then (this_type, this_type, this_xk, this_xk)
                       else (this_type, other_type, subtype_exact, other_xk))
            in if is_same_java_type_as e this_type' other_type'
                 then (SUBTYPE, p, ifs, klass e this_type', this_xk')
               else
                 (let p' = (if p = TopPTR \<or> p = AnyNull \<or> p = Constant then NotNull else p);
                      ifs' = intersection_with this_interfaces other_interfaces;
                      k = ci_least_common_ancestor e this_klass other_klass
                  in (LCA, p', ifs', k, False))))"

definition with_speculative :: "env \<Rightarrow> ty \<Rightarrow> ty option \<Rightarrow> ty" where
  "with_speculative e this spec =
     TypeInstPtr_make e (ptr this) (klass e this) (interfaces this) (klass_is_exact this)
       (const_oop this) (offset this) (instance_id this) spec (inline_depth this)"

definition cast_to_ptr_type :: "env \<Rightarrow> ty \<Rightarrow> PTR \<Rightarrow> ty" where
  "cast_to_ptr_type e this p =
     (if p = ptr this then this
      else TypeInstPtr_make e p (klass e this) (interfaces this) (klass_is_exact this)
             (if p = Constant then const_oop this else 0) (offset this) (instance_id this)
             (speculative this) (inline_depth this))"

definition xmeet_unloaded ::
  "(ty \<Rightarrow> ty \<Rightarrow> error + ty) \<Rightarrow> env \<Rightarrow> ty \<Rightarrow> ty \<Rightarrow> ciKlass list \<Rightarrow> error + ty" where
  "xmeet_unloaded meet e this tinst ifs =
     (let off = meet_offset this (offset tinst);
          p = meet_ptr this (ptr tinst);
          iid = meet_instance_id this (instance_id tinst)
      in and_then (xmeet_speculative meet this tinst) (\<lambda>spec.
         let depth = meet_inline_depth this (inline_depth tinst);
             loaded = (if TypeInstPtr_is_loaded e this then this else tinst);
             unloaded = (if TypeInstPtr_is_loaded e this then tinst else this)
         in if klass e loaded = Object_klass e then
              (if ptr loaded = TopPTR then Inr (with_speculative e unloaded spec)
               else if ptr loaded = AnyNull then
                 Inr (TypeInstPtr_make e p (klass e unloaded) ifs False 0 off iid spec depth)
               else if ptr loaded = BotPTR then
                 Inr (with_speculative e (TypeInstPtr_BOTTOM e) spec)
               else if ptr loaded = Constant \<or> ptr loaded = NotNull then
                 (if ptr unloaded = BotPTR
                    then Inr (with_speculative e (TypeInstPtr_BOTTOM e) spec)
                  else Inr (with_speculative e (TypeInstPtr_NOTNULL e) spec))
               else if ptr unloaded = TopPTR then Inr (with_speculative e unloaded spec)
               else Inr (with_speculative e (cast_to_ptr_type e unloaded AnyNull) spec))
            else if p \<noteq> BotPTR then Inr (with_speculative e (TypeInstPtr_NOTNULL e) spec)
            else Inr (with_speculative e (TypeInstPtr_BOTTOM e) spec)))"

text \<open>
  \<^verbatim>\<open>TypeInstPtr::xmeet_helper\<close>.  The class \<^verbatim>\<open>TypeAryPtr\<close> is not modelled and no object
  has the base \<^verbatim>\<open>AryPtr\<close>; the reversed call of that case is the error
  \<open>ShouldNotReachHere\<close> of the model.
\<close>

definition TypeInstPtr_xmeet_helper ::
  "(ty \<Rightarrow> ty \<Rightarrow> error + ty) \<Rightarrow> env \<Rightarrow> ty \<Rightarrow> ty \<Rightarrow> error + ty" where
  "TypeInstPtr_xmeet_helper meet e this t =
     (if this = t then Inr this
      else case base t of
        Int' \<Rightarrow> Inr BOTTOM | Long \<Rightarrow> Inr BOTTOM
      | HalfFloatTop \<Rightarrow> Inr BOTTOM | HalfFloatCon \<Rightarrow> Inr BOTTOM | HalfFloatBot \<Rightarrow> Inr BOTTOM
      | FloatTop \<Rightarrow> Inr BOTTOM | FloatCon \<Rightarrow> Inr BOTTOM | FloatBot \<Rightarrow> Inr BOTTOM
      | DoubleTop \<Rightarrow> Inr BOTTOM | DoubleCon \<Rightarrow> Inr BOTTOM | DoubleBot \<Rightarrow> Inr BOTTOM
      | NarrowOop \<Rightarrow> Inr BOTTOM | NarrowKlass \<Rightarrow> Inr BOTTOM
      | Bottom \<Rightarrow> Inr BOTTOM
      | Top \<Rightarrow> Inr this
      | MetadataPtr \<Rightarrow> Inr TypePtr_BOTTOM | KlassPtr \<Rightarrow> Inr TypePtr_BOTTOM
      | InstKlassPtr \<Rightarrow> Inr TypePtr_BOTTOM | AryKlassPtr \<Rightarrow> Inr TypePtr_BOTTOM
      | RawPtr \<Rightarrow> Inr TypePtr_BOTTOM
      | AryPtr \<Rightarrow> Inl ShouldNotReachHere
      | OopPtr \<Rightarrow>
          (let off = meet_offset this (offset t);
               p = meet_ptr this (ptr t)
           in case ptr t of
                TopPTR \<Rightarrow>
                  (let iid = meet_instance_id this InstanceTop
                   in and_then (xmeet_speculative meet this t) (\<lambda>spec.
                      let depth = meet_inline_depth this (inline_depth t)
                      in Inr (TypeInstPtr_make e p (klass e this) (interfaces this)
                                (klass_is_exact this)
                                (if p = Constant then const_oop this else 0)
                                off iid spec depth)))
              | AnyNull \<Rightarrow>
                  (let iid = meet_instance_id this InstanceTop
                   in and_then (xmeet_speculative meet this t) (\<lambda>spec.
                      let depth = meet_inline_depth this (inline_depth t)
                      in Inr (TypeInstPtr_make e p (klass e this) (interfaces this)
                                (klass_is_exact this)
                                (if p = Constant then const_oop this else 0)
                                off iid spec depth)))
              | NotNull \<Rightarrow>
                  (let iid = meet_instance_id this (instance_id t)
                   in and_then (xmeet_speculative meet this t) (\<lambda>spec.
                      let depth = meet_inline_depth this (inline_depth t)
                      in Inr (TypeOopPtr_make p off iid spec depth)))
              | BotPTR \<Rightarrow>
                  (let iid = meet_instance_id this (instance_id t)
                   in and_then (xmeet_speculative meet this t) (\<lambda>spec.
                      let depth = meet_inline_depth this (inline_depth t)
                      in Inr (TypeOopPtr_make p off iid spec depth)))
              | _ \<Rightarrow> Inl TypeError)
      | AnyPtr \<Rightarrow>
          (let off = meet_offset this (offset t);
               p = meet_ptr this (ptr t);
               iid = meet_instance_id this InstanceTop
           in and_then (xmeet_speculative meet this t) (\<lambda>spec.
              let depth = meet_inline_depth this (inline_depth t);
                  as_instance =
                    TypeInstPtr_make e p (klass e this) (interfaces this) (klass_is_exact this)
                      (if p = Constant then const_oop this else 0) off iid spec depth
              in case ptr t of
                   Null \<Rightarrow>
                     (if p = Null then Inr (TypePtr_make p off spec depth)
                      else Inr as_instance)
                 | TopPTR \<Rightarrow> Inr as_instance
                 | AnyNull \<Rightarrow> Inr as_instance
                 | NotNull \<Rightarrow> Inr (TypePtr_make p off spec depth)
                 | BotPTR \<Rightarrow> Inr (TypePtr_make p off spec depth)
                 | _ \<Rightarrow> Inl TypeError))
      | InstPtr \<Rightarrow>
          (let off = meet_offset this (offset t);
               p = meet_ptr this (ptr t);
               iid = meet_instance_id this (instance_id t)
           in and_then (xmeet_speculative meet this t) (\<lambda>spec.
              let depth = meet_inline_depth this (inline_depth t);
                  ifs = meet_interfaces this t;
                  (kind, p', ifs', res_klass, res_xk) = meet_instptr e p ifs this t 0 False
              in if kind = UNLOADED then xmeet_unloaded meet e this t ifs'
                 else
                   (let iid' = (if kind = NOT_SUBTYPE \<and> iid > 0 then InstanceBot
                                else if kind = LCA then InstanceBot
                                else iid);
                        this_oop = const_oop this;
                        tinst_oop = const_oop t;
                        (oop, p'') =
                          (if p' = Constant then
                             (if this_oop \<noteq> 0 \<and> tinst_oop \<noteq> 0 \<and> this_oop = tinst_oop
                                then (this_oop, p')
                              else if above_centerline (ptr this) then (tinst_oop, p')
                              else if above_centerline (ptr t) then (this_oop, p')
                              else (0, NotNull))
                           else (0, p'))
                    in Inr (TypeInstPtr_make e p'' res_klass ifs' res_xk oop off iid'
                              spec depth))))
      | _ \<Rightarrow> Inl TypeError)"

section \<open>\<^verbatim>\<open>TypePtr::xmeet\<close> and the remaining pointer meets\<close>

text \<open>
  \<^verbatim>\<open>TypePtr::xmeet\<close> is inherited by the oop pointer classes: it calls the virtual
  \<^verbatim>\<open>xmeet_helper\<close> and then normalizes the speculative part of a pointer result.  The
  second half, applied to the helper's result \<open>res\<close>:
\<close>

definition TypePtr_xmeet_result :: "env \<Rightarrow> ty \<Rightarrow> ty" where
  "TypePtr_xmeet_result e res =
     (if \<not> isa_ptr res then res
      else if speculative res \<noteq> None \<and> Some (remove_speculative e res) = speculative res
        then remove_speculative e res
      else res)"

definition TypeInstPtr_xmeet ::
  "(ty \<Rightarrow> ty \<Rightarrow> error + ty) \<Rightarrow> env \<Rightarrow> ty \<Rightarrow> ty \<Rightarrow> error + ty" where
  "TypeInstPtr_xmeet meet e this t =
     and_then (TypeInstPtr_xmeet_helper meet e this t) (\<lambda>res. Inr (TypePtr_xmeet_result e res))"

text \<open>
  A reversed call \<^verbatim>\<open>t->xmeet(this)\<close> is virtual.  Its receiver has the base of the
  \<^verbatim>\<open>case\<close> label, so it is an object of the class with that base; an object of another
  class with that base is never built, and for it the model answers
  \<open>ShouldNotReachHere\<close>.
\<close>

definition TypeOopPtr_xmeet_helper ::
  "(ty \<Rightarrow> ty \<Rightarrow> error + ty) \<Rightarrow> env \<Rightarrow> ty \<Rightarrow> ty \<Rightarrow> error + ty" where
  "TypeOopPtr_xmeet_helper meet e this t =
     (if this = t then Inr this
      else case base t of
        Int' \<Rightarrow> Inr BOTTOM | Long \<Rightarrow> Inr BOTTOM
      | HalfFloatTop \<Rightarrow> Inr BOTTOM | HalfFloatCon \<Rightarrow> Inr BOTTOM | HalfFloatBot \<Rightarrow> Inr BOTTOM
      | FloatTop \<Rightarrow> Inr BOTTOM | FloatCon \<Rightarrow> Inr BOTTOM | FloatBot \<Rightarrow> Inr BOTTOM
      | DoubleTop \<Rightarrow> Inr BOTTOM | DoubleCon \<Rightarrow> Inr BOTTOM | DoubleBot \<Rightarrow> Inr BOTTOM
      | NarrowOop \<Rightarrow> Inr BOTTOM | NarrowKlass \<Rightarrow> Inr BOTTOM
      | Bottom \<Rightarrow> Inr BOTTOM
      | Top \<Rightarrow> Inr this
      | RawPtr \<Rightarrow> Inr TypePtr_BOTTOM | MetadataPtr \<Rightarrow> Inr TypePtr_BOTTOM
      | KlassPtr \<Rightarrow> Inr TypePtr_BOTTOM | InstKlassPtr \<Rightarrow> Inr TypePtr_BOTTOM
      | AryKlassPtr \<Rightarrow> Inr TypePtr_BOTTOM
      | AnyPtr \<Rightarrow>
          (let off = meet_offset this (offset t);
               p = meet_ptr this (ptr t)
           in and_then (xmeet_speculative meet this t) (\<lambda>spec.
              let depth = meet_inline_depth this (inline_depth t);
                  as_oop = TypeOopPtr_make p off (meet_instance_id this InstanceTop) spec depth
              in case ptr t of
                   Null \<Rightarrow>
                     (if p = Null then Inr (TypePtr_make p off spec depth)
                      else Inr as_oop)
                 | TopPTR \<Rightarrow> Inr as_oop
                 | AnyNull \<Rightarrow> Inr as_oop
                 | BotPTR \<Rightarrow> Inr (TypePtr_make p off spec depth)
                 | NotNull \<Rightarrow> Inr (TypePtr_make p off spec depth)
                 | _ \<Rightarrow> Inl TypeError))
      | OopPtr \<Rightarrow>
          (let iid = meet_instance_id this (instance_id t)
           in and_then (xmeet_speculative meet this t) (\<lambda>spec.
              let depth = meet_inline_depth this (inline_depth t)
              in Inr (TypeOopPtr_make (meet_ptr this (ptr t)) (meet_offset this (offset t))
                        iid spec depth)))
      | InstPtr \<Rightarrow>
          (case t of
             TypeInstPtr _ _ _ _ _ _ _ _ _ \<Rightarrow> TypeInstPtr_xmeet meet e t this
           | _ \<Rightarrow> Inl ShouldNotReachHere)
      | AryPtr \<Rightarrow> Inl ShouldNotReachHere
      | _ \<Rightarrow> Inl TypeError)"

definition TypeOopPtr_xmeet ::
  "(ty \<Rightarrow> ty \<Rightarrow> error + ty) \<Rightarrow> env \<Rightarrow> ty \<Rightarrow> ty \<Rightarrow> error + ty" where
  "TypeOopPtr_xmeet meet e this t =
     and_then (TypeOopPtr_xmeet_helper meet e this t) (\<lambda>res. Inr (TypePtr_xmeet_result e res))"

definition TypePtr_xmeet_helper ::
  "(ty \<Rightarrow> ty \<Rightarrow> error + ty) \<Rightarrow> env \<Rightarrow> ty \<Rightarrow> ty \<Rightarrow> error + ty" where
  "TypePtr_xmeet_helper meet e this t =
     (if this = t then Inr this
      else case base t of
        Int' \<Rightarrow> Inr BOTTOM | Long \<Rightarrow> Inr BOTTOM
      | HalfFloatTop \<Rightarrow> Inr BOTTOM | HalfFloatCon \<Rightarrow> Inr BOTTOM | HalfFloatBot \<Rightarrow> Inr BOTTOM
      | FloatTop \<Rightarrow> Inr BOTTOM | FloatCon \<Rightarrow> Inr BOTTOM | FloatBot \<Rightarrow> Inr BOTTOM
      | DoubleTop \<Rightarrow> Inr BOTTOM | DoubleCon \<Rightarrow> Inr BOTTOM | DoubleBot \<Rightarrow> Inr BOTTOM
      | NarrowOop \<Rightarrow> Inr BOTTOM | NarrowKlass \<Rightarrow> Inr BOTTOM
      | Bottom \<Rightarrow> Inr BOTTOM
      | Top \<Rightarrow> Inr this
      | AnyPtr \<Rightarrow>
          and_then (xmeet_speculative meet this t) (\<lambda>spec.
            let depth = meet_inline_depth this (inline_depth t)
            in Inr (TypePtr_make (meet_ptr this (ptr t)) (meet_offset this (offset t))
                      spec depth))
      | RawPtr \<Rightarrow>
          (case t of
             TypeRawPtr _ _ \<Rightarrow> TypeRawPtr_xmeet t this
           | _ \<Rightarrow> Inl ShouldNotReachHere)
      | OopPtr \<Rightarrow>
          (case t of
             TypeOopPtr _ _ _ _ _ \<Rightarrow> TypeOopPtr_xmeet meet e t this
           | _ \<Rightarrow> Inl ShouldNotReachHere)
      | InstPtr \<Rightarrow>
          (case t of
             TypeInstPtr _ _ _ _ _ _ _ _ _ \<Rightarrow> TypeInstPtr_xmeet meet e t this
           | _ \<Rightarrow> Inl ShouldNotReachHere)
      | AryPtr \<Rightarrow> Inl ShouldNotReachHere | MetadataPtr \<Rightarrow> Inl ShouldNotReachHere
      | KlassPtr \<Rightarrow> Inl ShouldNotReachHere | InstKlassPtr \<Rightarrow> Inl ShouldNotReachHere
      | AryKlassPtr \<Rightarrow> Inl ShouldNotReachHere
      | _ \<Rightarrow> Inl TypeError)"

definition TypePtr_xmeet ::
  "(ty \<Rightarrow> ty \<Rightarrow> error + ty) \<Rightarrow> env \<Rightarrow> ty \<Rightarrow> ty \<Rightarrow> error + ty" where
  "TypePtr_xmeet meet e this t =
     and_then (TypePtr_xmeet_helper meet e this t) (\<lambda>res. Inr (TypePtr_xmeet_result e res))"

section \<open>\<^verbatim>\<open>Type::xmeet\<close>\<close>

text \<open>
  The receiver is an object of class \<^verbatim>\<open>Type\<close> itself.  The labels \<^verbatim>\<open>HalfFloatTop\<close>,
  \<^verbatim>\<open>FloatTop\<close> and \<^verbatim>\<open>DoubleTop\<close> fall through into the label below them when their
  \<^verbatim>\<open>if\<close> does not return.
\<close>

definition Type_xmeet ::
  "(ty \<Rightarrow> ty \<Rightarrow> error + ty) \<Rightarrow> env \<Rightarrow> ty \<Rightarrow> ty \<Rightarrow> error + ty" where
  "Type_xmeet meet e this t =
     (let half_float_bot =
            (if base this = HalfFloatBot \<or> base this = HalfFloatTop then Inr HALF_FLOAT
             else if base this = FloatBot \<or> base this = FloatTop then Inr BOTTOM
             else if base this = DoubleTop \<or> base this = DoubleBot then Inr BOTTOM
             else Inl TypeError);
          float_bot =
            (if base this = FloatBot \<or> base this = FloatTop then Inr FLOAT
             else if base this = HalfFloatTop \<or> base this = HalfFloatBot then Inr BOTTOM
             else if base this = DoubleTop \<or> base this = DoubleBot then Inr BOTTOM
             else Inl TypeError);
          double_bot =
            (if base this = DoubleBot \<or> base this = DoubleTop then Inr DOUBLE
             else if base this = HalfFloatTop \<or> base this = HalfFloatBot then Inr BOTTOM
             else if base this = FloatTop \<or> base this = FloatBot then Inr BOTTOM
             else Inl TypeError);
          must_match = (if base this = base t then Inr this else Inl TypeError);
          reversed =
            (case t of
               TypeF _ \<Rightarrow> TypeF_xmeet t this
             | TypeD _ \<Rightarrow> TypeD_xmeet t this
             | TypeH _ \<Rightarrow> TypeH_xmeet t this
             | TypeInt _ \<Rightarrow> int_type_xmeet e t this
             | TypeOopPtr _ _ _ _ _ \<Rightarrow> TypeOopPtr_xmeet meet e t this
             | TypeInstPtr _ _ _ _ _ _ _ _ _ \<Rightarrow> TypeInstPtr_xmeet meet e t this
             | _ \<Rightarrow> Inl ShouldNotReachHere)
      in if this = t then Inr this
         else if base this = Top then Inr t
         else if base this = Bottom then Inr BOTTOM
         else case base t of
           HalfFloatCon \<Rightarrow> reversed | FloatCon \<Rightarrow> reversed | DoubleCon \<Rightarrow> reversed
         | Int' \<Rightarrow> reversed | Long \<Rightarrow> reversed
         | OopPtr \<Rightarrow> reversed
         | InstPtr \<Rightarrow> reversed
         | MetadataPtr \<Rightarrow> reversed | KlassPtr \<Rightarrow> reversed | InstKlassPtr \<Rightarrow> reversed
         | AryKlassPtr \<Rightarrow> reversed
         | AryPtr \<Rightarrow> reversed
         | NarrowOop \<Rightarrow> reversed
         | NarrowKlass \<Rightarrow> reversed
         | Bottom \<Rightarrow> Inr t
         | HalfFloatTop \<Rightarrow> (if base this = HalfFloatTop then Inr this else half_float_bot)
         | HalfFloatBot \<Rightarrow> half_float_bot
         | FloatTop \<Rightarrow> (if base this = FloatTop then Inr this else float_bot)
         | FloatBot \<Rightarrow> float_bot
         | DoubleTop \<Rightarrow> (if base this = DoubleTop then Inr this else double_bot)
         | DoubleBot \<Rightarrow> double_bot
         | Control \<Rightarrow> must_match | Abio \<Rightarrow> must_match | Memory \<Rightarrow> must_match
         | Top \<Rightarrow> Inr this
         | _ \<Rightarrow> Inl TypeError)"

section \<open>The entry points: \<^verbatim>\<open>xmeet\<close>, \<^verbatim>\<open>meet_helper\<close>, \<^verbatim>\<open>meet\<close>\<close>

text \<open>The virtual call \<^verbatim>\<open>this->xmeet(t)\<close>, resolved on the class of the receiver.\<close>

definition xmeet :: "(ty \<Rightarrow> ty \<Rightarrow> error + ty) \<Rightarrow> env \<Rightarrow> ty \<Rightarrow> ty \<Rightarrow> error + ty" where
  "xmeet meet e this t =
     (case this of
        Type _ \<Rightarrow> Type_xmeet meet e this t
      | TypeF _ \<Rightarrow> TypeF_xmeet this t
      | TypeD _ \<Rightarrow> TypeD_xmeet this t
      | TypeH _ \<Rightarrow> TypeH_xmeet this t
      | TypeInt _ \<Rightarrow> int_type_xmeet e this t
      | TypePtr _ _ _ _ \<Rightarrow> TypePtr_xmeet meet e this t
      | TypeRawPtr _ _ \<Rightarrow> TypeRawPtr_xmeet this t
      | TypeOopPtr _ _ _ _ _ \<Rightarrow> TypeOopPtr_xmeet meet e this t
      | TypeInstPtr _ _ _ _ _ _ _ _ _ \<Rightarrow> TypeInstPtr_xmeet meet e this t)"

text \<open>
  \<^verbatim>\<open>Type::meet_helper\<close> strips the speculative parts unless they are asked for and
  calls the virtual \<^verbatim>\<open>xmeet\<close>.  The block under \<^verbatim>\<open>ASSERT\<close>
  (\<^verbatim>\<open>VerifyMeet\<close>, \<^verbatim>\<open>check_symmetrical\<close>) recomputes meets to compare them and does not
  change the value returned; the narrow-pointer prefix concerns classes that are not
  modelled.

  The recursion runs through \<^verbatim>\<open>xmeet_speculative\<close>, which meets the speculative parts:
  each recursive call is on operands of smaller total size, because a speculative part
  is a component of its owner.  The congruence rules below state that the meets use their
  first argument on such operands only.
\<close>

lemma size_speculative: "speculative t = Some s \<Longrightarrow> size s < size t"
  by (cases t) auto

lemma xmeet_speculative_cong:
  assumes "\<And>a b. size a + size b < size this + size other \<Longrightarrow> m a b = m' a b"
  shows "xmeet_speculative m this other = xmeet_speculative m' this other"
proof (cases "speculative this = None \<and> speculative other = None")
  case True
  then show ?thesis by (simp add: xmeet_speculative_def)
next
  case False
  define a where "a = (case speculative this of None \<Rightarrow> this | Some s \<Rightarrow> s)"
  define b where "b = (case speculative other of None \<Rightarrow> other | Some s \<Rightarrow> s)"
  have "size a \<le> size this" "size b \<le> size other"
    "speculative this \<noteq> None \<Longrightarrow> size a < size this"
    "speculative other \<noteq> None \<Longrightarrow> size b < size other"
    by (auto simp: a_def b_def split: option.splits dest: size_speculative)
  with False have "size a + size b < size this + size other"
    by (cases "speculative this = None") auto
  then have "m a b = m' a b" by (rule assms)
  then show ?thesis
    by (simp add: xmeet_speculative_def Let_def a_def b_def)
qed

lemma xmeet_unloaded_cong:
  assumes "\<And>a b. size a + size b < size this + size t \<Longrightarrow> m a b = m' a b"
  shows "xmeet_unloaded m e this t ifs = xmeet_unloaded m' e this t ifs"
proof -
  have e1: "xmeet_speculative m this t = xmeet_speculative m' this t"
    by (rule xmeet_speculative_cong) (rule assms)
  show ?thesis
    unfolding xmeet_unloaded_def e1 ..
qed

lemma TypeInstPtr_xmeet_cong:
  assumes "\<And>a b. size a + size b < size this + size t \<Longrightarrow> m a b = m' a b"
  shows "TypeInstPtr_xmeet m e this t = TypeInstPtr_xmeet m' e this t"
proof -
  have e1: "xmeet_speculative m this t = xmeet_speculative m' this t"
    by (rule xmeet_speculative_cong) (rule assms)
  have e2: "xmeet_unloaded m e this t ifs = xmeet_unloaded m' e this t ifs" for ifs
    by (rule xmeet_unloaded_cong) (rule assms)
  show ?thesis
    unfolding TypeInstPtr_xmeet_def TypeInstPtr_xmeet_helper_def e1 e2 ..
qed

lemma TypeOopPtr_xmeet_cong:
  assumes "\<And>a b. size a + size b < size this + size t \<Longrightarrow> m a b = m' a b"
  shows "TypeOopPtr_xmeet m e this t = TypeOopPtr_xmeet m' e this t"
proof -
  have sw: "m a b = m' a b" if "size a + size b < size t + size this" for a b
    using that assms by (simp add: add.commute)
  have e1: "xmeet_speculative m this t = xmeet_speculative m' this t"
    by (rule xmeet_speculative_cong) (rule assms)
  have e2: "TypeInstPtr_xmeet m e t this = TypeInstPtr_xmeet m' e t this"
    by (rule TypeInstPtr_xmeet_cong) (rule sw)
  show ?thesis
    unfolding TypeOopPtr_xmeet_def TypeOopPtr_xmeet_helper_def e1 e2 ..
qed

lemma TypePtr_xmeet_cong:
  assumes "\<And>a b. size a + size b < size this + size t \<Longrightarrow> m a b = m' a b"
  shows "TypePtr_xmeet m e this t = TypePtr_xmeet m' e this t"
proof -
  have sw: "m a b = m' a b" if "size a + size b < size t + size this" for a b
    using that assms by (simp add: add.commute)
  have e1: "xmeet_speculative m this t = xmeet_speculative m' this t"
    by (rule xmeet_speculative_cong) (rule assms)
  have e2: "TypeInstPtr_xmeet m e t this = TypeInstPtr_xmeet m' e t this"
    by (rule TypeInstPtr_xmeet_cong) (rule sw)
  have e3: "TypeOopPtr_xmeet m e t this = TypeOopPtr_xmeet m' e t this"
    by (rule TypeOopPtr_xmeet_cong) (rule sw)
  show ?thesis
    unfolding TypePtr_xmeet_def TypePtr_xmeet_helper_def e1 e2 e3 ..
qed

lemma Type_xmeet_cong:
  assumes "\<And>a b. size a + size b < size this + size t \<Longrightarrow> m a b = m' a b"
  shows "Type_xmeet m e this t = Type_xmeet m' e this t"
proof -
  have sw: "m a b = m' a b" if "size a + size b < size t + size this" for a b
    using that assms by (simp add: add.commute)
  have e2: "TypeInstPtr_xmeet m e t this = TypeInstPtr_xmeet m' e t this"
    by (rule TypeInstPtr_xmeet_cong) (rule sw)
  have e3: "TypeOopPtr_xmeet m e t this = TypeOopPtr_xmeet m' e t this"
    by (rule TypeOopPtr_xmeet_cong) (rule sw)
  show ?thesis
    unfolding Type_xmeet_def e2 e3 ..
qed

lemma xmeet_cong [fundef_cong]:
  assumes "this = this'" "t = t'" "e = e'"
    and "\<And>a b. size a + size b < size this' + size t' \<Longrightarrow> m a b = m' a b"
  shows "xmeet m e this t = xmeet m' e' this' t'"
proof -
  have e1: "Type_xmeet m e' this' t' = Type_xmeet m' e' this' t'"
    by (rule Type_xmeet_cong) (rule assms(4))
  have e2: "TypePtr_xmeet m e' this' t' = TypePtr_xmeet m' e' this' t'"
    by (rule TypePtr_xmeet_cong) (rule assms(4))
  have e3: "TypeOopPtr_xmeet m e' this' t' = TypeOopPtr_xmeet m' e' this' t'"
    by (rule TypeOopPtr_xmeet_cong) (rule assms(4))
  have e4: "TypeInstPtr_xmeet m e' this' t' = TypeInstPtr_xmeet m' e' this' t'"
    by (rule TypeInstPtr_xmeet_cong) (rule assms(4))
  show ?thesis
    unfolding assms(1-3) xmeet_def e1 e2 e3 e4 ..
qed

lemma size_remove_speculative: "size (remove_speculative e t) \<le> size t"
  by (cases t) (auto simp: TypePtr_make_def TypeOopPtr_make_def TypeInstPtr_make_def Let_def)

function meet_helper :: "env \<Rightarrow> ty \<Rightarrow> ty \<Rightarrow> bool \<Rightarrow> error + ty" where
  "meet_helper e this t include_speculative =
     xmeet (\<lambda>a b. meet_helper e a b False) e
       (maybe_remove_speculative e this include_speculative)
       (maybe_remove_speculative e t include_speculative)"
  by pat_completeness auto
termination
proof (relation "measure (\<lambda>(e, this, t, incl). size this + size t)", goal_cases)
  case 1
  show ?case by simp
next
  case (2 e this t incl a b)
  have "size (maybe_remove_speculative e this incl) \<le> size this"
    "size (maybe_remove_speculative e t incl) \<le> size t"
    by (simp_all add: maybe_remove_speculative_def size_remove_speculative)
  with 2 show ?case by simp
qed

declare meet_helper.simps [simp del]

text \<open>
  Modelled from the spec: the entry points \<^verbatim>\<open>Type::meet\<close> and
  \<^verbatim>\<open>Type::meet_speculative\<close> are inline functions of \<^verbatim>\<open>type.hpp\<close>, which is not under
  \<^verbatim>\<open>src/\<close>.  The meet proper ignores the speculative parts:
  \<^verbatim>\<open>meet(t)\<close> is \<^verbatim>\<open>meet_helper(t, false)\<close>.  The speculative-aware meet keeps them, and
  by the spec the speculative component must be discarded whenever it can no longer
  discharge a belief: \<^verbatim>\<open>meet_speculative(t)\<close> is
  \<^verbatim>\<open>meet_helper(t, true)->cleanup_speculative()\<close>, with the \<^verbatim>\<open>cleanup_speculative\<close> of
  \<^verbatim>\<open>type.cpp\<close>.
\<close>

definition meet :: "env \<Rightarrow> ty \<Rightarrow> ty \<Rightarrow> error + ty" where
  "meet e this t = meet_helper e this t False"

definition meet_speculative :: "env \<Rightarrow> ty \<Rightarrow> ty \<Rightarrow> error + ty" where
  "meet_speculative e this t =
     and_then (meet_helper e this t True) (\<lambda>mt. Inr (cleanup_speculative e mt))"

section \<open>A small class hierarchy\<close>

text \<open>
  A concrete hierarchy for running the meets: \<^verbatim>\<open>Object\<close> (handle 1) with the loaded,
  unrelated subclasses \<open>Foo\<close> (2) and \<open>Bar\<close> (3), both implementing the interface 10,
  \<open>Foo\<close> also the interface 11 and \<open>Bar\<close> the interface 12; the final class
  \<open>FooSub\<close> (4) extends \<open>Foo\<close>; the class 5 is not loaded.  The integer
  meet is not used by the examples and is left undefined there as a type error.
\<close>

definition example_superclass :: "ciKlass \<Rightarrow> ciKlass" where
  "example_superclass k = (if k = 4 then 2 else 1)"

definition example_env :: env where
  "example_env =
     \<lparr> ci_is_loaded = (\<lambda>k. k \<in> {1, 2, 3, 4, 10, 11, 12}),
       ci_is_interface = (\<lambda>k. k \<in> {10, 11, 12}),
       ci_is_final = (\<lambda>k. k = 4),
       ci_is_subtype_of = (\<lambda>k1 k2. k1 = k2 \<or> k2 = 1 \<or> (k1 = 4 \<and> k2 = 2)),
       ci_least_common_ancestor =
         (\<lambda>k1 k2. if k1 = k2 then k1
                  else if example_superclass k1 = k2 then k2
                  else if example_superclass k2 = k1 then k1
                  else 1),
       ci_transitive_interfaces =
         (\<lambda>k. if k = 2 \<or> k = 4 then [10, 11] else if k = 3 then [10, 12] else []),
       Object_klass = 1,
       int_type_xmeet = (\<lambda>a b. Inl TypeError),
       UseInlineDepthForSpeculativeTypes = True \<rparr>"

section \<open>Bounded integers: \<^verbatim>\<open>TypeInt\<close>\<close>

text \<open>
  \<^verbatim>\<open>TypeIntPrototype::normalize_widen\<close> is defined in \<^verbatim>\<open>rangeinference.cpp\<close>, outside
  these sources; the constructor takes it as a parameter.
\<close>

record rangeinference =
  normalize_widen :: "TypeIntPrototype \<Rightarrow> int \<Rightarrow> int"

text \<open>
  Modelled from the spec: \<^verbatim>\<open>KnownBits::is_satisfied_by\<close> is declared in
  \<^verbatim>\<open>rangeinference.hpp\<close>, which is not under \<^verbatim>\<open>src/\<close>.  The spec describes the bitmask
  pair as the bits known to be 0 and the bits known to be 1: a value satisfies it when
  it has no bit of \<open>zeros\<close> set and every bit of \<open>ones\<close> set.
\<close>

definition is_satisfied_by :: "KnownBits \<Rightarrow> juint \<Rightarrow> bool" where
  "is_satisfied_by b v \<longleftrightarrow> v AND zeros b = 0 \<and> v AND ones b = ones b"

text \<open>
  Modelled from the spec: \<^verbatim>\<open>TypeIntHelper::int_type_is_equal\<close> is defined in
  \<^verbatim>\<open>rangeinference.cpp\<close>, which is not under \<^verbatim>\<open>src/\<close>.  By the spec, equality of two
  bounded integers requires matching all three views; \<^verbatim>\<open>TypeInt::eq\<close> itself adds the
  widen counter and the dual flag.
\<close>

definition int_type_is_equal :: "TypeInteger \<Rightarrow> TypeInteger \<Rightarrow> bool" where
  "int_type_is_equal t1 t2 \<longleftrightarrow>
     lo t1 = lo t2 \<and> hi t1 = hi t2 \<and> ulo t1 = ulo t2 \<and> uhi t1 = uhi t2 \<and>
     known_bits t1 = known_bits t2"

text \<open>
  The values that a prototype denotes: by the spec the effective value set is the
  intersection of the three views.  The same bits are read as a signed number for the
  signed range and as an unsigned number for the unsigned range.
\<close>

definition prototype_contains :: "TypeIntPrototype \<Rightarrow> juint \<Rightarrow> bool" where
  "prototype_contains t v \<longleftrightarrow>
     range_lo (srange t) \<le>s v \<and> v \<le>s range_hi (srange t) \<and>
     range_lo (urange t) \<le> v \<and> v \<le> range_hi (urange t) \<and>
     is_satisfied_by (bits t) v"

text \<open>
  Modelled from the spec: \<^verbatim>\<open>TypeIntPrototype::canonicalize_constraints\<close> is defined in
  \<^verbatim>\<open>rangeinference.cpp\<close>, which is not under \<^verbatim>\<open>src/\<close>.  By the spec, construction
  canonicalizes the three constraints and collapses to the canonical empty
  representation when the signed, unsigned and bitmask views are mutually
  contradictory, that is, when their intersection is empty.  A
  \<^verbatim>\<open>CanonicalizedTypeIntPrototype\<close> is either empty or holds the canonical prototype: an
  \<open>option\<close>.  The spec does not say which of the prototypes with the same values is the
  canonical one; the model keeps the one it was given.
\<close>

definition canonicalize_constraints :: "TypeIntPrototype \<Rightarrow> TypeIntPrototype option" where
  "canonicalize_constraints t = (if \<exists>v. prototype_contains t v then Some t else None)"

text \<open>The constructor \<^verbatim>\<open>TypeInt(t, widen, dual)\<close>.\<close>

definition TypeInt_new :: "rangeinference \<Rightarrow> TypeIntPrototype \<Rightarrow> int \<Rightarrow> bool \<Rightarrow> ty" where
  "TypeInt_new ri t w dual =
     TypeInt \<lparr> lo = range_lo (srange t), hi = range_hi (srange t),
               ulo = range_lo (urange t), uhi = range_hi (urange t),
               known_bits = bits t, widen = normalize_widen ri t w, is_dual = dual \<rparr>"

definition TypeInt_make_or_top ::
  "rangeinference \<Rightarrow> TypeIntPrototype \<Rightarrow> int \<Rightarrow> bool \<Rightarrow> ty" where
  "TypeInt_make_or_top ri t w dual =
     (case canonicalize_constraints t of
        None \<Rightarrow> (if dual then BOTTOM else TOP)
      | Some canonicalized_t \<Rightarrow> TypeInt_new ri canonicalized_t w dual)"

text \<open>
  \<^verbatim>\<open>TypeInt::make(lo, hi, widen)\<close> opens with \<^verbatim>\<open>assert(lo <= hi, "must be legal bounds")\<close>
  and casts the result of \<^verbatim>\<open>make_or_top\<close> with \<^verbatim>\<open>is_int()\<close>.  Like the meets, the
  factories are embedded as the product build runs them: the assertion is compiled
  out and the cast changes nothing, so that the call returns what \<^verbatim>\<open>make_or_top\<close>
  returns.  (A debug build stops at the assertion when \<open>lo > hi\<close>.)
\<close>

definition max_juint :: juint where
  "max_juint = - 1"

definition TypeInt_make :: "rangeinference \<Rightarrow> jint \<Rightarrow> jint \<Rightarrow> int \<Rightarrow> ty" where
  "TypeInt_make ri l h w =
     TypeInt_make_or_top ri
       \<lparr> srange = \<lparr> range_lo = l, range_hi = h \<rparr>,
         urange = \<lparr> range_lo = 0, range_hi = max_juint \<rparr>,
         bits = \<lparr> zeros = 0, ones = 0 \<rparr> \<rparr> w False"

text \<open>\<^verbatim>\<open>TypeInt::make(jint con)\<close>: the constant, built without canonicalization.\<close>

definition TypeInt_make_con :: "rangeinference \<Rightarrow> jint \<Rightarrow> ty" where
  "TypeInt_make_con ri con =
     TypeInt_new ri
       \<lparr> srange = \<lparr> range_lo = con, range_hi = con \<rparr>,
         urange = \<lparr> range_lo = con, range_hi = con \<rparr>,
         bits = \<lparr> zeros = NOT con, ones = con \<rparr> \<rparr> WidenMin False"

text \<open>
  \<^verbatim>\<open>TypeInt::contains\<close> is embedded with its assertion, which is what a call on a dual
  type runs into.
\<close>

definition TypeInt_contains :: "TypeInteger \<Rightarrow> jint \<Rightarrow> error + bool" where
  "TypeInt_contains this i =
     (if is_dual this
        then Inl (AssertFailed ''dual types should only be used for join calculation'')
      else
        (let u = i
         in Inr (lo this \<le>s i \<and> i \<le>s hi this \<and>
                 ulo this \<le> u \<and> u \<le> uhi this \<and>
                 is_satisfied_by (known_bits this) u)))"

text \<open>A widen normalisation to run the constructor with: it leaves the counter alone.\<close>

definition example_rangeinference :: rangeinference where
  "example_rangeinference = \<lparr> normalize_widen = (\<lambda>t w. w) \<rparr>"

text \<open>
  The type of the signed range \<open>[-1, 1]\<close> with an unconstrained unsigned range and no
  known bits; a prototype with a crossed signed range; the signed range \<open>[5, 10]\<close> with
  an unsigned range that requires the value 0.
\<close>

definition example_small_range :: TypeInteger where
  "example_small_range =
     \<lparr> lo = - 1, hi = 1, ulo = 0, uhi = max_juint,
       known_bits = \<lparr> zeros = 0, ones = 0 \<rparr>, widen = WidenMin, is_dual = False \<rparr>"

definition example_crossed_prototype :: TypeIntPrototype where
  "example_crossed_prototype =
     \<lparr> srange = \<lparr> range_lo = 5, range_hi = 3 \<rparr>,
       urange = \<lparr> range_lo = 0, range_hi = max_juint \<rparr>,
       bits = \<lparr> zeros = 0, ones = 0 \<rparr> \<rparr>"

definition example_disjoint_prototype :: TypeIntPrototype where
  "example_disjoint_prototype =
     \<lparr> srange = \<lparr> range_lo = 5, range_hi = 10 \<rparr>,
       urange = \<lparr> range_lo = 0, range_hi = 0 \<rparr>,
       bits = \<lparr> zeros = 0, ones = 0 \<rparr> \<rparr>"

section \<open>Auxiliary notions for the statements\<close>

text \<open>
  The classes that use \<^verbatim>\<open>TypePtr::xmeet\<close>: \<^verbatim>\<open>TypePtr\<close> itself and the classes below
  \<^verbatim>\<open>TypeOopPtr\<close>, which do not override it (they override \<^verbatim>\<open>xmeet_helper\<close>).
  \<^verbatim>\<open>TypeRawPtr\<close> overrides \<^verbatim>\<open>xmeet\<close>.
\<close>

fun inherits_TypePtr_xmeet :: "ty \<Rightarrow> bool" where
  "inherits_TypePtr_xmeet (TypePtr _ _ _ _) = True"
| "inherits_TypePtr_xmeet (TypeOopPtr _ _ _ _ _) = True"
| "inherits_TypePtr_xmeet (TypeInstPtr _ _ _ _ _ _ _ _ _) = True"
| "inherits_TypePtr_xmeet _ = False"

text \<open>
  The fall of the pointer kind that \<^verbatim>\<open>meet_instptr\<close> performs before it returns the
  least common ancestor:
  \<^verbatim>\<open>if (ptr == TopPTR || ptr == AnyNull || ptr == Constant) ptr = NotNull\<close>.
\<close>

definition fall_to_NotNull :: "PTR \<Rightarrow> PTR" where
  "fall_to_NotNull p = (if p = TopPTR \<or> p = AnyNull \<or> p = Constant then NotNull else p)"

section \<open>Structural equality and duals\<close>

text \<open>
  \<^verbatim>\<open>eq\<close> is virtual and reads its argument as an object of the receiver's class; its
  callers (\<^verbatim>\<open>Type::equals\<close>, \<^verbatim>\<open>eq_speculative\<close>, the check at the end of
  \<^verbatim>\<open>hashcons\<close>) pass an object of the same base.  \<^verbatim>\<open>TypePtr::eq\<close> with its
  \<^verbatim>\<open>eq_speculative\<close> is written out in the pointer classes that call it; a raw pointer
  is built with offset 0, no speculative part and \<^verbatim>\<open>InlineDepthBottom\<close>.
\<close>

fun Type_eq :: "ty \<Rightarrow> ty \<Rightarrow> bool" where
  "Type_eq (Type b) t = True"
| "Type_eq (TypeF f) t = (f = getf t)"
| "Type_eq (TypeD d) t = (d = getd t)"
| "Type_eq (TypeH h) t = (h = geth t)"
| "Type_eq (TypeInt a) t =
     (case t of
        TypeInt r \<Rightarrow> int_type_is_equal a r \<and> widen a = widen r \<and> is_dual a = is_dual r
      | _ \<Rightarrow> False)"
| "Type_eq (TypePtr p off s d) t =
     (p = ptr t \<and> off = offset t \<and>
      (case s of
         None \<Rightarrow> speculative t = None
       | Some x \<Rightarrow>
           (case speculative t of
              None \<Rightarrow> False
            | Some y \<Rightarrow> if base x \<noteq> base y then False else Type_eq x y)) \<and>
      d = inline_depth t)"
| "Type_eq (TypeRawPtr p b) t =
     (b = bits_of t \<and>
      p = ptr t \<and> 0 = offset t \<and> speculative t = None \<and> InlineDepthBottom = inline_depth t)"
| "Type_eq (TypeOopPtr p off iid s d) t =
     (if False \<noteq> klass_is_exact t \<or> iid \<noteq> instance_id t then False
      else
        0 = const_oop t \<and>
        p = ptr t \<and> off = offset t \<and>
        (case s of
           None \<Rightarrow> speculative t = None
         | Some x \<Rightarrow>
             (case speculative t of
                None \<Rightarrow> False
              | Some y \<Rightarrow> if base x \<noteq> base y then False else Type_eq x y)) \<and>
        d = inline_depth t)"
| "Type_eq (TypeInstPtr p k ifs xk oop off iid s d) t =
     (case t of
        TypeInstPtr p' k' ifs' xk' oop' off' iid' s' d' \<Rightarrow>
          k = k' \<and> ifs = ifs' \<and>
          (if xk \<noteq> xk' \<or> iid \<noteq> iid' then False
           else
             oop = oop' \<and>
             p = p' \<and> off = off' \<and>
             (case s of
                None \<Rightarrow> s' = None
              | Some x \<Rightarrow>
                  (case s' of
                     None \<Rightarrow> False
                   | Some y \<Rightarrow> if base x \<noteq> base y then False else Type_eq x y)) \<and>
             d = d')
      | _ \<Rightarrow> False)"

definition Type_equals :: "ty \<Rightarrow> ty \<Rightarrow> bool" where
  "Type_equals t1 t2 = (if base t1 \<noteq> base t2 then False else Type_eq t1 t2)"

text \<open>
  The content of the object that \<^verbatim>\<open>xdual()\<close> returns.  The classes \<^verbatim>\<open>TypeF\<close>,
  \<^verbatim>\<open>TypeD\<close> and \<^verbatim>\<open>TypeH\<close> return \<^verbatim>\<open>this\<close> and allocate nothing; the others build a
  new object.  \<^verbatim>\<open>dual_speculative()\<close> reads the \<^verbatim>\<open>_dual\<close> field of the canonical
  speculative part, whose content is the \<^verbatim>\<open>xdual\<close> of that part.  \<^verbatim>\<open>Type::xdual\<close>
  asserts that the table \<^verbatim>\<open>_type_info\<close> has a dual for the base.
\<close>

fun xdual :: "rangeinference \<Rightarrow> ty \<Rightarrow> ty" where
  "xdual ri (Type b) = Type (dual_type b)"
| "xdual ri (TypeF f) = TypeF f"
| "xdual ri (TypeD d) = TypeD d"
| "xdual ri (TypeH h) = TypeH h"
| "xdual ri (TypeInt a) =
     TypeInt_new ri
       \<lparr> srange = \<lparr> range_lo = lo a, range_hi = hi a \<rparr>,
         urange = \<lparr> range_lo = ulo a, range_hi = uhi a \<rparr>,
         bits = known_bits a \<rparr> (widen a) (\<not> is_dual a)"
| "xdual ri (TypePtr p off s d) =
     TypePtr (dual_ptr (TypePtr p off s d)) (dual_offset (TypePtr p off s d))
       (case s of None \<Rightarrow> None | Some x \<Rightarrow> Some (xdual ri x))
       (dual_inline_depth (TypePtr p off s d))"
| "xdual ri (TypeRawPtr p b) = TypeRawPtr (dual_ptr (TypeRawPtr p b)) b"
| "xdual ri (TypeOopPtr p off iid s d) =
     TypeOopPtr (dual_ptr (TypeOopPtr p off iid s d)) (dual_offset (TypeOopPtr p off iid s d))
       (dual_instance_id (TypeOopPtr p off iid s d))
       (case s of None \<Rightarrow> None | Some x \<Rightarrow> Some (xdual ri x))
       (dual_inline_depth (TypeOopPtr p off iid s d))"
| "xdual ri (TypeInstPtr p k ifs xk oop off iid s d) =
     TypeInstPtr (dual_ptr (TypeInstPtr p k ifs xk oop off iid s d)) k ifs xk oop
       (dual_offset (TypeInstPtr p k ifs xk oop off iid s d))
       (dual_instance_id (TypeInstPtr p k ifs xk oop off iid s d))
       (case s of None \<Rightarrow> None | Some x \<Rightarrow> Some (xdual ri x))
       (dual_inline_depth (TypeInstPtr p k ifs xk oop off iid s d))"

fun xdual_returns_this :: "ty \<Rightarrow> bool" where
  "xdual_returns_this (TypeF _) = True"
| "xdual_returns_this (TypeD _) = True"
| "xdual_returns_this (TypeH _) = True"
| "xdual_returns_this _ = False"

fun xdual_assert :: "ty \<Rightarrow> bool" where
  "xdual_assert (Type b) = (dual_type b \<noteq> Bad)"
| "xdual_assert _ = True"

section \<open>The type table and \<^verbatim>\<open>Type::hashcons\<close>\<close>

text \<open>
  Objects live at addresses.  The state of a compilation's type arena: the content of
  each object, its \<^verbatim>\<open>_dual\<close> field (null until \<^verbatim>\<open>hashcons\<close> sets it), the entries of
  the dictionary in the order of their insertion, the objects that were deleted, and
  the next unused address.
\<close>

record type_arena =
  body :: "nat \<Rightarrow> ty"
  dual_of :: "nat \<Rightarrow> nat option"
  tdic :: "nat list"
  deleted :: "nat set"
  next_free :: nat

definition new_Type :: "type_arena \<Rightarrow> ty \<Rightarrow> type_arena \<times> nat" where
  "new_Type s b =
     (s \<lparr> body := (body s)(next_free s := b),
          dual_of := (dual_of s)(next_free s := None),
          next_free := Suc (next_free s) \<rparr>,
      next_free s)"

definition delete_Type :: "type_arena \<Rightarrow> nat \<Rightarrow> type_arena" where
  "delete_Type s a = s \<lparr> deleted := insert a (deleted s) \<rparr>"

text \<open>
  Modelled from the spec: the class \<^verbatim>\<open>Dict\<close> (\<^verbatim>\<open>libadt/dict.hpp\<close>) is not under
  \<^verbatim>\<open>src/\<close>.  The spec describes the table as a mapping from structural-equality key
  to canonical instance; \<^verbatim>\<open>type.cpp\<close> installs \<^verbatim>\<open>Type::equals\<close> as its comparison of
  keys and always inserts an object as its own key.  A lookup finds the entry with an
  equal key; \<^verbatim>\<open>Insert(key, val, replace)\<close> returns the prior entry if there is one,
  which it replaces only when asked to, and otherwise adds the entry and returns null.
\<close>

definition Dict_lookup :: "type_arena \<Rightarrow> nat \<Rightarrow> nat option" where
  "Dict_lookup s key = find (\<lambda>a. Type_equals (body s a) (body s key)) (tdic s)"

definition Dict_Insert :: "type_arena \<Rightarrow> nat \<Rightarrow> bool \<Rightarrow> type_arena \<times> nat option" where
  "Dict_Insert s key replace =
     (case Dict_lookup s key of
        Some prior \<Rightarrow>
          (if replace then s \<lparr> tdic := map (\<lambda>a. if a = prior then key else a) (tdic s) \<rparr>
           else s,
           Some prior)
      | None \<Rightarrow> (s \<lparr> tdic := tdic s @ [key] \<rparr>, None))"

text \<open>
  The call \<^verbatim>\<open>xdual()\<close> on an object: the assertion of \<^verbatim>\<open>Type::xdual\<close>, then either
  \<^verbatim>\<open>this\<close> or a new object.
\<close>

definition call_xdual ::
  "rangeinference \<Rightarrow> type_arena \<Rightarrow> nat \<Rightarrow> error + (type_arena \<times> nat)" where
  "call_xdual ri s this =
     (if \<not> xdual_assert (body s this) then Inl (AssertFailed ''implement with v-call'')
      else if xdual_returns_this (body s this) then Inr (s, this)
      else Inr (new_Type s (xdual ri (body s this))))"

text \<open>
  \<^verbatim>\<open>Type::hashcons\<close>, with its assertions.  \<^verbatim>\<open>base()\<close> asserts that the base is a
  lattice enumerator, which all but \<^verbatim>\<open>Bad\<close> are.  The last check builds the dual of
  the dual, compares and deletes it: the arena is left as it was.
\<close>

definition hashcons ::
  "rangeinference \<Rightarrow> type_arena \<Rightarrow> nat \<Rightarrow> error + (type_arena \<times> nat)" where
  "hashcons ri s this =
     (if base (body s this) = Bad then Inl (AssertFailed ''sanity'')
      else
        (let (s1, old) = Dict_Insert s this False
         in case old of
              Some old \<Rightarrow>
                (let s2 = (if old \<noteq> this then delete_Type s1 this else s1)
                 in if dual_of s2 old = None then Inl (AssertFailed [])
                    else Inr (s2, old))
            | None \<Rightarrow>
                if dual_of s1 this \<noteq> None then Inl (AssertFailed [])
                else
                  and_then (call_xdual ri s1 this) (\<lambda>(s2, d).
                    (let s3 = s2 \<lparr> dual_of := (dual_of s2)(this \<mapsto> d) \<rparr>
                     in if Type_equals (body s3 this) (body s3 d) then
                          (if d \<noteq> this then
                             (let s4 = delete_Type s3 d
                              in Inr (s4 \<lparr> dual_of := (dual_of s4)(this \<mapsto> this) \<rparr>, this))
                           else Inr (s3, this))
                        else if dual_of s3 d \<noteq> None then Inl (AssertFailed [])
                        else if Dict_lookup s3 d \<noteq> None then Inl (AssertFailed [])
                        else
                          (let (s4, prior) = Dict_Insert s3 d True;
                               s5 = s4 \<lparr> dual_of := (dual_of s4)(d \<mapsto> this) \<rparr>
                           in if \<not> Type_eq (body s5 this) (xdual ri (body s5 d))
                                then Inl (AssertFailed ''xdual(xdual()) should be identity'')
                              else Inr (s5, this))))))"

text \<open>A factory: \<^verbatim>\<open>(new T(...))->hashcons()\<close>.\<close>

definition make_Type ::
  "rangeinference \<Rightarrow> type_arena \<Rightarrow> ty \<Rightarrow> error + (type_arena \<times> nat)" where
  "make_Type ri s b = (let (s1, this) = new_Type s b in hashcons ri s1 this)"

text \<open>\<^verbatim>\<open>dual()\<close> reads the field.\<close>

definition Type_dual :: "type_arena \<Rightarrow> nat \<Rightarrow> nat option" where
  "Type_dual s a = dual_of s a"

definition empty_arena :: type_arena where
  "empty_arena =
     \<lparr> body = (\<lambda>a. Type Bad), dual_of = (\<lambda>a. None), tdic = [], deleted = {}, next_free = 0 \<rparr>"

text \<open>
  What the constructors establish for the content of an object: a plain \<^verbatim>\<open>Type\<close> has
  one of the bases that have no class of their own, the widen counter of a bounded
  integer is normalised, the inline depth of a pointer is a C++ \<^verbatim>\<open>int\<close>, and a
  speculative part is itself as constructed.
\<close>

definition plain_base :: "TYPES \<Rightarrow> bool" where
  "plain_base b \<longleftrightarrow> b \<in> {Control, Top, Half, Abio, Return_Address, Memory,
     HalfFloatTop, HalfFloatBot, FloatTop, FloatBot, DoubleTop, DoubleBot, Bottom}"

fun constructed :: "rangeinference \<Rightarrow> ty \<Rightarrow> bool" where
  "constructed ri (Type b) = plain_base b"
| "constructed ri (TypeInt a) =
     (normalize_widen ri
        \<lparr> srange = \<lparr> range_lo = lo a, range_hi = hi a \<rparr>,
          urange = \<lparr> range_lo = ulo a, range_hi = uhi a \<rparr>,
          bits = known_bits a \<rparr> (widen a) = widen a)"
| "constructed ri (TypePtr p off s d) =
     (INT_MIN \<le> d \<and> d \<le> INT_MAX \<and>
      (case s of None \<Rightarrow> True | Some x \<Rightarrow> constructed ri x))"
| "constructed ri (TypeOopPtr p off iid s d) =
     (INT_MIN \<le> d \<and> d \<le> INT_MAX \<and>
      (case s of None \<Rightarrow> True | Some x \<Rightarrow> constructed ri x))"
| "constructed ri (TypeInstPtr p k ifs xk oop off iid s d) =
     (INT_MIN \<le> d \<and> d \<le> INT_MAX \<and>
      (case s of None \<Rightarrow> True | Some x \<Rightarrow> constructed ri x))"
| "constructed ri _ = True"

text \<open>
  The invariant of the table: only allocated objects are deleted, no entry is deleted
  or beyond the allocated addresses, the content of every entry is as constructed, no two entries have equal content, and
  every entry has a dual in the table whose dual it is and whose content is its
  \<^verbatim>\<open>xdual\<close>.
\<close>

definition table_invariant :: "rangeinference \<Rightarrow> type_arena \<Rightarrow> bool" where
  "table_invariant ri s \<longleftrightarrow>
     distinct (tdic s) \<and>
     (\<forall>a \<in> deleted s. a < next_free s) \<and>
     (\<forall>a \<in> set (tdic s). a < next_free s \<and> a \<notin> deleted s \<and> constructed ri (body s a)) \<and>
     (\<forall>a \<in> set (tdic s). \<forall>b \<in> set (tdic s).
        Type_equals (body s a) (body s b) \<longrightarrow> a = b) \<and>
     (\<forall>a \<in> set (tdic s). \<exists>d \<in> set (tdic s).
        dual_of s a = Some d \<and> dual_of s d = Some a \<and> body s d = xdual ri (body s a))"

text \<open>A candidate: a new object that was not handed to \<^verbatim>\<open>hashcons\<close> before.\<close>

definition candidate :: "rangeinference \<Rightarrow> type_arena \<Rightarrow> nat \<Rightarrow> bool" where
  "candidate ri s this \<longleftrightarrow>
     this < next_free s \<and> this \<notin> set (tdic s) \<and> this \<notin> deleted s \<and>
     dual_of s this = None \<and> constructed ri (body s this)"

text \<open>The content of the bounded integer \<open>[0, 1]\<close>, as \<^verbatim>\<open>TypeInt::make(0, 1, w)\<close> builds it.\<close>

definition example_int_0_1 :: ty where
  "example_int_0_1 =
     TypeInt \<lparr> lo = 0, hi = 1, ulo = 0, uhi = 1,
               known_bits = \<lparr> zeros = - 2, ones = 0 \<rparr>, widen = WidenMin, is_dual = False \<rparr>"

text \<open>
  The table that holds this integer and its dual, and a pointer whose inline depth is
  \<^verbatim>\<open>INT_MIN\<close>: the pointer kind \<^verbatim>\<open>Constant\<close>, the offset 0 and this depth are their own
  duals.
\<close>

definition example_arena :: type_arena where
  "example_arena =
     \<lparr> body = (\<lambda>a. if a = 0 then example_int_0_1
                      else if a = 1 then xdual example_rangeinference example_int_0_1
                      else Type Bad),
       dual_of = (\<lambda>a. if a = 0 then Some 1 else if a = 1 then Some 0 else None),
       tdic = [0, 1], deleted = {}, next_free = 2 \<rparr>"

definition example_self_dual_ptr :: ty where
  "example_self_dual_ptr = TypePtr Constant 0 None INT_MIN"

section \<open>Properties of the interface sets\<close>

lemma skip_while_less_between:
  "i \<le> k \<Longrightarrow> k < skip_while_less xs ys i j \<Longrightarrow>
   k < length xs \<and> (j \<ge> length ys \<or> xs ! k < ys ! j)"
proof (induction xs ys i j rule: skip_while_less.induct)
  case (1 xs ys i j)
  show ?case
  proof (cases "i < length xs \<and> (j \<ge> length ys \<or> compare (xs ! i) (ys ! j) < 0)")
    case True
    have b: "skip_while_less xs ys i j = skip_while_less xs ys (i + 1) j"
      by (subst skip_while_less.simps) (simp only: True if_True simp_thms)
    show ?thesis
    proof (cases "k = i")
      case True
      with \<open>i < length xs \<and> _\<close> show ?thesis
        by (auto simp: compare_def split: if_splits)
    next
      case False
      with "1.prems" have "i + 1 \<le> k" by simp
      with "1.IH" [OF True] "1.prems" b show ?thesis by simp
    qed
  next
    case False
    have "skip_while_less xs ys i j = i"
      by (subst skip_while_less.simps) (simp only: False if_False simp_thms)
    with "1.prems" show ?thesis by simp
  qed
qed

lemma push_while_less_snd:
  "snd (push_while_less xs ys i j r) = r @ take (skip_while_less xs ys i j - i) (drop i xs)"
proof (induction xs ys i j r rule: push_while_less.induct)
  case (1 xs ys i j r)
  show ?case
  proof (cases "i < length xs \<and> (j \<ge> length ys \<or> compare (xs ! i) (ys ! j) < 0)")
    case True
    have a: "push_while_less xs ys i j r = push_while_less xs ys (i + 1) j (r @ [xs ! i])"
      by (subst push_while_less.simps) (simp only: True if_True simp_thms)
    have b: "skip_while_less xs ys i j = skip_while_less xs ys (i + 1) j"
      by (subst skip_while_less.simps) (simp only: True if_True simp_thms)
    have ge: "i + 1 \<le> skip_while_less xs ys (i + 1) j"
      by (rule skip_while_less_ge)
    then obtain d where d: "skip_while_less xs ys (i + 1) j - i = Suc d"
      "skip_while_less xs ys (i + 1) j - (i + 1) = d"
      by (metis Suc_diff_le Suc_eq_plus1 diff_Suc_Suc)
    have "drop i xs = xs ! i # drop (i + 1) xs"
      using True by (simp add: Cons_nth_drop_Suc)
    with "1.IH" [OF True] a b d show ?thesis by simp
  next
    case False
    have "push_while_less xs ys i j r = (i, r)"
      by (subst push_while_less.simps) (simp only: False if_False simp_thms)
    moreover have "skip_while_less xs ys i j = i"
      by (subst skip_while_less.simps) (simp only: False if_False simp_thms)
    ultimately show ?thesis by simp
  qed
qed

definition seg :: "'a list \<Rightarrow> nat \<Rightarrow> nat \<Rightarrow> 'a list" where
  "seg xs i i' = take (i' - i) (drop i xs)"

lemma drop_seg: "i \<le> i' \<Longrightarrow> drop i xs = seg xs i i' @ drop i' xs"
  unfolding seg_def
  by (metis add_diff_inverse_nat append_take_drop_id drop_drop not_less add.commute)

lemma seg_eq: "seg xs i i' = drop i (take i' xs)"
  by (simp add: seg_def drop_take)

lemma seg_nth:
  assumes "x \<in> set (seg xs i i')"
  shows "\<exists>k. i \<le> k \<and> k < i' \<and> k < length xs \<and> x = xs ! k"
proof -
  from assms obtain n where n: "n < length (seg xs i i')" "seg xs i i' ! n = x"
    by (auto simp: in_set_conv_nth)
  then have "n < i' - i" "i + n < length xs"
    by (auto simp: seg_def)
  moreover from this n have "x = xs ! (i + n)"
    by (simp add: seg_def)
  ultimately show ?thesis
    by (intro exI [of _ "i + n"]) auto
qed

lemma seg_less_rest:
  assumes "sorted_wrt (<) (xs :: int list)" "x \<in> set (seg xs i i')" "y \<in> set (drop i' xs)"
  shows "x < y"
proof -
  have "sorted_wrt (<) (take i' xs @ drop i' xs)" using assms(1) by simp
  moreover have "x \<in> set (take i' xs)"
    using assms(2) by (auto simp: seg_eq dest: in_set_dropD)
  ultimately show ?thesis
    using assms(3) unfolding sorted_wrt_append by blast
qed

lemma sorted_seg: "sorted_wrt (<) (xs :: int list) \<Longrightarrow> sorted_wrt (<) (seg xs i i')"
  by (simp add: seg_def sorted_wrt_take sorted_wrt_drop)

lemma drop_head_le:
  assumes "sorted_wrt (<) (ys :: int list)" "y \<in> set (drop j ys)"
  shows "j < length ys \<and> ys ! j \<le> y"
proof -
  from assms(2) have j: "j < length ys" by (cases "j < length ys") auto
  then have "drop j ys = ys ! j # drop (Suc j) ys"
    by (simp add: Cons_nth_drop_Suc)
  moreover have "sorted_wrt (<) (drop j ys)"
    using assms(1) by (rule sorted_wrt_drop)
  ultimately show ?thesis using assms(2) j by auto
qed

lemma seg_less_other:
  assumes "sorted_wrt (<) (ys :: int list)"
    and "x \<in> set (seg xs i (skip_while_less xs ys i j))" "y \<in> set (drop j ys)"
  shows "x < y"
proof -
  from seg_nth [OF assms(2)] obtain k where
    k: "i \<le> k" "k < skip_while_less xs ys i j" "x = xs ! k" by blast
  from drop_head_le [OF assms(1,3)] have j: "j < length ys" "ys ! j \<le> y" by auto
  from skip_while_less_between [OF k(1,2)] j(1) have "xs ! k < ys ! j" by simp
  with k(3) j(2) show ?thesis by simp
qed

lemma union_loop_unfold:
  "union_loop a b i j r =
     (if i < length a \<or> j < length b then
        (let i1 = skip_while_less a b i j;
             j1 = skip_while_less b a j i1;
             r2 = r @ seg a i i1 @ seg b j j1
         in if i1 < length a \<and> j1 < length b \<and> a ! i1 = b ! j1
            then union_loop a b (i1 + 1) (j1 + 1) (r2 @ [a ! i1])
            else union_loop a b i1 j1 r2)
      else r)"
  by (subst union_loop.simps)
     (simp add: Let_def push_while_less_fst push_while_less_snd seg_def)

definition below_rest :: "int list \<Rightarrow> int list \<Rightarrow> nat \<Rightarrow> nat \<Rightarrow> int list \<Rightarrow> bool" where
  "below_rest a b i j r \<longleftrightarrow>
     sorted_wrt (<) r \<and> (\<forall>x\<in>set r. \<forall>y\<in>set (drop i a) \<union> set (drop j b). x < y)"

lemma below_rest_scan:
  assumes sa: "sorted_wrt (<) a" and sb: "sorted_wrt (<) b"
    and inv: "below_rest a b i j r"
    and i1: "i1 = skip_while_less a b i j"
  shows "below_rest a b i1 j (r @ seg a i i1)"
proof -
  have ge: "i \<le> i1" unfolding i1 by (rule skip_while_less_ge)
  have da: "drop i a = seg a i i1 @ drop i1 a" using ge by (rule drop_seg)
  have 1: "sorted_wrt (<) (r @ seg a i i1)"
    using inv sa unfolding below_rest_def sorted_wrt_append da
    by (auto simp: sorted_seg)
  have 2: "x < y" if "x \<in> set (r @ seg a i i1)" "y \<in> set (drop i1 a) \<union> set (drop j b)" for x y
  proof (cases "x \<in> set r")
    case True
    with inv that(2) show ?thesis unfolding below_rest_def da by auto
  next
    case False
    with that(1) have x: "x \<in> set (seg a i i1)" by simp
    from that(2) show ?thesis
    proof
      assume "y \<in> set (drop i1 a)"
      with sa x show ?thesis by (rule seg_less_rest)
    next
      assume "y \<in> set (drop j b)"
      with sb x show ?thesis unfolding i1 by (rule seg_less_other)
    qed
  qed
  show ?thesis unfolding below_rest_def using 1 2 by blast
qed

lemma below_rest_swap: "below_rest a b i j r = below_rest b a j i r"
  by (auto simp: below_rest_def)

lemma below_rest_push:
  assumes sa: "sorted_wrt (<) a" and sb: "sorted_wrt (<) b"
    and inv: "below_rest a b i j r"
    and eq: "i < length a" "j < length b" "a ! i = b ! j"
  shows "below_rest a b (i + 1) (j + 1) (r @ [a ! i])"
proof -
  have da: "drop i a = a ! i # drop (i + 1) a" and db: "drop j b = b ! j # drop (j + 1) b"
    using eq(1,2) by (simp_all add: Cons_nth_drop_Suc)
  have "sorted_wrt (<) (drop i a)" "sorted_wrt (<) (drop j b)"
    using sa sb by (simp_all add: sorted_wrt_drop)
  then have "\<forall>y\<in>set (drop (i + 1) a). a ! i < y" "\<forall>y\<in>set (drop (j + 1) b). b ! j < y"
    unfolding da db by auto
  moreover have "\<forall>x\<in>set r. x < a ! i"
    using inv unfolding below_rest_def da by auto
  moreover have "\<forall>x\<in>set r. \<forall>y\<in>set (drop (i + 1) a) \<union> set (drop (j + 1) b). x < y"
    using inv unfolding below_rest_def da db by auto
  ultimately show ?thesis
    using inv eq(3) unfolding below_rest_def by (auto simp: sorted_wrt_append)
qed

lemma union_loop_sorted_set:
  "sorted_wrt (<) a \<Longrightarrow> sorted_wrt (<) b \<Longrightarrow> below_rest a b i j r \<Longrightarrow>
     sorted_wrt (<) (union_loop a b i j r) \<and>
     set (union_loop a b i j r) = set r \<union> set (drop i a) \<union> set (drop j b)"
proof (induction a b i j r rule: union_loop.induct)
  case (1 a b i j r)
  note sa = "1.prems"(1,2)
  note inv = "1.prems"(3)
  show ?case
  proof (cases "i < length a \<or> j < length b")
    case False
    then have "union_loop a b i j r = r" by (subst union_loop_unfold) simp
    with False inv show ?thesis by (simp add: below_rest_def)
  next
    case True
    define i1 where "i1 = skip_while_less a b i j"
    define j1 where "j1 = skip_while_less b a j i1"
    define r2 where "r2 = r @ seg a i i1 @ seg b j j1"
    have ge: "i \<le> i1" "j \<le> j1"
      unfolding i1_def j1_def by (rule skip_while_less_ge)+
    have inv1: "below_rest a b i1 j (r @ seg a i i1)"
      using sa inv i1_def by (rule below_rest_scan)
    have "below_rest b a j1 i1 ((r @ seg a i i1) @ seg b j j1)"
      using sa(2,1) inv1 [unfolded below_rest_swap [of a b]] j1_def by (rule below_rest_scan)
    then have inv2: "below_rest a b i1 j1 r2"
      by (simp add: r2_def below_rest_swap [of a b])
    have sets: "set r2 \<union> set (drop i1 a) \<union> set (drop j1 b) =
                set r \<union> set (drop i a) \<union> set (drop j b)"
      unfolding r2_def drop_seg [OF ge(1), of a] drop_seg [OF ge(2), of b] by auto
    show ?thesis
    proof (cases "i1 < length a \<and> j1 < length b \<and> a ! i1 = b ! j1")
      case eq: True
      have unf: "union_loop a b i j r = union_loop a b (i1 + 1) (j1 + 1) (r2 @ [a ! i1])"
        unfolding union_loop_unfold [of a b i j r] Let_def
          i1_def [symmetric] j1_def [symmetric] r2_def [symmetric]
        by (simp only: True eq if_True simp_thms)
      have inv3: "below_rest a b (i1 + 1) (j1 + 1) (r2 @ [a ! i1])"
        using sa inv2 eq by (intro below_rest_push) auto
      have ih: "sorted_wrt (<) (union_loop a b (i1 + 1) (j1 + 1) (r2 @ [a ! i1])) \<and>
            set (union_loop a b (i1 + 1) (j1 + 1) (r2 @ [a ! i1])) =
            set (r2 @ [a ! i1]) \<union> set (drop (i1 + 1) a) \<union> set (drop (j1 + 1) b)"
        using "1.IH"(1) [OF True refl refl _ sa] eq inv3
        by (simp add: push_while_less_fst push_while_less_snd i1_def j1_def r2_def seg_def)
      from eq have lt: "i1 < length a" "j1 < length b" by simp_all
      have "drop i1 a = a ! i1 # drop (i1 + 1) a" "drop j1 b = b ! j1 # drop (j1 + 1) b"
        using lt by (simp_all add: Cons_nth_drop_Suc)
      then have "set (r2 @ [a ! i1]) \<union> set (drop (i1 + 1) a) \<union> set (drop (j1 + 1) b) =
          set r2 \<union> set (drop i1 a) \<union> set (drop j1 b)"
        using eq by auto
      with ih unf sets show ?thesis by simp
    next
      case ne: False
      have unf: "union_loop a b i j r = union_loop a b i1 j1 r2"
        unfolding union_loop_unfold [of a b i j r] Let_def
          i1_def [symmetric] j1_def [symmetric] r2_def [symmetric]
        by (simp only: True ne if_True if_False simp_thms)
      have ih: "sorted_wrt (<) (union_loop a b i1 j1 r2) \<and>
            set (union_loop a b i1 j1 r2) = set r2 \<union> set (drop i1 a) \<union> set (drop j1 b)"
        using "1.IH"(2) [OF True refl refl _ sa] ne inv2
        by (simp add: push_while_less_fst push_while_less_snd i1_def j1_def r2_def seg_def)
      with unf sets show ?thesis by simp
    qed
  qed
qed

lemma intersection_loop_sorted_set:
  "sorted_wrt (<) a \<Longrightarrow> sorted_wrt (<) b \<Longrightarrow> below_rest a [] i 0 r \<Longrightarrow>
     sorted_wrt (<) (intersection_loop a b i j r) \<and>
     set (intersection_loop a b i j r) = set r \<union> (set (drop i a) \<inter> set (drop j b))"
proof (induction a b i j r rule: intersection_loop.induct)
  case (1 a b i j r)
  note sa = "1.prems"(1,2)
  note inv = "1.prems"(3)
  show ?case
  proof (cases "i < length a \<or> j < length b")
    case False
    then have "intersection_loop a b i j r = r" by (subst intersection_loop.simps) simp
    with False inv show ?thesis by (simp add: below_rest_def)
  next
    case True
    define i1 where "i1 = skip_while_less a b i j"
    define j1 where "j1 = skip_while_less b a j i1"
    have ge: "i \<le> i1" "j \<le> j1"
      unfolding i1_def j1_def by (rule skip_while_less_ge)+
    have da: "drop i a = seg a i i1 @ drop i1 a" and db: "drop j b = seg b j j1 @ drop j1 b"
      using ge by (simp_all add: drop_seg)
    have inv1: "below_rest a [] i1 0 r"
      using inv unfolding below_rest_def da by auto
    have a_skipped: "x \<notin> set (drop j b)" if "x \<in> set (seg a i i1)" for x
      using seg_less_other [OF sa(2) that [unfolded i1_def]] by auto
    have b_skipped: "x \<notin> set (drop i1 a)" if "x \<in> set (seg b j j1)" for x
      using seg_less_other [OF sa(1) that [unfolded j1_def]] by auto
    have sets: "set (drop i a) \<inter> set (drop j b) = set (drop i1 a) \<inter> set (drop j1 b)"
      using a_skipped b_skipped unfolding da unfolding db by auto
    show ?thesis
    proof (cases "i1 < length a \<and> j1 < length b \<and> a ! i1 = b ! j1")
      case eq: True
      have unf: "intersection_loop a b i j r =
                 intersection_loop a b (i1 + 1) (j1 + 1) (r @ [a ! i1])"
        unfolding intersection_loop.simps [of a b i j r] Let_def
          i1_def [symmetric] j1_def [symmetric]
        by (simp only: True eq if_True simp_thms)
      from eq have lt: "i1 < length a" "j1 < length b" by simp_all
      have d1: "drop i1 a = a ! i1 # drop (i1 + 1) a" "drop j1 b = b ! j1 # drop (j1 + 1) b"
        using lt by (simp_all add: Cons_nth_drop_Suc)
      have "sorted_wrt (<) (drop i1 a)" "sorted_wrt (<) (drop j1 b)"
        using sa by (simp_all add: sorted_wrt_drop)
      then have fresh: "\<forall>y\<in>set (drop (i1 + 1) a). a ! i1 < y" "\<forall>y\<in>set (drop (j1 + 1) b). b ! j1 < y"
        unfolding d1 by auto
      have inv3: "below_rest a [] (i1 + 1) 0 (r @ [a ! i1])"
        using inv1 fresh(1) unfolding below_rest_def d1(1) by (auto simp: sorted_wrt_append)
      have ih: "sorted_wrt (<) (intersection_loop a b (i1 + 1) (j1 + 1) (r @ [a ! i1])) \<and>
            set (intersection_loop a b (i1 + 1) (j1 + 1) (r @ [a ! i1])) =
            set (r @ [a ! i1]) \<union> (set (drop (i1 + 1) a) \<inter> set (drop (j1 + 1) b))"
        using "1.IH"(1) [OF True refl refl _ sa] eq inv3
        by (simp add: i1_def j1_def)
      have "set (r @ [a ! i1]) \<union> (set (drop (i1 + 1) a) \<inter> set (drop (j1 + 1) b)) =
          set r \<union> (set (drop i1 a) \<inter> set (drop j1 b))"
        using eq fresh unfolding d1 by auto
      with ih unf sets show ?thesis by simp
    next
      case ne: False
      have unf: "intersection_loop a b i j r = intersection_loop a b i1 j1 r"
        unfolding intersection_loop.simps [of a b i j r] Let_def
          i1_def [symmetric] j1_def [symmetric]
        by (simp only: True ne if_True if_False simp_thms)
      have ih: "sorted_wrt (<) (intersection_loop a b i1 j1 r) \<and>
            set (intersection_loop a b i1 j1 r) = set r \<union> (set (drop i1 a) \<inter> set (drop j1 b))"
        using "1.IH"(2) [OF True refl refl _ sa] ne inv1
        by (simp add: i1_def j1_def)
      with unf sets show ?thesis by simp
    qed
  qed
qed

lemma skip_while_less_same: "skip_while_less a a i i = i"
  by (subst skip_while_less.simps) (simp add: compare_def)

lemma intersection_loop_same: "intersection_loop a a i i r = r @ drop i a"
proof (induction "length a - i" arbitrary: i r)
  case 0
  then have "\<not> i < length a" by simp
  then show ?case by (subst intersection_loop.simps) simp
next
  case (Suc n)
  then have lt: "i < length a" and n: "n = length a - (i + 1)" by auto
  have "intersection_loop a a i i r = intersection_loop a a (i + 1) (i + 1) (r @ [a ! i])"
    using lt by (subst intersection_loop.simps) (simp add: skip_while_less_same Let_def)
  also have "\<dots> = (r @ [a ! i]) @ drop (i + 1) a"
    using n by (rule Suc.hyps(1))
  also have "\<dots> = r @ drop i a"
    using lt by (simp add: Cons_nth_drop_Suc)
  finally show ?case .
qed

lemma strict_sorted_sort_id: "sorted_wrt (<) (xs :: int list) \<Longrightarrow> sort xs = xs"
  by (simp add: sorted_sort_id strict_sorted_iff)

lemma strict_sorted_unique:
  "sorted_wrt (<) (xs :: int list) \<Longrightarrow> sorted_wrt (<) ys \<Longrightarrow> set xs = set ys \<Longrightarrow> xs = ys"
  by (simp add: strict_sorted_equal)

text \<open>
  Claim C9.  For canonical interface sets (strictly increasing handle arrays) \<open>S1\<close> and
  \<open>S2\<close>: \<^verbatim>\<open>union_with\<close> is commutative, \<^verbatim>\<open>intersection_with(S, S)\<close> is \<open>S\<close>, the members
  of \<^verbatim>\<open>intersection_with(S1, S2)\<close> are exactly the handles present in both operands (so
  each of them is present in both), the members of \<^verbatim>\<open>union_with(S1, S2)\<close> are the handles
  of either operand, and both results are again strictly increasing, that is sorted and
  free of duplicates.
\<close>

theorem interfaces_union_intersection:
  assumes "sorted_wrt (<) S1" and "sorted_wrt (<) S2"
  shows "union_with S1 S2 = union_with S2 S1 \<and>
         intersection_with S1 S1 = S1 \<and>
         set (intersection_with S1 S2) = set S1 \<inter> set S2 \<and>
         set (union_with S1 S2) = set S1 \<union> set S2 \<and>
         sorted_wrt (<) (union_with S1 S2) \<and>
         sorted_wrt (<) (intersection_with S1 S2)"
proof -
  have start: "below_rest a b 0 0 []" for a b
    by (simp add: below_rest_def)
  have u12: "sorted_wrt (<) (union_loop S1 S2 0 0 []) \<and>
             set (union_loop S1 S2 0 0 []) = set S1 \<union> set S2"
    using union_loop_sorted_set [OF assms start] by simp
  have u21: "sorted_wrt (<) (union_loop S2 S1 0 0 []) \<and>
             set (union_loop S2 S1 0 0 []) = set S2 \<union> set S1"
    using union_loop_sorted_set [OF assms(2,1) start] by simp
  have i12: "sorted_wrt (<) (intersection_loop S1 S2 0 0 []) \<and>
             set (intersection_loop S1 S2 0 0 []) = set S1 \<inter> set S2"
    using intersection_loop_sorted_set [OF assms start] by simp
  have un: "union_with S1 S2 = union_loop S1 S2 0 0 []"
    "union_with S2 S1 = union_loop S2 S1 0 0 []"
    using u12 u21 by (simp_all add: union_with_def TypeInterfaces_make_def strict_sorted_sort_id)
  have inter: "intersection_with S1 S2 = intersection_loop S1 S2 0 0 []"
    using i12 by (simp add: intersection_with_def TypeInterfaces_make_def strict_sorted_sort_id)
  have comm: "union_with S1 S2 = union_with S2 S1"
    unfolding un using u12 u21 by (intro strict_sorted_unique) auto
  have idem: "intersection_with S1 S1 = S1"
    using assms(1)
    by (simp add: intersection_with_def TypeInterfaces_make_def intersection_loop_same
        strict_sorted_sort_id)
  from comm idem u12 i12 show ?thesis
    unfolding un(1) inter by simp
qed

theorem interfaces_union_intersection_witness:
  "sorted_wrt (<) [1, 3, 5 :: int] \<and> sorted_wrt (<) [2, 3 :: int] \<and>
   (union_with [1, 3, 5] [2, 3] = union_with [2, 3] [1, 3, 5] \<and>
    intersection_with [1, 3, 5] [1, 3, 5] = [1, 3, 5] \<and>
    set (intersection_with [1, 3, 5] [2, 3]) = set [1, 3, 5] \<inter> set [2, 3] \<and>
    set (union_with [1, 3, 5] [2, 3]) = set [1, 3, 5] \<union> set [2, 3] \<and>
    sorted_wrt (<) (union_with [1, 3, 5] [2, 3]) \<and>
    sorted_wrt (<) (intersection_with [1, 3, 5] [2, 3]))"
proof -
  have h1: "sorted_wrt (<) [1, 3, 5 :: int]" and h2: "sorted_wrt (<) [2, 3 :: int]"
    by simp_all
  show ?thesis
    by (rule conjI [OF h1 conjI [OF h2 interfaces_union_intersection [OF h1 h2]]])
qed

text \<open>The two merge loops run, on the same operands.\<close>

lemma union_with_example: "union_with [1, 3, 5] [2, 3] = [1, 2, 3, 5]"
  by code_simp

lemma intersection_with_example: "intersection_with [1, 3, 5] [2, 3] = [3]"
  by code_simp

section \<open>Properties of the meet\<close>

text \<open>\<^verbatim>\<open>meet\<close> and \<^verbatim>\<open>meet_speculative\<close> as one step of dispatch.\<close>

lemma meet_unfold:
  "meet e this t = xmeet (meet e) e (remove_speculative e this) (remove_speculative e t)"
proof -
  have "meet e = (\<lambda>a b. meet_helper e a b False)"
    by (intro ext) (simp add: meet_def)
  then show ?thesis
    by (simp add: meet_def meet_helper.simps [of e this t False] maybe_remove_speculative_def)
qed

lemma meet_speculative_unfold:
  "meet_speculative e this t =
     and_then (xmeet (meet e) e this t) (\<lambda>mt. Inr (cleanup_speculative e mt))"
proof -
  have "meet e = (\<lambda>a b. meet_helper e a b False)"
    by (intro ext) (simp add: meet_def)
  then show ?thesis
    by (simp add: meet_speculative_def meet_helper.simps [of e this t True]
        maybe_remove_speculative_def)
qed

subsection \<open>Float constants\<close>

text \<open>
  Claim C7.  Float constants are compared by bit pattern: the meet of the constants
  \<open>+0.0\<close> (bits \<open>0\<close>) and \<open>-0.0\<close> (bits \<open>0x80000000\<close>) is \<^verbatim>\<open>FLOAT\<close>, in either order,
  and in general the meet of two float constants is that constant when the bit
  patterns are equal and \<^verbatim>\<open>FLOAT\<close> when they differ.
\<close>

theorem float_constant_meet:
  "meet e (TypeF 0) (TypeF 0x80000000) = Inr FLOAT \<and>
   meet e (TypeF 0x80000000) (TypeF 0) = Inr FLOAT \<and>
   (\<forall>a b. meet e (TypeF a) (TypeF b) = Inr (if a = b then TypeF a else FLOAT))"
  by (simp add: meet_unfold xmeet_def TypeF_xmeet_def)

theorem float_constant_meet_witness:
  "meet example_env (TypeF 0) (TypeF 0x80000000) = Inr (Type FloatBot) \<and>
   meet example_env (TypeF 0x3F800000) (TypeF 0x3F800000) = Inr (TypeF 0x3F800000)"
  using float_constant_meet [of example_env] by (simp add: FLOAT_def)

subsection \<open>Commutativity\<close>

lemma meet_FLOAT_NULL_PTR: "meet e FLOAT NULL_PTR = Inl TypeError"
  by (simp add: meet_unfold xmeet_def Type_xmeet_def FLOAT_def NULL_PTR_def TypePtr_make_def)

lemma meet_NULL_PTR_FLOAT: "meet e NULL_PTR FLOAT = Inr BOTTOM"
  by (simp add: meet_unfold xmeet_def TypePtr_xmeet_def TypePtr_xmeet_helper_def
      TypePtr_xmeet_result_def isa_ptr_def and_then_def
      FLOAT_def NULL_PTR_def BOTTOM_def TypePtr_make_def)

text \<open>
  Claim C1.  The meet is to be commutative.  At \<^verbatim>\<open>Type::FLOAT\<close> and
  \<^verbatim>\<open>TypePtr::NULL_PTR\<close> it is not: \<^verbatim>\<open>Type::xmeet\<close> has no case for the bases
  \<^verbatim>\<open>AnyPtr\<close> and \<^verbatim>\<open>RawPtr\<close> and ends in \<^verbatim>\<open>typerr\<close>, while \<^verbatim>\<open>TypePtr::xmeet_helper\<close>
  answers \<^verbatim>\<open>Type::BOTTOM\<close> for the same two types in the other order.
\<close>

theorem meet_not_commutative:
  "meet example_env (Type FloatBot) (TypePtr Null 0 None InlineDepthBottom) = Inl TypeError \<and>
   meet example_env (TypePtr Null 0 None InlineDepthBottom) (Type FloatBot) = Inr (Type Bottom)"
  using meet_FLOAT_NULL_PTR [of example_env] meet_NULL_PTR_FLOAT [of example_env]
  by (simp add: FLOAT_def NULL_PTR_def BOTTOM_def TypePtr_make_def)

subsection \<open>Normalisation of the speculative part\<close>

lemma speculative_remove_speculative: "speculative (remove_speculative e t) = None"
  by (cases t) (simp_all add: TypePtr_make_def TypeOopPtr_make_def TypeInstPtr_make_def Let_def)

lemma TypePtr_xmeet_result_normalized:
  "speculative (TypePtr_xmeet_result e r) \<noteq> Some (remove_speculative e (TypePtr_xmeet_result e r))"
proof (cases "isa_ptr r \<and> speculative r \<noteq> None \<and> Some (remove_speculative e r) = speculative r")
  case True
  then have "TypePtr_xmeet_result e r = remove_speculative e r"
    by (simp add: TypePtr_xmeet_result_def)
  then show ?thesis by (simp add: speculative_remove_speculative)
next
  case False
  show ?thesis
  proof (cases "isa_ptr r")
    case True
    with False have "speculative r = None \<or> Some (remove_speculative e r) \<noteq> speculative r"
      by auto
    moreover have "TypePtr_xmeet_result e r = r"
      using False True by (auto simp: TypePtr_xmeet_result_def)
    ultimately show ?thesis by auto
  next
    case nptr: False
    then have "speculative r = None"
      by (cases r) (simp_all add: isa_ptr_def)
    moreover have "TypePtr_xmeet_result e r = r"
      using nptr by (simp add: TypePtr_xmeet_result_def)
    ultimately show ?thesis by simp
  qed
qed

lemma xmeet_ptr_classes:
  assumes "inherits_TypePtr_xmeet this"
  shows "\<exists>helper. xmeet m e this t = and_then helper (\<lambda>res. Inr (TypePtr_xmeet_result e res))"
  using assms
  by (cases this)
     (auto simp: xmeet_def TypePtr_xmeet_def TypeOopPtr_xmeet_def TypeInstPtr_xmeet_def)

lemma inherits_remove_speculative:
  "inherits_TypePtr_xmeet (remove_speculative e this) = inherits_TypePtr_xmeet this"
  by (cases this) (simp_all add: TypePtr_make_def TypeOopPtr_make_def TypeInstPtr_make_def Let_def)

lemma xmeet_normalized:
  assumes "inherits_TypePtr_xmeet this" and "xmeet m e this t = Inr res"
  shows "speculative res \<noteq> Some (remove_speculative e res)"
proof -
  from xmeet_ptr_classes [OF assms(1)] obtain helper where
    "xmeet m e this t = and_then helper (\<lambda>res. Inr (TypePtr_xmeet_result e res))" by blast
  with assms(2) obtain r where "res = TypePtr_xmeet_result e r"
    by (auto simp: and_then_def split: sum.splits)
  then show ?thesis
    by (simp add: TypePtr_xmeet_result_normalized)
qed

lemma cleanup_speculative_cases:
  "cleanup_speculative e r = r \<or> cleanup_speculative e r = remove_speculative e r"
  by (cases r)
    (auto simp: TypePtr_cleanup_speculative_def TypeOopPtr_cleanup_speculative_def Let_def
      TypePtr_make_def TypeOopPtr_make_def split: option.splits)

lemma cleanup_speculative_normalized:
  assumes "speculative r \<noteq> Some (remove_speculative e r)"
  shows "speculative (cleanup_speculative e r) \<noteq>
           Some (remove_speculative e (cleanup_speculative e r))"
  using cleanup_speculative_cases [of e r] assms
  by (auto simp: speculative_remove_speculative)

text \<open>
  The classes that use \<^verbatim>\<open>TypePtr::xmeet\<close> return normalised results: whatever a meet
  with such a receiver returns, with or without the speculative parts taken into
  account, the speculative part of the result is not equal to the result's own
  non-speculative part.
\<close>

lemma inherited_xmeet_normalized:
  assumes "inherits_TypePtr_xmeet this"
    and "meet_speculative e this t = Inr res \<or> meet e this t = Inr res"
  shows "speculative res \<noteq> Some (remove_speculative e res)"
  using assms(2)
proof
  assume "meet_speculative e this t = Inr res"
  then obtain mt where mt: "xmeet (meet e) e this t = Inr mt"
    and res: "res = cleanup_speculative e mt"
    by (auto simp: meet_speculative_unfold and_then_def split: sum.splits)
  from assms(1) mt have "speculative mt \<noteq> Some (remove_speculative e mt)"
    by (rule xmeet_normalized)
  then show ?thesis unfolding res by (rule cleanup_speculative_normalized)
next
  assume "meet e this t = Inr res"
  then have r: "xmeet (meet e) e (remove_speculative e this) (remove_speculative e t) = Inr res"
    by (simp add: meet_unfold)
  have "inherits_TypePtr_xmeet (remove_speculative e this)"
    using assms(1) by (simp add: inherits_remove_speculative)
  then show ?thesis using r by (rule xmeet_normalized)
qed

text \<open>
  Claim C10.  Every pointer returned by a meet of the pointer family is to be
  normalised: its speculative part is never equal to its own non-speculative part.
  \<^verbatim>\<open>TypeRawPtr::xmeet\<close> overrides \<^verbatim>\<open>TypePtr::xmeet\<close> without the normalisation.  The
  meet of the raw pointer \<^verbatim>\<open>TypeRawPtr::NOTNULL\<close> with the pointer \<open>NotNull\<close> at offset 5
  that speculates \<open>NotNull\<close> at any offset returns \<open>NotNull\<close> at any offset with that
  same speculative part, which is its own non-speculative part; in the other order the
  receiver runs \<^verbatim>\<open>TypePtr::xmeet\<close> and the same meet returns the pointer without a
  speculative part.
\<close>

theorem raw_pointer_meet_not_normalized:
  "meet_speculative example_env (TypeRawPtr NotNull 0)
     (TypePtr NotNull 5 (Some (TypePtr NotNull OffsetBot None InlineDepthBottom))
        InlineDepthBottom) =
     Inr (TypePtr NotNull OffsetBot (Some (TypePtr NotNull OffsetBot None InlineDepthBottom))
            InlineDepthBottom) \<and>
   speculative
     (TypePtr NotNull OffsetBot (Some (TypePtr NotNull OffsetBot None InlineDepthBottom))
        InlineDepthBottom) =
     Some (remove_speculative example_env
       (TypePtr NotNull OffsetBot (Some (TypePtr NotNull OffsetBot None InlineDepthBottom))
          InlineDepthBottom)) \<and>
   meet_speculative example_env
     (TypePtr NotNull 5 (Some (TypePtr NotNull OffsetBot None InlineDepthBottom))
        InlineDepthBottom)
     (TypeRawPtr NotNull 0) =
     Inr (TypePtr NotNull OffsetBot None InlineDepthBottom)"
  by (simp add: meet_speculative_unfold xmeet_def TypeRawPtr_xmeet_def TypePtr_xmeet_def
      TypePtr_xmeet_helper_def TypePtr_xmeet_result_def and_then_def isa_ptr_def
      TypePtr_make_def meet_ptr_def meet_offset_def ptr_meet_def OffsetTop_def OffsetBot_def
      TypePtr_cleanup_speculative_def TypePtr_with_inline_depth_def NULL_PTR_def
      above_centerline_def maybe_null_def isa_oopptr_def Let_def InlineDepthBottom_def)

subsection \<open>The meet of the speculative parts\<close>






text \<open>
  The claim C8 as it is written has one side's guess survive a meet against a side
  with no guess.  In the scenario of the spec it does not: \<^verbatim>\<open>Object\<close> that speculates
  the exact class \<open>Foo\<close> meets \<^verbatim>\<open>Object\<close> without a guess.  The meet of the speculative
  parts is \<open>Foo\<close> meet \<^verbatim>\<open>Object\<close>, which is \<^verbatim>\<open>Object\<close>, the result's own
  non-speculative part, and \<^verbatim>\<open>TypePtr::xmeet\<close> returns the result without a
  speculative part.
\<close>

lemma intersection_with_empty: "intersection_with [] [] = []"
  by code_simp

lemma intersection_with_Foo_Object: "intersection_with [10, 11] [] = []"
  by code_simp

lemma intersection_with_Object_Foo: "intersection_with [] [10, 11] = []"
  by code_simp

lemma intersection_with_Foo_Foo: "intersection_with [10, 11] [10, 11] = [10, 11]"
  by code_simp

lemmas meet_instptr_run =
  meet_speculative_unfold meet_unfold xmeet_def TypeInstPtr_xmeet_def
  TypeInstPtr_xmeet_helper_def meet_instptr_def is_same_java_type_as_def
  is_meet_subtype_of_def is_meet_subtype_of_helper_def is_instance_type_def
  TypeInstPtr_is_loaded_def TypeInterfaces_contains_def
  TypePtr_xmeet_result_def xmeet_speculative_def and_then_def
  isa_ptr_def TypePtr_make_def TypeInstPtr_make_def meet_ptr_def meet_offset_def
  meet_inline_depth_def meet_instance_id_def meet_interfaces_def
  ptr_meet_def OffsetTop_def TypePtr_cleanup_speculative_def TypeOopPtr_cleanup_speculative_def
  TypePtr_with_inline_depth_def NULL_PTR_def above_centerline_def maybe_null_def
  isa_oopptr_def Let_def InstanceTop_def InstanceBot_def
  example_env_def example_superclass_def
  intersection_with_empty intersection_with_Foo_Object intersection_with_Object_Foo
  intersection_with_Foo_Foo


text \<open>
  Against a side without a guess whose own type is the exact class \<open>Foo\<close>, the guess
  does survive.
\<close>

lemma speculative_guess_kept:
  "meet_speculative example_env
     (TypeInstPtr BotPTR 1 [] False 0 0 InstanceBot
        (Some (TypeInstPtr NotNull 2 [10, 11] True 0 0 InstanceBot None InlineDepthBottom))
        InlineDepthBottom)
     (TypeInstPtr NotNull 2 [10, 11] True 0 0 InstanceBot None InlineDepthBottom) =
   Inr (TypeInstPtr BotPTR 1 [] False 0 0 InstanceBot
        (Some (TypeInstPtr NotNull 2 [10, 11] True 0 0 InstanceBot None InlineDepthBottom))
        InlineDepthBottom)"
  by (simp add: meet_instptr_run)



text \<open>
  A run where the guess is lost: the first pointer is \<open>NotNull\<close> and speculates a pointer
  that may be null, the second is \<open>NotNull\<close> without a guess.  The meet of the guesses
  may be null and is no exact class, and the clean-up drops it.
\<close>

lemma meet_speculative_drops_guess:
  "meet_speculative example_env
     (TypePtr NotNull 0 (Some (TypePtr BotPTR 0 None InlineDepthBottom)) InlineDepthBottom)
     (TypePtr NotNull 0 None InlineDepthBottom) =
   Inr (TypePtr NotNull 0 None InlineDepthBottom)"
  by (simp add: meet_speculative_unfold meet_unfold xmeet_def TypePtr_xmeet_def
      TypePtr_xmeet_helper_def TypePtr_xmeet_result_def xmeet_speculative_def and_then_def
      isa_ptr_def TypePtr_make_def meet_ptr_def meet_offset_def meet_inline_depth_def
      ptr_meet_def OffsetTop_def TypePtr_cleanup_speculative_def TypePtr_with_inline_depth_def
      NULL_PTR_def above_centerline_def maybe_null_def isa_oopptr_def Let_def)

subsection \<open>Unrelated instance classes\<close>

lemma remove_speculative_instptr:
  "\<exists>xk. remove_speculative e (TypeInstPtr p k ifs xk0 oop off iid spec depth) =
          TypeInstPtr p k ifs xk oop off iid None depth"
  by (simp add: TypeInstPtr_make_def Let_def)

lemma meet_instptr_unrelated:
  assumes "ci_is_loaded e ka" "ci_is_loaded e kb"
    and "\<not> ci_is_subtype_of e ka kb" "\<not> ci_is_subtype_of e kb ka" "ka \<noteq> kb"
    and "ka \<noteq> Object_klass e" "kb \<noteq> Object_klass e"
  shows "meet_instptr e p ifs
           (TypeInstPtr pa ka ia xka oa offa iida sa da)
           (TypeInstPtr pb kb ib xkb ob offb iidb sb db) 0 False =
         (LCA, fall_to_NotNull p, intersection_with ia ib,
          ci_least_common_ancestor e ka kb, False)"
proof -
  let ?A = "TypeInstPtr pa ka ia xka oa offa iida sa da"
  let ?B = "TypeInstPtr pb kb ib xkb ob offb iidb sb db"
  have same: "\<not> is_same_java_type_as e ?A ?B"
    using assms(5) by (simp add: is_same_java_type_as_def)
  have sub: "\<not> is_meet_subtype_of e ?A ?B" "\<not> is_meet_subtype_of e ?B ?A"
    using assms(3,4,6,7)
    by (simp_all add: is_meet_subtype_of_def is_meet_subtype_of_helper_def is_instance_type_def)
  show ?thesis
    using assms(1,2,5) same sub
    by (simp add: meet_instptr_def Let_def fall_to_NotNull_def)
qed

lemma fall_to_NotNull_not_Constant: "fall_to_NotNull p \<noteq> Constant"
  by (simp add: fall_to_NotNull_def)

lemma unrelated_instptr_xmeet_helper_spec:
  assumes "ci_is_loaded e ka" "ci_is_loaded e kb"
    and "\<not> ci_is_subtype_of e ka kb" "\<not> ci_is_subtype_of e kb ka" "ka \<noteq> kb"
    and "ka \<noteq> Object_klass e" "kb \<noteq> Object_klass e"
  shows "TypeInstPtr_xmeet_helper m e
           (TypeInstPtr pa ka ia xka oa offa iida sa da)
           (TypeInstPtr pb kb ib xkb ob offb iidb sb db) =
         and_then (xmeet_speculative m (TypeInstPtr pa ka ia xka oa offa iida sa da)
                     (TypeInstPtr pb kb ib xkb ob offb iidb sb db)) (\<lambda>spec.
           Inr (TypeInstPtr_make e
                (fall_to_NotNull (ptr_meet ! PTR_index pb ! PTR_index pa))
                (ci_least_common_ancestor e ka kb) (intersection_with ia ib) False 0
                (meet_offset (TypeInstPtr pa ka ia xka oa offa iida sa da) offb)
                InstanceBot spec (max da db)))"
proof -
  note mi = meet_instptr_unrelated [OF assms]
  show ?thesis
    using assms(5)
    by (simp add: TypeInstPtr_xmeet_helper_def Let_def meet_ptr_def mi meet_inline_depth_def
        fall_to_NotNull_not_Constant)
qed

lemma fall_to_NotNull_below:
  assumes "pa \<noteq> Null" "pb \<noteq> Null"
  shows "below_centerline (fall_to_NotNull (ptr_meet ! PTR_index pb ! PTR_index pa))"
  using assms
  by (cases pa; cases pb) (simp_all add: ptr_meet_def fall_to_NotNull_def below_centerline_def)

lemma TypeInstPtr_make_inexact:
  assumes "p \<noteq> Constant" "\<not> ci_is_final e k"
  shows "TypeInstPtr_make e p k ifs False oop off iid spec depth =
         TypeInstPtr p k ifs False oop off iid spec depth"
  using assms by (simp add: TypeInstPtr_make_def Let_def)

lemma TypePtr_xmeet_result_fields:
  assumes "r = TypeInstPtr p k ifs False oop off iid spec depth"
    and "p \<noteq> Constant" "\<not> ci_is_final e k"
  shows "\<exists>spec'. TypePtr_xmeet_result e r = TypeInstPtr p k ifs False oop off iid spec' depth \<and>
           (spec = None \<longrightarrow> spec' = None)"
  using assms
  by (auto simp: TypePtr_xmeet_result_def TypeInstPtr_make_inexact)

lemma cleanup_speculative_fields:
  assumes "r = TypeInstPtr p k ifs False oop off iid spec depth"
    and "p \<noteq> Constant" "\<not> ci_is_final e k"
  shows "\<exists>spec'. cleanup_speculative e r = TypeInstPtr p k ifs False oop off iid spec' depth"
  using cleanup_speculative_cases [of e r] assms
  by (auto simp: TypeInstPtr_make_inexact)

text \<open>
  Claim C2.  The meet of two instance pointers whose loaded classes are unrelated
  (distinct, neither a subtype of the other, neither \<^verbatim>\<open>Object\<close>) is an instance
  pointer to the least common ancestor of the two classes; its pointer kind is the
  meet of the two kinds, forced from \<^verbatim>\<open>TopPTR\<close>, \<^verbatim>\<open>AnyNull\<close> or \<^verbatim>\<open>Constant\<close> to
  \<^verbatim>\<open>NotNull\<close>, hence on or below the centerline; its interfaces are the intersection of
  the two interface sets; it is not exact.  (A final least common ancestor would be made
  exact by the factory; the two kinds are kinds of instance pointers, not \<^verbatim>\<open>Null\<close>.)
\<close>

theorem unrelated_instptr_meet:
  assumes A: "A = TypeInstPtr pa ka ia xka oa offa iida sa da"
    and B: "B = TypeInstPtr pb kb ib xkb ob offb iidb sb db"
    and loaded: "ci_is_loaded e ka" "ci_is_loaded e kb"
    and unrelated: "\<not> ci_is_subtype_of e ka kb" "\<not> ci_is_subtype_of e kb ka" "ka \<noteq> kb"
      "ka \<noteq> Object_klass e" "kb \<noteq> Object_klass e"
    and typed: "pa \<noteq> Null" "pb \<noteq> Null"
    and not_final: "\<not> ci_is_final e (ci_least_common_ancestor e ka kb)"
  shows "meet e A B =
           Inr (TypeInstPtr (fall_to_NotNull (meet_ptr A pb))
                  (ci_least_common_ancestor e ka kb) (intersection_with ia ib) False 0
                  (meet_offset A offb) InstanceBot None (max da db)) \<and>
         below_centerline (fall_to_NotNull (meet_ptr A pb)) \<and>
         (\<forall>res. meet_speculative e A B = Inr res \<longrightarrow>
            base res = InstPtr \<and>
            ptr res = fall_to_NotNull (meet_ptr A pb) \<and>
            klass e res = ci_least_common_ancestor e ka kb \<and>
            interfaces res = intersection_with ia ib \<and>
            \<not> klass_is_exact res)"
proof -
  let ?p = "fall_to_NotNull (ptr_meet ! PTR_index pb ! PTR_index pa)"
  let ?k = "ci_least_common_ancestor e ka kb"
  have mp: "meet_ptr A pb = ptr_meet ! PTR_index pb ! PTR_index pa"
    by (simp add: A meet_ptr_def)
  have pc: "?p \<noteq> Constant" by (rule fall_to_NotNull_not_Constant)
  note helper = unrelated_instptr_xmeet_helper_spec [OF loaded unrelated]
  have below: "below_centerline (fall_to_NotNull (meet_ptr A pb))"
    unfolding mp using typed by (rule fall_to_NotNull_below)
  have plain: "meet e A B =
           Inr (TypeInstPtr (fall_to_NotNull (meet_ptr A pb)) ?k (intersection_with ia ib)
                  False 0 (meet_offset A offb) InstanceBot None (max da db))"
  proof -
    obtain xa where ra: "remove_speculative e A = TypeInstPtr pa ka ia xa oa offa iida None da"
      using remove_speculative_instptr unfolding A by blast
    obtain xb where rb: "remove_speculative e B = TypeInstPtr pb kb ib xb ob offb iidb None db"
      using remove_speculative_instptr unfolding B by blast
    have "meet e A B = TypeInstPtr_xmeet (meet e) e
            (TypeInstPtr pa ka ia xa oa offa iida None da)
            (TypeInstPtr pb kb ib xb ob offb iidb None db)"
      by (simp add: meet_unfold ra rb xmeet_def)
    also have "\<dots> = Inr (TypePtr_xmeet_result e
        (TypeInstPtr ?p ?k (intersection_with ia ib) False 0 (meet_offset A offb)
           InstanceBot None (max da db)))"
      using pc not_final
      by (simp add: TypeInstPtr_xmeet_def helper xmeet_speculative_def and_then_def
          TypeInstPtr_make_inexact meet_offset_def A)
    also have "\<dots> = Inr (TypeInstPtr ?p ?k (intersection_with ia ib) False 0
        (meet_offset A offb) InstanceBot None (max da db))"
      by (simp add: TypePtr_xmeet_result_def)
    finally show ?thesis unfolding mp .
  qed
  have spec: "base res = InstPtr \<and>
            ptr res = fall_to_NotNull (meet_ptr A pb) \<and>
            klass e res = ci_least_common_ancestor e ka kb \<and>
            interfaces res = intersection_with ia ib \<and>
            \<not> klass_is_exact res" if "meet_speculative e A B = Inr res" for res
  proof -
    from that obtain mt where mt: "TypeInstPtr_xmeet (meet e) e A B = Inr mt"
      and res: "res = cleanup_speculative e mt"
      by (auto simp: meet_speculative_unfold xmeet_def A and_then_def split: sum.splits)
    from mt obtain spec where
      "mt = TypePtr_xmeet_result e
         (TypeInstPtr ?p ?k (intersection_with ia ib) False 0 (meet_offset A offb)
            InstanceBot spec (max da db))"
      using pc not_final
      by (auto simp: TypeInstPtr_xmeet_def helper A B and_then_def TypeInstPtr_make_inexact
          split: sum.splits)
    with TypePtr_xmeet_result_fields [OF refl pc not_final] obtain spec' where
      "mt = TypeInstPtr ?p ?k (intersection_with ia ib) False 0 (meet_offset A offb)
         InstanceBot spec' (max da db)"
      by metis
    with cleanup_speculative_fields [OF _ pc not_final] res obtain spec'' where
      "res = TypeInstPtr ?p ?k (intersection_with ia ib) False 0 (meet_offset A offb)
         InstanceBot spec'' (max da db)"
      by metis
    then show ?thesis
      by (simp add: mp)
  qed
  from below plain spec show ?thesis by blast
qed

text \<open>A run in the small hierarchy: \<open>Foo\<close> and \<open>Bar\<close> meet in \<^verbatim>\<open>Object\<close>.\<close>

lemma intersection_Foo_Bar: "intersection_with [10, 11] [10, 12] = [10]"
  by code_simp

theorem unrelated_instptr_meet_witness:
  "ci_is_loaded example_env 2 \<and> ci_is_loaded example_env 3 \<and>
   \<not> ci_is_subtype_of example_env 2 3 \<and> \<not> ci_is_subtype_of example_env 3 2 \<and>
   \<not> ci_is_final example_env (ci_least_common_ancestor example_env 2 3) \<and>
   meet example_env
     (TypeInstPtr NotNull 2 [10, 11] False 0 0 InstanceBot None InlineDepthBottom)
     (TypeInstPtr Constant 3 [10, 12] True 77 0 InstanceBot None InlineDepthBottom) =
   Inr (TypeInstPtr NotNull 1 [10] False 0 0 InstanceBot None InlineDepthBottom)"
proof -
  have l: "ci_is_loaded example_env 2" "ci_is_loaded example_env 3"
    by (simp_all add: example_env_def)
  have u: "\<not> ci_is_subtype_of example_env 2 3" "\<not> ci_is_subtype_of example_env 3 2"
    "(2::int) \<noteq> 3" "2 \<noteq> Object_klass example_env" "3 \<noteq> Object_klass example_env"
    by (simp_all add: example_env_def)
  have t: "NotNull \<noteq> Null" "Constant \<noteq> Null"
    by simp_all
  have k: "ci_least_common_ancestor example_env 2 3 = 1"
    by (simp add: example_env_def example_superclass_def)
  have f: "\<not> ci_is_final example_env (ci_least_common_ancestor example_env 2 3)"
    by (simp add: example_env_def example_superclass_def)
  from unrelated_instptr_meet [OF refl refl l u t f, THEN conjunct1,
      of "[10, 11]" False 0 0 InstanceBot None InlineDepthBottom
         "[10, 12]" True 77 0 InstanceBot None InlineDepthBottom]
  have "meet example_env
     (TypeInstPtr NotNull 2 [10, 11] False 0 0 InstanceBot None InlineDepthBottom)
     (TypeInstPtr Constant 3 [10, 12] True 77 0 InstanceBot None InlineDepthBottom) =
   Inr (TypeInstPtr NotNull 1 [10] False 0 0 InstanceBot None InlineDepthBottom)"
    by (simp add: k intersection_Foo_Bar meet_ptr_def meet_offset_def ptr_meet_def
        fall_to_NotNull_def OffsetTop_def)
  with l u(1,2) f show ?thesis by blast
qed

section \<open>Properties of the bounded integers\<close>

lemma is_satisfied_by_bits:
  "is_satisfied_by b v \<longleftrightarrow>
     (\<forall>n. (bit (zeros b) n \<longrightarrow> \<not> bit v n) \<and> (bit (ones b) n \<longrightarrow> bit v n))"
proof -
  have len: "n < 32" if "bit w n" for w :: juint and n
    using bit_imp_le_length [OF that] by simp
  show ?thesis
    by (auto simp: is_satisfied_by_def bit_eq_iff bit_and_iff dest: len)
qed

text \<open>
  Claim C4.  On a primal type \<^verbatim>\<open>contains\<close> answers true exactly when the value lies
  in the signed range (read as a signed number), in the unsigned range (read as an
  unsigned number) and has every known bit as the mask prescribes; on a dual type the
  assertion fails.
\<close>

theorem TypeInt_contains_iff:
  "TypeInt_contains T v =
     (if is_dual T
        then Inl (AssertFailed ''dual types should only be used for join calculation'')
      else Inr (sint (lo T) \<le> sint v \<and> sint v \<le> sint (hi T) \<and>
                unat (ulo T) \<le> unat v \<and> unat v \<le> unat (uhi T) \<and>
                (\<forall>n. (bit (zeros (known_bits T)) n \<longrightarrow> \<not> bit v n) \<and>
                     (bit (ones (known_bits T)) n \<longrightarrow> bit v n))))"
  by (simp add: TypeInt_contains_def Let_def word_sle_eq word_le_nat_alt is_satisfied_by_bits)

lemma sint_small: "- 1 \<le> sint (v :: 32 word) \<and> sint v \<le> 1 \<longleftrightarrow> v = - 1 \<or> v = 0 \<or> v = 1"
proof
  assume a: "- 1 \<le> sint v \<and> sint v \<le> 1"
  then consider "sint v = - 1" | "sint v = 0" | "sint v = 1" by arith
  then show "v = - 1 \<or> v = 0 \<or> v = 1"
  proof cases
    case 1
    then have "word_of_int (sint v) = (word_of_int (- 1) :: 32 word)" by simp
    then show ?thesis by simp
  next
    case 2
    then have "word_of_int (sint v) = (word_of_int 0 :: 32 word)" by simp
    then show ?thesis by simp
  next
    case 3
    then have "word_of_int (sint v) = (word_of_int 1 :: 32 word)" by simp
    then show ?thesis by simp
  qed
next
  assume "v = - 1 \<or> v = 0 \<or> v = 1"
  then show "- 1 \<le> sint v \<and> sint v \<le> 1" by auto
qed

text \<open>The type of the signed range \<open>[-1, 1]\<close> contains exactly \<open>-1\<close>, \<open>0\<close> and \<open>1\<close>.\<close>

theorem TypeInt_contains_iff_witness:
  "(\<forall>v. TypeInt_contains example_small_range v = Inr (v = - 1 \<or> v = 0 \<or> v = 1)) \<and>
   TypeInt_contains (example_small_range \<lparr> is_dual := True \<rparr>) 0 =
     Inl (AssertFailed ''dual types should only be used for join calculation'')"
proof (intro conjI allI)
  fix v :: jint
  have u: "unat v \<le> unat (max_juint)"
    by (simp add: max_juint_def word_le_nat_alt [symmetric])
  show "TypeInt_contains example_small_range v = Inr (v = - 1 \<or> v = 0 \<or> v = 1)"
    using TypeInt_contains_iff [of example_small_range v] sint_small [of v] u
    by (simp add: example_small_range_def)
next
  show "TypeInt_contains (example_small_range \<lparr> is_dual := True \<rparr>) 0 =
     Inl (AssertFailed ''dual types should only be used for join calculation'')"
    using TypeInt_contains_iff [of "example_small_range \<lparr> is_dual := True \<rparr>" 0]
    by (simp add: example_small_range_def)
qed

subsection \<open>Contradictory constraints\<close>

lemma crossed_signed_range:
  fixes l h v :: jint
  assumes "h <s l"
  shows "\<not> (l \<le>s v \<and> v \<le>s h)"
  using assms by (simp add: word_sle_eq word_sless_alt)

lemma prototype_contains_views:
  assumes "prototype_contains t v"
  shows "range_lo (srange t) \<le>s range_hi (srange t)"
    "range_lo (urange t) \<le> range_hi (urange t)"
    "zeros (bits t) AND ones (bits t) = 0"
proof -
  from assms show "range_lo (srange t) \<le>s range_hi (srange t)"
    by (simp add: prototype_contains_def word_sle_eq)
  from assms show "range_lo (urange t) \<le> range_hi (urange t)"
    by (auto simp: prototype_contains_def intro: order_trans)
  from assms have z: "v AND zeros (bits t) = 0" and o: "v AND ones (bits t) = ones (bits t)"
    by (simp_all add: prototype_contains_def is_satisfied_by_def)
  have "zeros (bits t) AND ones (bits t) = zeros (bits t) AND (v AND ones (bits t))"
    by (simp add: o)
  also have "\<dots> = (v AND zeros (bits t)) AND ones (bits t)"
    by (simp add: ac_simps)
  also have "\<dots> = 0" by (simp add: z)
  finally show "zeros (bits t) AND ones (bits t) = 0" .
qed

text \<open>
  Claim C3.  When the signed range, the unsigned range and the bitmask of a prototype
  are mutually contradictory (no value lies in all three), \<^verbatim>\<open>make_or_top\<close> returns the
  canonical Top for a primal and the canonical Bottom for a dual type.  Otherwise it
  returns a bounded integer of the asked orientation that is not malformed: each of its
  views is consistent in itself and the three together hold exactly the values of the
  prototype.  \<^verbatim>\<open>make(lo, hi, widen)\<close> with \<open>lo > hi\<close> returns Top.  There is no error.
\<close>

theorem TypeInt_contradictory_collapse:
  "((\<forall>v. \<not> prototype_contains t v) \<longrightarrow>
      TypeInt_make_or_top ri t w dual = (if dual then BOTTOM else TOP)) \<and>
   ((\<exists>v. prototype_contains t v) \<longrightarrow>
      (\<exists>T. TypeInt_make_or_top ri t w dual = TypeInt T \<and> is_dual T = dual \<and>
         lo T \<le>s hi T \<and> ulo T \<le> uhi T \<and> zeros (known_bits T) AND ones (known_bits T) = 0 \<and>
         (\<forall>v. prototype_contains t v \<longleftrightarrow>
            lo T \<le>s v \<and> v \<le>s hi T \<and> ulo T \<le> v \<and> v \<le> uhi T \<and>
            is_satisfied_by (known_bits T) v))) \<and>
   (h <s l \<longrightarrow> TypeInt_make ri l h w = TOP)"
proof (intro conjI impI)
  assume "\<forall>v. \<not> prototype_contains t v"
  then show "TypeInt_make_or_top ri t w dual = (if dual then BOTTOM else TOP)"
    by (simp add: TypeInt_make_or_top_def canonicalize_constraints_def)
next
  assume ex: "\<exists>v. prototype_contains t v"
  then obtain v where v: "prototype_contains t v" by blast
  let ?T = "\<lparr> lo = range_lo (srange t), hi = range_hi (srange t),
             ulo = range_lo (urange t), uhi = range_hi (urange t),
             known_bits = bits t, widen = normalize_widen ri t w, is_dual = dual \<rparr>"
  have m: "TypeInt_make_or_top ri t w dual = TypeInt ?T"
    using ex by (simp add: TypeInt_make_or_top_def canonicalize_constraints_def TypeInt_new_def)
  note views = prototype_contains_views [OF v]
  show "\<exists>T. TypeInt_make_or_top ri t w dual = TypeInt T \<and> is_dual T = dual \<and>
         lo T \<le>s hi T \<and> ulo T \<le> uhi T \<and> zeros (known_bits T) AND ones (known_bits T) = 0 \<and>
         (\<forall>v. prototype_contains t v \<longleftrightarrow>
            lo T \<le>s v \<and> v \<le>s hi T \<and> ulo T \<le> v \<and> v \<le> uhi T \<and>
            is_satisfied_by (known_bits T) v)"
    apply (rule exI [of _ ?T])
    apply (intro conjI)
    subgoal by (rule m)
    subgoal by simp
    subgoal using views(1) by simp
    subgoal using views(2) by simp
    subgoal using views(3) by simp
    subgoal by (simp add: prototype_contains_def)
    done
next
  assume c: "h <s l"
  have "\<not> prototype_contains
       \<lparr> srange = \<lparr> range_lo = l, range_hi = h \<rparr>,
         urange = \<lparr> range_lo = 0, range_hi = max_juint \<rparr>,
         bits = \<lparr> zeros = 0, ones = 0 \<rparr> \<rparr> v" for v
    using crossed_signed_range [OF c, of v] by (auto simp: prototype_contains_def)
  then show "TypeInt_make ri l h w = TOP"
    by (simp add: TypeInt_make_def TypeInt_make_or_top_def canonicalize_constraints_def)
qed

text \<open>
  The examples of the spec: a crossed signed range, the signed range \<open>[5, 10]\<close> against
  an unsigned range that requires 0, and \<^verbatim>\<open>make(5, 3, w)\<close> collapse; \<^verbatim>\<open>make(0, 1, w)\<close>
  does not.
\<close>

lemma example_crossed_empty: "\<forall>v. \<not> prototype_contains example_crossed_prototype v"
  by (simp add: prototype_contains_def example_crossed_prototype_def word_sle_eq)

lemma example_disjoint_empty: "\<forall>v. \<not> prototype_contains example_disjoint_prototype v"
proof
  fix v :: juint
  show "\<not> prototype_contains example_disjoint_prototype v"
  proof
    assume a: "prototype_contains example_disjoint_prototype v"
    then have "v \<le> 0" by (simp add: prototype_contains_def example_disjoint_prototype_def)
    then have "v = 0" by simp
    with a show False
      by (simp add: prototype_contains_def example_disjoint_prototype_def word_sle_eq)
  qed
qed

lemma example_0_1_nonempty:
  "\<exists>v. prototype_contains
       \<lparr> srange = \<lparr> range_lo = 0, range_hi = 1 \<rparr>,
         urange = \<lparr> range_lo = 0, range_hi = max_juint \<rparr>,
         bits = \<lparr> zeros = 0, ones = 0 \<rparr> \<rparr> v"
  by (rule exI [of _ 0]) (simp add: prototype_contains_def is_satisfied_by_def word_sle_eq)

theorem TypeInt_contradictory_collapse_witness:
  "(\<forall>v. \<not> prototype_contains example_crossed_prototype v) \<and>
   TypeInt_make_or_top example_rangeinference example_crossed_prototype WidenMin False =
     Type Top \<and>
   TypeInt_make_or_top example_rangeinference example_crossed_prototype WidenMin True =
     Type Bottom \<and>
   (\<forall>v. \<not> prototype_contains example_disjoint_prototype v) \<and>
   TypeInt_make_or_top example_rangeinference example_disjoint_prototype WidenMin False =
     Type Top \<and>
   (3 :: jint) <s 5 \<and>
   TypeInt_make example_rangeinference 5 3 WidenMin = Type Top \<and>
   (\<exists>T. TypeInt_make example_rangeinference 0 1 WidenMin = TypeInt T \<and>
      lo T \<le>s hi T \<and> ulo T \<le> uhi T)"
proof -
  note c = example_crossed_empty
  note d = example_disjoint_empty
  have lt: "(3 :: jint) <s 5" by (simp add: word_sless_alt)
  from TypeInt_contradictory_collapse
        [of example_crossed_prototype example_rangeinference WidenMin False, THEN conjunct1] c
  have a: "TypeInt_make_or_top example_rangeinference example_crossed_prototype WidenMin False =
     Type Top"
    by (simp add: TOP_def)
  from TypeInt_contradictory_collapse
        [of example_crossed_prototype example_rangeinference WidenMin True, THEN conjunct1] c
  have b: "TypeInt_make_or_top example_rangeinference example_crossed_prototype WidenMin True =
     Type Bottom"
    by (simp add: BOTTOM_def)
  from TypeInt_contradictory_collapse
        [of example_disjoint_prototype example_rangeinference WidenMin False, THEN conjunct1] d
  have e: "TypeInt_make_or_top example_rangeinference example_disjoint_prototype WidenMin False =
     Type Top"
    by (simp add: TOP_def)
  from TypeInt_contradictory_collapse
        [of _ example_rangeinference WidenMin False 3 5, THEN conjunct2, THEN conjunct2] lt
  have f: "TypeInt_make example_rangeinference 5 3 WidenMin = Type Top"
    by (simp add: TOP_def)
  from TypeInt_contradictory_collapse
        [of "\<lparr> srange = \<lparr> range_lo = 0, range_hi = 1 \<rparr>,
         urange = \<lparr> range_lo = 0, range_hi = max_juint \<rparr>,
         bits = \<lparr> zeros = 0, ones = 0 \<rparr> \<rparr>" example_rangeinference WidenMin False,
         THEN conjunct2, THEN conjunct1] example_0_1_nonempty
  have g: "\<exists>T. TypeInt_make example_rangeinference 0 1 WidenMin = TypeInt T \<and>
      lo T \<le>s hi T \<and> ulo T \<le> uhi T"
    unfolding TypeInt_make_def by blast
  show ?thesis
    by (intro conjI) (fact c a b d e lt f g)+
qed

section \<open>Properties of the type table\<close>

subsection \<open>Structural equality and duals\<close>

lemma TypeInteger_eqI:
  "int_type_is_equal a r \<Longrightarrow> widen a = widen r \<Longrightarrow> is_dual a = is_dual r \<Longrightarrow> a = r"
  by (cases a; cases r) (simp add: int_type_is_equal_def)

lemma eq_speculative_iff:
  assumes "\<And>x y. s = Some x \<Longrightarrow> s' = Some y \<Longrightarrow> Type_equals x y = (x = y)"
  shows "(case s of
            None \<Rightarrow> s' = None
          | Some x \<Rightarrow>
              (case s' of
                 None \<Rightarrow> False
               | Some y \<Rightarrow> if base x \<noteq> base y then False else Type_eq x y)) = (s = s')"
proof (cases s)
  case None
  then show ?thesis by auto
next
  case (Some x)
  show ?thesis
  proof (cases s')
    case None
    with Some show ?thesis by simp
  next
    case (Some y)
    from assms [OF \<open>s = Some x\<close> Some] have "(if base x \<noteq> base y then False else Type_eq x y) = (x = y)"
      by (simp only: Type_equals_def)
    with \<open>s = Some x\<close> Some show ?thesis by simp
  qed
qed

lemma Type_equals_iff:
  "constructed ri a \<Longrightarrow> constructed ri b \<Longrightarrow> Type_equals a b \<longleftrightarrow> a = b"
proof (induction a arbitrary: b)
  case (Type x)
  then show ?case
    by (cases b) (auto simp: Type_equals_def plain_base_def)
next
  case (TypeF x)
  then show ?case by (cases b) (auto simp: Type_equals_def plain_base_def)
next
  case (TypeD x)
  then show ?case by (cases b) (auto simp: Type_equals_def plain_base_def)
next
  case (TypeH x)
  then show ?case by (cases b) (auto simp: Type_equals_def plain_base_def)
next
  case (TypeInt x)
  then show ?case
    by (cases b) (auto simp: Type_equals_def plain_base_def int_type_is_equal_def
        intro: TypeInteger_eqI)
next
  case (TypePtr p off s d)
  have sp: "(case s of
            None \<Rightarrow> s' = None
          | Some x \<Rightarrow>
              (case s' of
                 None \<Rightarrow> False
               | Some y \<Rightarrow> if base x \<noteq> base y then False else Type_eq x y)) = (s = s')"
    if "case s' of None \<Rightarrow> True | Some y \<Rightarrow> constructed ri y" for s'
  proof (rule eq_speculative_iff)
    fix x y assume "s = Some x" "s' = Some y"
    then show "Type_equals x y = (x = y)"
      using TypePtr.IH [of x y] TypePtr.prems(1) that by simp
  qed
  from TypePtr.prems show ?case
    by (cases b) (auto simp: Type_equals_def [of "TypePtr p off s d"] plain_base_def sp)
next
  case (TypeRawPtr p bits)
  then show ?case by (cases b) (auto simp: Type_equals_def plain_base_def)
next
  case (TypeOopPtr p off iid s d)
  have sp: "(case s of
            None \<Rightarrow> s' = None
          | Some x \<Rightarrow>
              (case s' of
                 None \<Rightarrow> False
               | Some y \<Rightarrow> if base x \<noteq> base y then False else Type_eq x y)) = (s = s')"
    if "case s' of None \<Rightarrow> True | Some y \<Rightarrow> constructed ri y" for s'
  proof (rule eq_speculative_iff)
    fix x y assume "s = Some x" "s' = Some y"
    then show "Type_equals x y = (x = y)"
      using TypeOopPtr.IH [of x y] TypeOopPtr.prems(1) that by simp
  qed
  from TypeOopPtr.prems show ?case
    by (cases b) (auto simp: Type_equals_def [of "TypeOopPtr p off iid s d"] plain_base_def sp)
next
  case (TypeInstPtr p k ifs xk oop off iid s d)
  have sp: "(case s of
            None \<Rightarrow> s' = None
          | Some x \<Rightarrow>
              (case s' of
                 None \<Rightarrow> False
               | Some y \<Rightarrow> if base x \<noteq> base y then False else Type_eq x y)) = (s = s')"
    if "case s' of None \<Rightarrow> True | Some y \<Rightarrow> constructed ri y" for s'
  proof (rule eq_speculative_iff)
    fix x y assume "s = Some x" "s' = Some y"
    then show "Type_equals x y = (x = y)"
      using TypeInstPtr.IH [of x y] TypeInstPtr.prems(1) that by simp
  qed
  from TypeInstPtr.prems show ?case
    by (cases b)
      (auto simp: Type_equals_def [of "TypeInstPtr p k ifs xk oop off iid s d"] plain_base_def sp)
qed

lemma ptr_dual_involutive: "ptr_dual ! PTR_index (ptr_dual ! PTR_index p) = p"
  by (cases p) (simp_all add: ptr_dual_def)

lemma dual_type_involutive: "plain_base b \<Longrightarrow> dual_type (dual_type b) = b \<and> plain_base (dual_type b)"
  by (auto simp: plain_base_def)

lemma dual_inline_depth_range:
  assumes "INT_MIN \<le> inline_depth t" "inline_depth t \<le> INT_MAX"
  shows "INT_MIN \<le> dual_inline_depth t" "dual_inline_depth t \<le> INT_MAX"
  using assms by (simp_all add: dual_inline_depth_def INT_MIN_def INT_MAX_def)

lemma constructed_xdual: "constructed ri t \<Longrightarrow> constructed ri (xdual ri t)"
  by (induction t)
    (auto simp: dual_type_involutive TypeInt_new_def dual_inline_depth_range
      split: option.splits)

lemma xdual_involutive: "constructed ri t \<Longrightarrow> xdual ri (xdual ri t) = t"
  by (induction t)
    (auto simp: dual_type_involutive TypeInt_new_def dual_ptr_def ptr_dual_involutive
      dual_offset_def dual_instance_id_def dual_inline_depth_def INT_MIN_def INT_MAX_def
      OffsetTop_def OffsetBot_def InstanceTop_def InstanceBot_def split: option.splits)

lemma base_constructed_not_Bad: "constructed ri t \<Longrightarrow> base t \<noteq> Bad"
  by (cases t) (auto simp: plain_base_def)

lemma xdual_assert_constructed: "constructed ri t \<Longrightarrow> xdual_assert t"
  by (cases t) (auto simp: plain_base_def)

lemma xdual_returns_this_fix: "xdual_returns_this t \<Longrightarrow> xdual ri t = t"
  by (cases t) auto

subsection \<open>Lookups\<close>

lemma Dict_lookup_None:
  "Dict_lookup s key = None \<longleftrightarrow>
     (\<forall>a \<in> set (tdic s). \<not> Type_equals (body s a) (body s key))"
  by (auto simp: Dict_lookup_def find_None_iff)

lemma Dict_lookup_Some:
  "Dict_lookup s key = Some a \<Longrightarrow> a \<in> set (tdic s) \<and> Type_equals (body s a) (body s key)"
  by (auto simp: Dict_lookup_def find_Some_iff)

lemma invariant_entry:
  assumes "table_invariant ri s" "a \<in> set (tdic s)"
  shows "a < next_free s" "a \<notin> deleted s" "constructed ri (body s a)"
    "\<exists>d \<in> set (tdic s). dual_of s a = Some d \<and> dual_of s d = Some a \<and>
       body s d = xdual ri (body s a)"
  using assms by (auto simp: table_invariant_def)

lemma invariant_unique:
  assumes "table_invariant ri s" "a \<in> set (tdic s)" "b \<in> set (tdic s)"
    "body s a = body s b"
  shows "a = b"
proof -
  have "Type_equals (body s a) (body s b)"
    using assms invariant_entry(3) [OF assms(1,2)] invariant_entry(3) [OF assms(1,3)]
    by (simp add: Type_equals_iff)
  with assms show ?thesis by (auto simp: table_invariant_def)
qed

lemma Dict_lookup_hit:
  assumes inv: "table_invariant ri s" and c: "constructed ri (body s key)"
    and old: "old \<in> set (tdic s)" "body s old = body s key"
  shows "Dict_lookup s key = Some old"
proof -
  have "Type_equals (body s old) (body s key)"
    using old c by (simp add: Type_equals_iff)
  with old(1) have "Dict_lookup s key \<noteq> None"
    by (auto simp: Dict_lookup_None)
  then obtain a where a: "Dict_lookup s key = Some a" by auto
  from Dict_lookup_Some [OF a] have "a \<in> set (tdic s)" "Type_equals (body s a) (body s key)"
    by auto
  moreover from this c inv have "body s a = body s key"
    using Type_equals_iff [of ri "body s a" "body s key"] invariant_entry(3) by blast
  ultimately have "a = old"
    using invariant_unique [OF inv _ old(1)] old(2) by simp
  with a show ?thesis by simp
qed

lemma Dict_lookup_miss:
  assumes inv: "table_invariant ri s" and c: "constructed ri (body s key)"
    and miss: "\<forall>a \<in> set (tdic s). body s a \<noteq> body s key"
  shows "Dict_lookup s key = None"
  unfolding Dict_lookup_None
proof
  fix a assume a: "a \<in> set (tdic s)"
  with miss have "body s a \<noteq> body s key" by simp
  then show "\<not> Type_equals (body s a) (body s key)"
    using Type_equals_iff [OF invariant_entry(3) [OF inv a] c] by simp
qed

lemma hashcons_hit:
  assumes inv: "table_invariant ri s" and cand: "candidate ri s this"
    and old: "old \<in> set (tdic s)" "body s old = body s this"
  shows "hashcons ri s this = Inr (delete_Type s this, old)"
proof -
  from cand have c: "constructed ri (body s this)" and nin: "this \<notin> set (tdic s)"
    by (simp_all add: candidate_def)
  have l: "Dict_lookup s this = Some old"
    using inv c old by (rule Dict_lookup_hit)
  have ne: "old \<noteq> this" using old(1) nin by auto
  have b: "base (body s this) \<noteq> Bad" using c by (rule base_constructed_not_Bad)
  from invariant_entry(4) [OF inv old(1)] have d: "dual_of s old \<noteq> None" by auto
  show ?thesis
    using b ne d by (simp add: hashcons_def Dict_Insert_def l delete_Type_def)
qed

subsection \<open>A new type\<close>

lemma Type_eq_refl: "constructed ri b \<Longrightarrow> Type_eq b b"
  using Type_equals_iff [of ri b b] by (simp add: Type_equals_def)

lemma hashcons_miss_this:
  assumes inv: "table_invariant ri s" and cand: "candidate ri s this"
    and miss: "\<forall>a \<in> set (tdic s). body s a \<noteq> body s this"
    and rt: "xdual_returns_this (body s this)"
  shows "hashcons ri s this =
           Inr (s \<lparr> tdic := tdic s @ [this], dual_of := (dual_of s)(this \<mapsto> this) \<rparr>, this)"
proof -
  from cand have c: "constructed ri (body s this)" and nd: "dual_of s this = None"
    by (simp_all add: candidate_def)
  have l: "Dict_lookup s this = None"
    using inv c miss by (rule Dict_lookup_miss)
  have b: "base (body s this) \<noteq> Bad" using c by (rule base_constructed_not_Bad)
  have xa: "xdual_assert (body s this)" using c by (rule xdual_assert_constructed)
  have e: "Type_equals (body s this) (body s this)"
    using c by (simp add: Type_equals_iff)
  show ?thesis
    using b nd xa rt e
    by (simp add: hashcons_def Dict_Insert_def l call_xdual_def and_then_def)
qed

lemma hashcons_miss_new:
  assumes inv: "table_invariant ri s" and cand: "candidate ri s this"
    and miss: "\<forall>a \<in> set (tdic s). body s a \<noteq> body s this"
    and nrt: "\<not> xdual_returns_this (body s this)"
  shows "\<exists>s'. hashcons ri s this = Inr (s', this) \<and>
           body s' = (body s)(next_free s := xdual ri (body s this)) \<and>
           next_free s' = Suc (next_free s) \<and>
           (\<forall>a. a \<noteq> this \<longrightarrow> a \<noteq> next_free s \<longrightarrow> dual_of s' a = dual_of s a) \<and>
           (if xdual ri (body s this) = body s this
            then tdic s' = tdic s @ [this] \<and> dual_of s' this = Some this \<and>
                 deleted s' = insert (next_free s) (deleted s)
            else tdic s' = tdic s @ [this, next_free s] \<and>
                 dual_of s' this = Some (next_free s) \<and>
                 dual_of s' (next_free s) = Some this \<and>
                 deleted s' = deleted s)"
proof -
  from cand have c: "constructed ri (body s this)" and nd: "dual_of s this = None"
    and lt: "this < next_free s"
    by (simp_all add: candidate_def)
  define b where "b = body s this"
  define d where "d = next_free s"
  have td: "this \<noteq> d" using lt by (simp add: d_def)
  have l: "Dict_lookup s this = None"
    using inv c miss by (rule Dict_lookup_miss)
  have nb: "base (body s this) \<noteq> Bad" using c by (rule base_constructed_not_Bad)
  have xa: "xdual_assert (body s this)" using c by (rule xdual_assert_constructed)
  define s1 where "s1 = s \<lparr> tdic := tdic s @ [this] \<rparr>"
  have I1: "Dict_Insert s this False = (s1, None)"
    by (simp add: Dict_Insert_def l s1_def)
  have D1: "dual_of s1 this = None" by (simp add: s1_def nd)
  define s2 where "s2 = fst (new_Type s1 (xdual ri b))"
  have X: "call_xdual ri s1 this = Inr (s2, d)"
    using xa nrt by (simp add: call_xdual_def s2_def new_Type_def s1_def d_def b_def)
  define s3 where "s3 = s2 \<lparr> dual_of := (dual_of s2)(this \<mapsto> d) \<rparr>"
  have B3: "body s3 = (body s)(d := xdual ri b)"
    by (simp add: s3_def s2_def new_Type_def s1_def d_def)
  have T3: "tdic s3 = tdic s @ [this]"
    by (simp add: s3_def s2_def new_Type_def s1_def)
  have U3: "dual_of s3 = (dual_of s)(d := None, this \<mapsto> d)"
    by (simp add: s3_def s2_def new_Type_def s1_def d_def)
  have N3: "next_free s3 = Suc d" "deleted s3 = deleted s"
    by (simp_all add: s3_def s2_def new_Type_def s1_def d_def)
  have bt: "body s3 this = b" using td by (simp add: B3 b_def)
  have bd: "body s3 d = xdual ri b" by (simp add: B3)
  have cb: "constructed ri b" using c by (simp add: b_def)
  have cx: "constructed ri (xdual ri b)" using cb by (rule constructed_xdual)
  have E: "Type_equals (body s3 this) (body s3 d) \<longleftrightarrow> xdual ri b = b"
    using Type_equals_iff [OF cb cx] by (auto simp: bt bd)
  have B2: "body s2 = body s3" by (simp add: s3_def)
  show ?thesis
  proof (cases "xdual ri b = b")
    case True
    define s4 where "s4 = delete_Type s3 d"
    define s5 where "s5 = s4 \<lparr> dual_of := (dual_of s4)(this \<mapsto> this) \<rparr>"
    have E': "Type_equals (body s2 this) (body s2 d)" using E True by (simp add: B2)
    have h: "hashcons ri s this = Inr (s5, this)"
      using nb td E'
      by (simp add: hashcons_def I1 D1 X and_then_def Let_def s3_def [symmetric]
          s4_def [symmetric] s5_def [symmetric])
    have "body s5 = (body s)(d := xdual ri b)" "next_free s5 = Suc d"
      "tdic s5 = tdic s @ [this]" "dual_of s5 this = Some this"
      "deleted s5 = insert d (deleted s)"
      "\<forall>a. a \<noteq> this \<longrightarrow> a \<noteq> d \<longrightarrow> dual_of s5 a = dual_of s a"
      by (simp_all add: s5_def s4_def delete_Type_def B3 T3 U3 N3)
    with h True show ?thesis
      unfolding b_def [symmetric] d_def [symmetric] by auto
  next
    case False
    have E': "\<not> Type_equals (body s2 this) (body s2 d)" using E False by (simp add: B2)
    have D3: "dual_of s3 d = None" using td by (simp add: U3)
    have L: "Dict_lookup s3 d = None"
      unfolding Dict_lookup_None T3
    proof
      fix a assume "a \<in> set (tdic s @ [this])"
      then consider "a = this" | "a \<in> set (tdic s)" by auto
      then show "\<not> Type_equals (body s3 a) (body s3 d)"
      proof cases
        case 1
        then show ?thesis using E' by (simp add: B2)
      next
        case 2
        then have ad: "a \<noteq> d" using invariant_entry(1) [OF inv 2] by (simp add: d_def)
        then have ba: "body s3 a = body s a" by (simp add: B3)
        have ca: "constructed ri (body s a)" by (rule invariant_entry(3) [OF inv 2])
        show ?thesis
        proof
          assume "Type_equals (body s3 a) (body s3 d)"
          then have eq: "body s a = xdual ri b"
            using Type_equals_iff [OF ca cx] by (simp add: ba bd)
          from invariant_entry(4) [OF inv 2] obtain a' where
            a': "a' \<in> set (tdic s)" "body s a' = xdual ri (body s a)" by auto
          then have "body s a' = b"
            using eq xdual_involutive [OF cb] by simp
          with miss a'(1) show False by (simp add: b_def)
        qed
      qed
    qed
    define s4 where "s4 = s3 \<lparr> tdic := tdic s3 @ [d] \<rparr>"
    have I2: "Dict_Insert s3 d True = (s4, None)"
      by (simp add: Dict_Insert_def L s4_def)
    define s5 where "s5 = s4 \<lparr> dual_of := (dual_of s4)(d \<mapsto> this) \<rparr>"
    have Q: "Type_eq (body s4 this) (xdual ri (body s4 d))"
      using Type_eq_refl [OF cb] xdual_involutive [OF cb] td
      by (simp add: s4_def B3 b_def)
    have h: "hashcons ri s this = Inr (s5, this)"
      using nb td E' D3 Q
      by (simp add: hashcons_def I1 D1 X and_then_def Let_def s3_def [symmetric] L I2
          s5_def [symmetric])
    have "body s5 = (body s)(d := xdual ri b)" "next_free s5 = Suc d"
      "tdic s5 = tdic s @ [this, d]" "dual_of s5 this = Some d" "dual_of s5 d = Some this"
      "deleted s5 = deleted s"
      "\<forall>a. a \<noteq> this \<longrightarrow> a \<noteq> d \<longrightarrow> dual_of s5 a = dual_of s a"
      using td by (simp_all add: s5_def s4_def B3 T3 U3 N3)
    with h False show ?thesis
      unfolding b_def [symmetric] d_def [symmetric] by auto
  qed
qed

subsection \<open>The invariant is kept\<close>

lemma invariant_hit:
  assumes inv: "table_invariant ri s" and cand: "candidate ri s this"
  shows "table_invariant ri (delete_Type s this)"
  using assms unfolding table_invariant_def candidate_def delete_Type_def
  by auto

lemma invariant_miss_self:
  assumes inv: "table_invariant ri s" and cand: "candidate ri s this"
    and miss: "\<forall>a \<in> set (tdic s). body s a \<noteq> body s this"
    and self: "xdual ri (body s this) = body s this"
    and T: "tdic s' = tdic s @ [this]"
    and B: "\<forall>a < next_free s. body s' a = body s a"
    and N: "next_free s \<le> next_free s'"
    and U: "dual_of s' this = Some this"
      "\<forall>a. a \<noteq> this \<longrightarrow> a \<noteq> next_free s \<longrightarrow> dual_of s' a = dual_of s a"
    and D: "\<forall>a \<in> deleted s'. a < next_free s' \<and> (a \<in> deleted s \<or> a = next_free s)"
  shows "table_invariant ri s'"
proof -
  from cand have c: "constructed ri (body s this)" and lt: "this < next_free s"
    and nin: "this \<notin> set (tdic s)" and nd: "this \<notin> deleted s"
    by (simp_all add: candidate_def)
  have old: "a < next_free s \<and> a \<notin> deleted s \<and> constructed ri (body s a) \<and> a \<noteq> this \<and>
      body s' a = body s a \<and> dual_of s' a = dual_of s a"
    if "a \<in> set (tdic s)" for a
    using invariant_entry [OF inv that] that nin B U(2) by auto
  have bt: "body s' this = body s this" using B lt by simp
  have 1: "distinct (tdic s')" using inv nin by (simp add: T table_invariant_def)
  have 2: "\<forall>a \<in> deleted s'. a < next_free s'" using D by simp
  have 3: "\<forall>a \<in> set (tdic s'). a < next_free s' \<and> a \<notin> deleted s' \<and>
      constructed ri (body s' a)"
  proof
    fix a assume "a \<in> set (tdic s')"
    then consider "a = this" | "a \<in> set (tdic s)" by (auto simp: T)
    then show "a < next_free s' \<and> a \<notin> deleted s' \<and> constructed ri (body s' a)"
    proof cases
      case 1
      then show ?thesis using lt N nd D c bt by auto
    next
      case 2
      from old [OF 2] show ?thesis using N D by auto
    qed
  qed
  have 4: "\<forall>a \<in> set (tdic s'). \<forall>b \<in> set (tdic s').
        Type_equals (body s' a) (body s' b) \<longrightarrow> a = b"
  proof (intro ballI impI)
    fix a b assume ab: "a \<in> set (tdic s')" "b \<in> set (tdic s')"
      and e: "Type_equals (body s' a) (body s' b)"
    from 3 ab have "constructed ri (body s' a)" "constructed ri (body s' b)" by auto
    with e have eq: "body s' a = body s' b" by (simp add: Type_equals_iff)
    from ab consider "a = this" "b = this" | "a = this" "b \<in> set (tdic s)"
      | "a \<in> set (tdic s)" "b = this" | "a \<in> set (tdic s)" "b \<in> set (tdic s)"
      by (auto simp: T)
    then show "a = b"
    proof cases
      case 1 then show ?thesis by simp
    next
      case 2 then show ?thesis using eq bt old [of b] miss by auto
    next
      case 3 then show ?thesis using eq bt old [of a] miss by auto
    next
      case 4
      then show ?thesis using eq old [of a] old [of b] invariant_unique [OF inv, of a b] by auto
    qed
  qed
  have 5: "\<forall>a \<in> set (tdic s'). \<exists>d \<in> set (tdic s').
        dual_of s' a = Some d \<and> dual_of s' d = Some a \<and> body s' d = xdual ri (body s' a)"
  proof
    fix a assume "a \<in> set (tdic s')"
    then consider "a = this" | "a \<in> set (tdic s)" by (auto simp: T)
    then show "\<exists>d \<in> set (tdic s').
        dual_of s' a = Some d \<and> dual_of s' d = Some a \<and> body s' d = xdual ri (body s' a)"
    proof cases
      case 1
      then show ?thesis using U(1) bt self by (auto simp: T)
    next
      case 2
      from invariant_entry(4) [OF inv 2] obtain d where
        d: "d \<in> set (tdic s)" "dual_of s a = Some d" "dual_of s d = Some a"
          "body s d = xdual ri (body s a)" by auto
      with old [OF 2] old [OF d(1)] show ?thesis by (auto simp: T)
    qed
  qed
  from 1 2 3 4 5 show ?thesis unfolding table_invariant_def by blast
qed

lemma invariant_miss_pair:
  assumes inv: "table_invariant ri s" and cand: "candidate ri s this"
    and miss: "\<forall>a \<in> set (tdic s). body s a \<noteq> body s this"
    and ne: "xdual ri (body s this) \<noteq> body s this"
    and T: "tdic s' = tdic s @ [this, next_free s]"
    and B: "body s' = (body s)(next_free s := xdual ri (body s this))"
    and N: "next_free s' = Suc (next_free s)"
    and U: "dual_of s' this = Some (next_free s)" "dual_of s' (next_free s) = Some this"
      "\<forall>a. a \<noteq> this \<longrightarrow> a \<noteq> next_free s \<longrightarrow> dual_of s' a = dual_of s a"
    and D: "deleted s' = deleted s"
  shows "table_invariant ri s'"
proof -
  from cand have c: "constructed ri (body s this)" and lt: "this < next_free s"
    and nin: "this \<notin> set (tdic s)" and nd: "this \<notin> deleted s"
    by (simp_all add: candidate_def)
  define d where "d = next_free s"
  note T = T [folded d_def] and B = B [folded d_def] and U = U [folded d_def]
  have td: "this \<noteq> d" using lt by (simp add: d_def)
  have old: "a < d \<and> a \<notin> deleted s \<and> constructed ri (body s a) \<and> a \<noteq> this \<and> a \<noteq> d \<and>
      body s' a = body s a \<and> dual_of s' a = dual_of s a"
    if "a \<in> set (tdic s)" for a
    using invariant_entry [OF inv that] that nin B U(3) by (auto simp: d_def)
  have bt: "body s' this = body s this" using B td by simp
  have bd: "body s' d = xdual ri (body s this)" using B by simp
  have cx: "constructed ri (xdual ri (body s this))" using c by (rule constructed_xdual)
  have dn: "d \<notin> set (tdic s)" using old by auto
  have dd: "d \<notin> deleted s" using inv by (auto simp: table_invariant_def d_def)
  have nodual: "body s a \<noteq> xdual ri (body s this)" if a: "a \<in> set (tdic s)" for a
  proof
    assume eq: "body s a = xdual ri (body s this)"
    from invariant_entry(4) [OF inv a] obtain a' where
      a': "a' \<in> set (tdic s)" "body s a' = xdual ri (body s a)" by auto
    then have "body s a' = body s this"
      using eq xdual_involutive [OF c] by simp
    with miss a'(1) show False by simp
  qed
  have 1: "distinct (tdic s')" using inv nin dn td by (simp add: T table_invariant_def)
  have 2: "\<forall>a \<in> deleted s'. a < next_free s'"
    using inv by (auto simp: D N table_invariant_def)
  have 3: "\<forall>a \<in> set (tdic s'). a < next_free s' \<and> a \<notin> deleted s' \<and>
      constructed ri (body s' a)"
  proof
    fix a assume "a \<in> set (tdic s')"
    then consider "a = this" | "a = d" | "a \<in> set (tdic s)" by (auto simp: T)
    then show "a < next_free s' \<and> a \<notin> deleted s' \<and> constructed ri (body s' a)"
    proof cases
      case 1
      then show ?thesis using lt N nd D c bt by auto
    next
      case 2
      then show ?thesis using N D dd cx bd by (auto simp: d_def)
    next
      case 3
      from old [OF 3] show ?thesis using N D by (auto simp: d_def)
    qed
  qed
  have 4: "\<forall>a \<in> set (tdic s'). \<forall>b \<in> set (tdic s').
        Type_equals (body s' a) (body s' b) \<longrightarrow> a = b"
  proof (intro ballI impI)
    fix a b assume ab: "a \<in> set (tdic s')" "b \<in> set (tdic s')"
      and e: "Type_equals (body s' a) (body s' b)"
    from 3 ab have "constructed ri (body s' a)" "constructed ri (body s' b)" by auto
    with e have eq: "body s' a = body s' b" by (simp add: Type_equals_iff)
    have k: "x = this \<or> x = d \<or> x \<in> set (tdic s)" if "x \<in> set (tdic s')" for x
      using that by (auto simp: T)
    show "a = b"
      using k [OF ab(1)] k [OF ab(2)] eq bt bd ne miss nodual old [of a] old [of b]
        invariant_unique [OF inv, of a b]
      by (elim disjE) auto
  qed
  have 5: "\<forall>a \<in> set (tdic s'). \<exists>d' \<in> set (tdic s').
        dual_of s' a = Some d' \<and> dual_of s' d' = Some a \<and> body s' d' = xdual ri (body s' a)"
  proof
    fix a assume "a \<in> set (tdic s')"
    then consider "a = this" | "a = d" | "a \<in> set (tdic s)" by (auto simp: T)
    then show "\<exists>d' \<in> set (tdic s').
        dual_of s' a = Some d' \<and> dual_of s' d' = Some a \<and> body s' d' = xdual ri (body s' a)"
    proof cases
      case 1
      then show ?thesis using U bt bd by (auto simp: T)
    next
      case 2
      then show ?thesis using U bt bd xdual_involutive [OF c] by (auto simp: T)
    next
      case 3
      from invariant_entry(4) [OF inv 3] obtain d' where
        d: "d' \<in> set (tdic s)" "dual_of s a = Some d'" "dual_of s d' = Some a"
          "body s d' = xdual ri (body s a)" by auto
      with old [OF 3] old [OF d(1)] show ?thesis by (auto simp: T)
    qed
  qed
  from 1 2 3 4 5 show ?thesis unfolding table_invariant_def by blast
qed

lemma hashcons_total:
  assumes inv: "table_invariant ri s" and cand: "candidate ri s this"
  shows "\<exists>s' p. hashcons ri s this = Inr (s', p) \<and> table_invariant ri s' \<and>
           p \<in> set (tdic s') \<and> body s' p = body s this \<and>
           set (tdic s) \<subseteq> set (tdic s') \<and>
           (\<forall>a < next_free s. body s' a = body s a) \<and>
           (\<forall>a \<in> set (tdic s). dual_of s' a = dual_of s a) \<and>
           (\<forall>old \<in> set (tdic s). body s old = body s this \<longrightarrow>
              p = old \<and> this \<in> deleted s' \<and> tdic s' = tdic s) \<and>
           ((\<forall>old \<in> set (tdic s). body s old \<noteq> body s this) \<longrightarrow> p = this)"
proof (cases "\<exists>old \<in> set (tdic s). body s old = body s this")
  case True
  then obtain old where old: "old \<in> set (tdic s)" "body s old = body s this" by auto
  have h: "hashcons ri s this = Inr (delete_Type s this, old)"
    using inv cand old by (rule hashcons_hit)
  have i: "table_invariant ri (delete_Type s this)"
    using inv cand by (rule invariant_hit)
  have u: "p = old" if "p \<in> set (tdic s)" "body s p = body s this" for p
    using invariant_unique [OF inv that(1) old(1)] that(2) old(2) by simp
  show ?thesis
    apply (rule exI [of _ "delete_Type s this"], rule exI [of _ old])
    apply (intro conjI)
    subgoal by (rule h)
    subgoal by (rule i)
    subgoal using old by (simp add: delete_Type_def)
    subgoal using old by (simp add: delete_Type_def)
    subgoal by (simp add: delete_Type_def)
    subgoal by (simp add: delete_Type_def)
    subgoal by (simp add: delete_Type_def)
    subgoal using u by (simp add: delete_Type_def)
    subgoal using old by blast
    done
next
  case False
  then have miss: "\<forall>a \<in> set (tdic s). body s a \<noteq> body s this" by auto
  from cand have lt: "this < next_free s" and nin: "this \<notin> set (tdic s)"
    by (simp_all add: candidate_def)
  have oldlt: "a < next_free s \<and> a \<noteq> this" if "a \<in> set (tdic s)" for a
    using invariant_entry(1) [OF inv that] that nin by auto
  show ?thesis
  proof (cases "xdual_returns_this (body s this)")
    case True
    let ?s' = "s \<lparr> tdic := tdic s @ [this], dual_of := (dual_of s)(this \<mapsto> this) \<rparr>"
    have h: "hashcons ri s this = Inr (?s', this)"
      using inv cand miss True by (rule hashcons_miss_this)
    have self: "xdual ri (body s this) = body s this"
      using True by (rule xdual_returns_this_fix)
    have i: "table_invariant ri ?s'"
      using inv cand miss self
    proof (rule invariant_miss_self)
      show "\<forall>a \<in> deleted ?s'. a < next_free ?s' \<and> (a \<in> deleted s \<or> a = next_free s)"
        using inv by (auto simp: table_invariant_def)
    qed simp_all
    show ?thesis
      apply (rule exI [of _ ?s'], rule exI [of _ this])
      apply (intro conjI)
      subgoal by (rule h)
      subgoal by (rule i)
      subgoal by simp
      subgoal by simp
      subgoal by auto
      subgoal by simp
      subgoal using oldlt by simp
      subgoal using miss by blast
      subgoal by simp
      done
  next
    case nrt: False
    from hashcons_miss_new [OF inv cand miss nrt] obtain s' where
      h: "hashcons ri s this = Inr (s', this)"
      and B: "body s' = (body s)(next_free s := xdual ri (body s this))"
      and N: "next_free s' = Suc (next_free s)"
      and U: "\<forall>a. a \<noteq> this \<longrightarrow> a \<noteq> next_free s \<longrightarrow> dual_of s' a = dual_of s a"
      and R: "if xdual ri (body s this) = body s this
            then tdic s' = tdic s @ [this] \<and> dual_of s' this = Some this \<and>
                 deleted s' = insert (next_free s) (deleted s)
            else tdic s' = tdic s @ [this, next_free s] \<and>
                 dual_of s' this = Some (next_free s) \<and>
                 dual_of s' (next_free s) = Some this \<and>
                 deleted s' = deleted s"
      by blast
    have i: "table_invariant ri s'"
    proof (cases "xdual ri (body s this) = body s this")
      case True
      with R have T: "tdic s' = tdic s @ [this]" and UT: "dual_of s' this = Some this"
        and D: "deleted s' = insert (next_free s) (deleted s)" by auto
      show ?thesis
        using inv cand miss True T
      proof (rule invariant_miss_self)
        show "\<forall>a < next_free s. body s' a = body s a" by (simp add: B)
        show "next_free s \<le> next_free s'" by (simp add: N)
        show "dual_of s' this = Some this" by (rule UT)
        show "\<forall>a. a \<noteq> this \<longrightarrow> a \<noteq> next_free s \<longrightarrow> dual_of s' a = dual_of s a" by (rule U)
        show "\<forall>a \<in> deleted s'. a < next_free s' \<and> (a \<in> deleted s \<or> a = next_free s)"
          using inv by (auto simp: D N table_invariant_def)
      qed
    next
      case False
      with R have T: "tdic s' = tdic s @ [this, next_free s]"
        and UT: "dual_of s' this = Some (next_free s)" "dual_of s' (next_free s) = Some this"
        and D: "deleted s' = deleted s" by auto
      show ?thesis
        using inv cand miss False T B N UT U D by (rule invariant_miss_pair)
    qed
    have T: "set (tdic s) \<subseteq> set (tdic s') \<and> this \<in> set (tdic s')"
      using R by (auto split: if_splits)
    have bt: "body s' this = body s this" using B lt by simp
    show ?thesis
      apply (rule exI [of _ s'], rule exI [of _ this])
      apply (intro conjI)
      subgoal by (rule h)
      subgoal by (rule i)
      subgoal using T by simp
      subgoal by (rule bt)
      subgoal using T by simp
      subgoal by (simp add: B)
      subgoal using oldlt U by fastforce
      subgoal using miss by blast
      subgoal by simp
      done
  qed
qed

lemma candidate_new_Type:
  assumes inv: "table_invariant ri s" and c: "constructed ri b"
  shows "table_invariant ri (fst (new_Type s b))"
    "candidate ri (fst (new_Type s b)) (snd (new_Type s b))"
    "body (fst (new_Type s b)) (snd (new_Type s b)) = b"
    "tdic (fst (new_Type s b)) = tdic s"
    "\<forall>a < next_free s. body (fst (new_Type s b)) a = body s a \<and>
       dual_of (fst (new_Type s b)) a = dual_of s a"
    "snd (new_Type s b) = next_free s" "next_free (fst (new_Type s b)) = Suc (next_free s)"
proof -
  have lt: "a < next_free s" if "a \<in> set (tdic s)" for a
    using invariant_entry(1) [OF inv that] .
  have ne: "a \<noteq> next_free s" if "a \<in> set (tdic s)" for a
    using lt [OF that] by simp
  show "table_invariant ri (fst (new_Type s b))"
    using inv ne unfolding table_invariant_def new_Type_def
    by (auto simp: less_Suc_eq)
  show "candidate ri (fst (new_Type s b)) (snd (new_Type s b))"
    using inv c lt unfolding table_invariant_def candidate_def new_Type_def
    by auto
qed (simp_all add: new_Type_def)

subsection \<open>The factories\<close>

lemma make_Type_total:
  assumes inv: "table_invariant ri s" and c: "constructed ri b"
  shows "\<exists>s1 p. make_Type ri s b = Inr (s1, p) \<and> table_invariant ri s1 \<and>
           p \<in> set (tdic s1) \<and> body s1 p = b \<and>
           set (tdic s) \<subseteq> set (tdic s1) \<and>
           (\<forall>a \<in> set (tdic s). body s1 a = body s a \<and> dual_of s1 a = dual_of s a) \<and>
           (\<forall>old \<in> set (tdic s). body s old = b \<longrightarrow>
              p = old \<and> next_free s \<in> deleted s1 \<and> tdic s1 = tdic s) \<and>
           ((\<forall>old \<in> set (tdic s). body s old \<noteq> b) \<longrightarrow> p = next_free s)"
proof -
  define s0 where "s0 = fst (new_Type s b)"
  define this where "this = snd (new_Type s b)"
  note n = candidate_new_Type [OF inv c, folded s0_def this_def]
  have m: "make_Type ri s b = hashcons ri s0 this"
    by (simp add: make_Type_def s0_def this_def case_prod_beta)
  have lt: "a < next_free s" if "a \<in> set (tdic s)" for a
    using invariant_entry(1) [OF inv that] .
  from hashcons_total [OF n(1) n(2)] obtain s1 p where
    h: "hashcons ri s0 this = Inr (s1, p)" and i: "table_invariant ri s1"
    and p: "p \<in> set (tdic s1)" "body s1 p = body s0 this"
    and sub: "set (tdic s0) \<subseteq> set (tdic s1)"
    and B: "\<forall>a < next_free s0. body s1 a = body s0 a"
    and U: "\<forall>a \<in> set (tdic s0). dual_of s1 a = dual_of s0 a"
    and hit: "\<forall>old \<in> set (tdic s0). body s0 old = body s0 this \<longrightarrow>
              p = old \<and> this \<in> deleted s1 \<and> tdic s1 = tdic s0"
    and miss: "(\<forall>old \<in> set (tdic s0). body s0 old \<noteq> body s0 this) \<longrightarrow> p = this"
    by blast
  have old: "body s0 a = body s a \<and> dual_of s0 a = dual_of s a \<and> a < next_free s0"
    if "a \<in> set (tdic s)" for a
    using n(5) n(7) lt [OF that] by simp
  show ?thesis
    apply (rule exI [of _ s1], rule exI [of _ p])
    apply (intro conjI)
    subgoal using h by (simp add: m)
    subgoal by (rule i)
    subgoal by (rule p)
    subgoal using p(2) n(3) by simp
    subgoal using sub n(4) by simp
    subgoal using B U old n(4) by simp
    subgoal using hit old n(3,4,6) by simp
    subgoal using miss old n(3,4,6) by simp
    done
qed

text \<open>
  Claim C6.  From a table that satisfies its invariant, a factory call for a content
  \<open>b\<close> returns without a failed assertion, and returns an entry of the table whose
  content equals \<open>b\<close>.  If an entry with equal content was in the table, it is the
  one returned, the candidate is deleted and the table is unchanged.  Afterwards no two
  entries of the table have equal content and no entry is deleted, and a second call
  with the same content returns the same object.
\<close>

theorem hashcons_unique:
  assumes "table_invariant ri s" and "constructed ri b"
  shows "\<exists>s1 p. make_Type ri s b = Inr (s1, p) \<and>
           p \<in> set (tdic s1) \<and> Type_equals (body s1 p) b \<and>
           (\<forall>old \<in> set (tdic s). Type_equals (body s old) b \<longrightarrow>
              p = old \<and> next_free s \<in> deleted s1 \<and> tdic s1 = tdic s) \<and>
           (\<forall>a \<in> set (tdic s1). \<forall>a' \<in> set (tdic s1).
              Type_equals (body s1 a) (body s1 a') \<longrightarrow> a = a') \<and>
           (\<forall>a \<in> set (tdic s1). a \<notin> deleted s1) \<and>
           (\<exists>s2. make_Type ri s1 b = Inr (s2, p) \<and> tdic s2 = tdic s1)"
proof -
  from make_Type_total [OF assms] obtain s1 p where
    h: "make_Type ri s b = Inr (s1, p)" and i: "table_invariant ri s1"
    and p: "p \<in> set (tdic s1)" "body s1 p = b"
    and hit: "\<forall>old \<in> set (tdic s). body s old = b \<longrightarrow>
              p = old \<and> next_free s \<in> deleted s1 \<and> tdic s1 = tdic s"
    by blast
  from make_Type_total [OF i assms(2)] obtain s2 p2 where
    h2: "make_Type ri s1 b = Inr (s2, p2)"
    and hit2: "\<forall>old \<in> set (tdic s1). body s1 old = b \<longrightarrow>
              p2 = old \<and> next_free s1 \<in> deleted s2 \<and> tdic s2 = tdic s1"
    by blast
  from hit2 p have again: "p2 = p" "tdic s2 = tdic s1" by auto
  have eq: "Type_equals (body s old) b \<longleftrightarrow> body s old = b" if "old \<in> set (tdic s)" for old
    using Type_equals_iff [OF invariant_entry(3) [OF assms(1) that] assms(2)] .
  show ?thesis
    apply (rule exI [of _ s1], rule exI [of _ p])
    apply (intro conjI)
    subgoal by (rule h)
    subgoal by (rule p)
    subgoal using p(2) assms(2) by (simp add: Type_equals_iff)
    subgoal using hit eq by simp
    subgoal using i by (simp add: table_invariant_def)
    subgoal using i by (simp add: table_invariant_def)
    subgoal using h2 again by simp
    done
qed

text \<open>
  Claim C5.  After a factory call the dual of the dual of the returned object is that
  object, and the content of its dual is its \<^verbatim>\<open>xdual\<close>; the same holds for every
  entry of the table.  If the content equals its own \<^verbatim>\<open>xdual\<close>, the object is its own
  dual.  The dual of an object that was in the table before is not computed again: its
  \<^verbatim>\<open>_dual\<close> field is what it was.
\<close>

theorem hashcons_double_dual:
  assumes "table_invariant ri s" and "constructed ri b"
  shows "\<exists>s1 p. make_Type ri s b = Inr (s1, p) \<and>
           (\<exists>d. Type_dual s1 p = Some d \<and> Type_dual s1 d = Some p \<and> body s1 d = xdual ri b) \<and>
           (\<forall>a \<in> set (tdic s1). \<exists>d \<in> set (tdic s1).
              Type_dual s1 a = Some d \<and> Type_dual s1 d = Some a) \<and>
           (Type_equals b (xdual ri b) \<longrightarrow> Type_dual s1 p = Some p) \<and>
           (\<forall>a \<in> set (tdic s). Type_dual s1 a = Type_dual s a)"
proof -
  from make_Type_total [OF assms] obtain s1 p where
    h: "make_Type ri s b = Inr (s1, p)" and i: "table_invariant ri s1"
    and p: "p \<in> set (tdic s1)" "body s1 p = b"
    and U: "\<forall>a \<in> set (tdic s). body s1 a = body s a \<and> dual_of s1 a = dual_of s a"
    by blast
  from invariant_entry(4) [OF i p(1)] obtain d where
    d: "d \<in> set (tdic s1)" "dual_of s1 p = Some d" "dual_of s1 d = Some p"
      "body s1 d = xdual ri b"
    using p(2) by auto
  have self: "dual_of s1 p = Some p" if "Type_equals b (xdual ri b)"
  proof -
    from that have "b = xdual ri b"
      using Type_equals_iff [OF assms(2) constructed_xdual [OF assms(2)]] by simp
    then have "body s1 d = body s1 p" using d(4) p(2) by simp
    from invariant_unique [OF i d(1) p(1) this] d(2) show ?thesis by simp
  qed
  have all: "\<exists>d \<in> set (tdic s1). dual_of s1 a = Some d \<and> dual_of s1 d = Some a"
    if "a \<in> set (tdic s1)" for a
    using invariant_entry(4) [OF i that] by blast
  show ?thesis
    apply (rule exI [of _ s1], rule exI [of _ p])
    apply (intro conjI)
    subgoal by (rule h)
    subgoal using d by (auto simp: Type_dual_def)
    subgoal using all by (simp add: Type_dual_def)
    subgoal using self by (simp add: Type_dual_def)
    subgoal using U by (simp add: Type_dual_def)
    done
qed

lemma empty_arena_invariant: "table_invariant ri empty_arena"
  by (simp add: table_invariant_def empty_arena_def)

lemma example_int_constructed: "constructed example_rangeinference example_int_0_1"
  by (simp add: example_int_0_1_def example_rangeinference_def)

lemma hashcons_example:
  "\<exists>s1 s2. make_Type example_rangeinference empty_arena example_int_0_1 = Inr (s1, 0) \<and>
     tdic s1 = [0, 1] \<and> Type_dual s1 0 = Some 1 \<and> Type_dual s1 1 = Some 0 \<and>
     make_Type example_rangeinference s1 example_int_0_1 = Inr (s2, 0) \<and>
     tdic s2 = [0, 1] \<and> deleted s2 = {2}"
  by (simp add: make_Type_def new_Type_def hashcons_def Dict_Insert_def Dict_lookup_def
      call_xdual_def Type_equals_def and_then_def delete_Type_def Type_dual_def
      empty_arena_def example_int_0_1_def example_rangeinference_def TypeInt_new_def
      int_type_is_equal_def Let_def)

text \<open>
  Self-dual objects: a float constant, whose \<^verbatim>\<open>xdual\<close> returns \<^verbatim>\<open>this\<close>, and
  \<^verbatim>\<open>Type::CONTROL\<close>, whose \<^verbatim>\<open>xdual\<close> builds an equal object that is deleted.
\<close>

lemma hashcons_example_self:
  "(\<exists>s1. make_Type example_rangeinference empty_arena (TypeF 0) = Inr (s1, 0) \<and>
     tdic s1 = [0] \<and> Type_dual s1 0 = Some 0 \<and> deleted s1 = {}) \<and>
   (\<exists>s1. make_Type example_rangeinference empty_arena (Type Control) = Inr (s1, 0) \<and>
     tdic s1 = [0] \<and> Type_dual s1 0 = Some 0 \<and> deleted s1 = {1})"
  by (simp add: make_Type_def new_Type_def hashcons_def Dict_Insert_def Dict_lookup_def
      call_xdual_def Type_equals_def and_then_def delete_Type_def Type_dual_def
      empty_arena_def Let_def)

text \<open>
  Two calls for the bounded integer \<open>[0, 1]\<close> from the empty table: the first enters
  the object 0 and its dual 1, the second deletes its candidate 2 and returns 0.
\<close>

theorem hashcons_unique_witness:
  "table_invariant example_rangeinference empty_arena \<and>
   constructed example_rangeinference example_int_0_1 \<and>
   (\<exists>s1 p. make_Type example_rangeinference empty_arena example_int_0_1 = Inr (s1, p) \<and>
           p \<in> set (tdic s1) \<and> Type_equals (body s1 p) example_int_0_1 \<and>
           (\<forall>old \<in> set (tdic empty_arena).
              Type_equals (body empty_arena old) example_int_0_1 \<longrightarrow>
              p = old \<and> next_free empty_arena \<in> deleted s1 \<and> tdic s1 = tdic empty_arena) \<and>
           (\<forall>a \<in> set (tdic s1). \<forall>a' \<in> set (tdic s1).
              Type_equals (body s1 a) (body s1 a') \<longrightarrow> a = a') \<and>
           (\<forall>a \<in> set (tdic s1). a \<notin> deleted s1) \<and>
           (\<exists>s2. make_Type example_rangeinference s1 example_int_0_1 = Inr (s2, p) \<and>
              tdic s2 = tdic s1))"
  by (rule conjI [OF empty_arena_invariant conjI [OF example_int_constructed
        hashcons_unique [OF empty_arena_invariant example_int_constructed]]])

lemma example_arena_invariant: "table_invariant example_rangeinference example_arena"
  by (simp add: table_invariant_def example_arena_def example_int_0_1_def
      example_rangeinference_def Type_equals_def TypeInt_new_def int_type_is_equal_def)

lemma example_self_dual_constructed:
  "constructed example_rangeinference example_self_dual_ptr"
  by (simp add: example_self_dual_ptr_def INT_MIN_def INT_MAX_def)

lemma example_self_dual_equals:
  "Type_equals example_self_dual_ptr (xdual example_rangeinference example_self_dual_ptr)"
  by (simp add: example_self_dual_ptr_def Type_equals_def dual_ptr_def ptr_dual_def
      dual_offset_def dual_inline_depth_def OffsetTop_def OffsetBot_def)

lemma hashcons_example_INT_MIN:
  "\<exists>s1. make_Type example_rangeinference example_arena example_self_dual_ptr = Inr (s1, 2)"
  by (simp add: make_Type_def new_Type_def hashcons_def Dict_Insert_def Dict_lookup_def
      call_xdual_def Type_equals_def and_then_def delete_Type_def
      example_arena_def example_self_dual_ptr_def example_int_0_1_def TypeInt_new_def
      dual_ptr_def ptr_dual_def dual_offset_def dual_inline_depth_def OffsetTop_def
      OffsetBot_def Let_def)

text \<open>
  Two runs.  From the empty table the bounded integer \<open>[0, 1]\<close> becomes the object 0
  and its dual the object 1, each the dual of the other.  From the table that holds
  these two, the pointer of inline depth \<^verbatim>\<open>INT_MIN\<close> becomes the object 2, which is its
  own dual, and the objects 0 and 1 keep their duals.
\<close>

theorem hashcons_double_dual_witness:
  "table_invariant example_rangeinference empty_arena \<and>
   constructed example_rangeinference example_int_0_1 \<and>
   (\<exists>s1. make_Type example_rangeinference empty_arena example_int_0_1 = Inr (s1, 0) \<and>
      (\<exists>d. Type_dual s1 0 = Some d \<and> Type_dual s1 d = Some 0 \<and>
         body s1 d = xdual example_rangeinference example_int_0_1)) \<and>
   table_invariant example_rangeinference example_arena \<and>
   constructed example_rangeinference example_self_dual_ptr \<and>
   Type_equals example_self_dual_ptr (xdual example_rangeinference example_self_dual_ptr) \<and>
   Type_dual example_arena 0 = Some 1 \<and> Type_dual example_arena 1 = Some 0 \<and>
   (\<exists>s1. make_Type example_rangeinference example_arena example_self_dual_ptr = Inr (s1, 2) \<and>
      Type_dual s1 2 = Some 2 \<and> Type_dual s1 0 = Some 1 \<and> Type_dual s1 1 = Some 0)"
proof -
  note i0 = empty_arena_invariant [of example_rangeinference]
  note c0 = example_int_constructed
  note i1 = example_arena_invariant
  note c1 = example_self_dual_constructed
  note e1 = example_self_dual_equals
  have old: "Type_dual example_arena 0 = Some 1" "Type_dual example_arena 1 = Some 0"
    by (simp_all add: Type_dual_def example_arena_def)
  have first: "\<exists>s1. make_Type example_rangeinference empty_arena example_int_0_1 = Inr (s1, 0) \<and>
      (\<exists>d. Type_dual s1 0 = Some d \<and> Type_dual s1 d = Some 0 \<and>
         body s1 d = xdual example_rangeinference example_int_0_1)"
  proof -
    from hashcons_double_dual [OF i0 c0] obtain s1 p where
      h: "make_Type example_rangeinference empty_arena example_int_0_1 = Inr (s1, p)"
      and dd: "\<exists>d. Type_dual s1 p = Some d \<and> Type_dual s1 d = Some p \<and>
         body s1 d = xdual example_rangeinference example_int_0_1"
      by blast
    from hashcons_example obtain s where
      "make_Type example_rangeinference empty_arena example_int_0_1 = Inr (s, 0)"
      by blast
    with h have "p = 0" by simp
    with h dd show ?thesis by blast
  qed
  have second: "\<exists>s1. make_Type example_rangeinference example_arena example_self_dual_ptr =
        Inr (s1, 2) \<and>
      Type_dual s1 2 = Some 2 \<and> Type_dual s1 0 = Some 1 \<and> Type_dual s1 1 = Some 0"
  proof -
    from hashcons_double_dual [OF i1 c1] obtain s1 p where
      h: "make_Type example_rangeinference example_arena example_self_dual_ptr = Inr (s1, p)"
      and self: "Type_equals example_self_dual_ptr
          (xdual example_rangeinference example_self_dual_ptr) \<longrightarrow>
        Type_dual s1 p = Some p"
      and keep: "\<forall>a \<in> set (tdic example_arena). Type_dual s1 a = Type_dual example_arena a"
      by blast
    from hashcons_example_INT_MIN obtain s where
      "make_Type example_rangeinference example_arena example_self_dual_ptr = Inr (s, 2)"
      by blast
    with h have p: "p = 2" by simp
    have "0 \<in> set (tdic example_arena)" "1 \<in> set (tdic example_arena)"
      by (simp_all add: example_arena_def)
    with keep old have "Type_dual s1 0 = Some 1" "Type_dual s1 1 = Some 0" by auto
    with h p self e1 show ?thesis by blast
  qed
  show ?thesis
    by (intro conjI) (fact i0 c0 first i1 c1 e1 old second)+
qed


end
